(* ===== verification/Prelude.thy ===== *)
theory Prelude
  imports Main "HOL-Library.Word" "HOL-Library.AList" "HOL-Library.While_Combinator"
begin

text \<open>
  Shared vocabulary of the development: the machine types of the Rust sources, the
  result type of fallible code, the hash map of the standard library and the generic
  lemmas the component theories use.

  Conventions.
  \<^item> Fixed-width integers are words. \<open>c_int\<close> is a 32-bit word read with
    \<^const>\<open>sint\<close>; the cast \<^verbatim>\<open>fd as u32\<close> is then the identity.
    Arithmetic wraps, as in the release profile the repository ships.
  \<^item> A Rust panic (an index or slice out of range, \<^verbatim>\<open>unwrap\<close> of nothing, a failed
    \<^verbatim>\<open>assert!\<close>) is a value: \<^const>\<open>None\<close> where the operation has no error of its own,
    \<open>Panic\<close> of type \<open>rres\<close> where it also returns \<^verbatim>\<open>Result\<close>.
  \<^item> A \<^verbatim>\<open>HashMap\<close> is an association list whose order stands for the iteration order,
    which the language does not fix: the properties hold for every order.
\<close>

section \<open>Machine types\<close>

type_synonym u8 = "8 word"
type_synonym u16 = "16 word"
type_synonym u32 = "32 word"
type_synonym u64 = "64 word"
type_synonym usize = "64 word"
type_synonym c_int = "32 word"

text \<open>The bytes of a string literal.\<close>

definition bytes_of :: "string \<Rightarrow> u8 list" where
  "bytes_of s = map of_char s"

named_theorems hm_simps \<open>equations of the hash map operations\<close>
named_theorems inv_intros \<open>preservation of the component invariants\<close>

section \<open>Results of fallible code\<close>

datatype ('e, 'a) rres = Ok 'a | Err 'e | Panic

text \<open>The question-mark operator: an error and a panic leave the function at once.\<close>

fun rbind :: "('e, 'a) rres \<Rightarrow> ('a \<Rightarrow> ('e, 'b) rres) \<Rightarrow> ('e, 'b) rres" where
  "rbind (Ok x) f = f x"
| "rbind (Err e) f = Err e"
| "rbind Panic f = Panic"

lemma rbind_eq_Ok [simp]: "rbind m f = Ok y \<longleftrightarrow> (\<exists>x. m = Ok x \<and> f x = Ok y)"
  by (cases m) auto

lemma rbind_eq_Err: "rbind m f = Err e \<longleftrightarrow> m = Err e \<or> (\<exists>x. m = Ok x \<and> f x = Err e)"
  by (cases m) auto

lemma rbind_eq_Panic: "rbind m f = Panic \<longleftrightarrow> m = Panic \<or> (\<exists>x. m = Ok x \<and> f x = Panic)"
  by (cases m) auto

lemma rbind_cong [fundef_cong]:
  "m = m' \<Longrightarrow> (\<And>x. m' = Ok x \<Longrightarrow> f x = g x) \<Longrightarrow> rbind m f = rbind m' g"
  by (cases m') auto

section \<open>Hash maps\<close>

type_synonym ('k, 'v) hmap = "('k \<times> 'v) list"

definition hm_get :: "('k, 'v) hmap \<Rightarrow> 'k \<Rightarrow> 'v option" where
  "hm_get m k = map_of m k"

definition hm_insert :: "'k \<Rightarrow> 'v \<Rightarrow> ('k, 'v) hmap \<Rightarrow> ('k, 'v) hmap" where
  "hm_insert k v m = AList.update k v m"

definition hm_remove :: "'k \<Rightarrow> ('k, 'v) hmap \<Rightarrow> ('k, 'v) hmap" where
  "hm_remove k m = AList.delete k m"

definition hm_contains :: "('k, 'v) hmap \<Rightarrow> 'k \<Rightarrow> bool" where
  "hm_contains m k = (hm_get m k \<noteq> None)"

definition hm_keys :: "('k, 'v) hmap \<Rightarrow> 'k list" where
  "hm_keys m = map fst m"

definition hm_values :: "('k, 'v) hmap \<Rightarrow> 'v list" where
  "hm_values m = map snd m"

definition hm_retain :: "('k \<Rightarrow> 'v \<Rightarrow> bool) \<Rightarrow> ('k, 'v) hmap \<Rightarrow> ('k, 'v) hmap" where
  "hm_retain P m = filter (\<lambda>(k, v). P k v) m"

text \<open>The write through \<^verbatim>\<open>get_mut\<close>: nothing happens when the key is absent.\<close>

definition hm_modify :: "'k \<Rightarrow> ('v \<Rightarrow> 'v) \<Rightarrow> ('k, 'v) hmap \<Rightarrow> ('k, 'v) hmap" where
  "hm_modify k f m = (case hm_get m k of None \<Rightarrow> m | Some v \<Rightarrow> hm_insert k (f v) m)"

definition hm_ok :: "('k, 'v) hmap \<Rightarrow> bool" where
  "hm_ok m = distinct (hm_keys m)"

lemma hm_get_empty [simp, hm_simps]: "hm_get [] k = None"
  by (simp add: hm_get_def)

lemma hm_get_Cons: "hm_get ((k', v) # m) k = (if k = k' then Some v else hm_get m k)"
  by (simp add: hm_get_def)

lemma hm_get_insert [simp, hm_simps]:
  "hm_get (hm_insert k v m) k' = (if k' = k then Some v else hm_get m k')"
  by (simp add: hm_get_def hm_insert_def update_conv')

lemma hm_get_remove [simp, hm_simps]:
  "hm_get (hm_remove k m) k' = (if k' = k then None else hm_get m k')"
  by (simp add: hm_get_def hm_remove_def delete_conv')

lemma hm_get_modify [simp, hm_simps]:
  "hm_get (hm_modify k f m) k' = (if k' = k then map_option f (hm_get m k) else hm_get m k')"
  by (auto simp: hm_modify_def split: option.splits)

lemma hm_contains_insert [simp, hm_simps]:
  "hm_contains (hm_insert k v m) k' \<longleftrightarrow> k' = k \<or> hm_contains m k'"
  by (simp add: hm_contains_def)

lemma hm_contains_remove [simp, hm_simps]:
  "hm_contains (hm_remove k m) k' \<longleftrightarrow> k' \<noteq> k \<and> hm_contains m k'"
  by (simp add: hm_contains_def)

lemma hm_contains_modify [simp, hm_simps]:
  "hm_contains (hm_modify k f m) k' = hm_contains m k'"
  by (auto simp: hm_contains_def)

lemma hm_contains_keys: "hm_contains m k \<longleftrightarrow> k \<in> set (hm_keys m)"
  by (auto simp: hm_contains_def hm_get_def hm_keys_def map_of_eq_None_iff image_iff)

lemma hm_contains_empty [simp]: "\<not> hm_contains [] k"
  by (simp add: hm_contains_def)

lemma set_hm_keys_insert [simp]: "set (hm_keys (hm_insert k v m)) = insert k (set (hm_keys m))"
  by (auto simp flip: hm_contains_keys)

lemma set_hm_keys_remove [simp]: "set (hm_keys (hm_remove k m)) = set (hm_keys m) - {k}"
  by (auto simp flip: hm_contains_keys)

lemma set_hm_keys_modify [simp]: "set (hm_keys (hm_modify k f m)) = set (hm_keys m)"
  by (auto simp flip: hm_contains_keys)

lemma hm_ok_empty [simp, inv_intros]: "hm_ok []"
  by (simp add: hm_ok_def hm_keys_def)

lemma hm_ok_insert [simp, inv_intros]: "hm_ok m \<Longrightarrow> hm_ok (hm_insert k v m)"
  by (simp add: hm_ok_def hm_keys_def hm_insert_def distinct_update)

lemma hm_ok_remove [simp, inv_intros]: "hm_ok m \<Longrightarrow> hm_ok (hm_remove k m)"
  by (simp add: hm_ok_def hm_keys_def hm_remove_def distinct_delete)

lemma hm_ok_modify [simp, inv_intros]: "hm_ok m \<Longrightarrow> hm_ok (hm_modify k f m)"
  by (simp add: hm_modify_def split: option.split)

lemma hm_ok_retain [simp, inv_intros]: "hm_ok m \<Longrightarrow> hm_ok (hm_retain P m)"
  by (induction m) (auto simp: hm_ok_def hm_keys_def hm_retain_def)

lemma hm_get_retain:
  "hm_ok m \<Longrightarrow> hm_get (hm_retain P m) k =
     (case hm_get m k of None \<Rightarrow> None | Some v \<Rightarrow> if P k v then Some v else None)"
  by (induction m) (auto simp: hm_ok_def hm_keys_def hm_retain_def hm_get_def
      map_of_eq_None_iff image_iff split: option.splits)

lemma hm_get_Some_mem: "hm_get m k = Some v \<Longrightarrow> (k, v) \<in> set m"
  by (simp add: hm_get_def map_of_SomeD)

lemma hm_ok_get_iff: "hm_ok m \<Longrightarrow> hm_get m k = Some v \<longleftrightarrow> (k, v) \<in> set m"
  by (simp add: hm_get_def hm_ok_def hm_keys_def)

lemma set_hm_values: "hm_ok m \<Longrightarrow> set (hm_values m) = {v. \<exists>k. hm_get m k = Some v}"
  by (auto simp: hm_values_def hm_ok_get_iff image_iff) force

lemma length_hm_keys [simp]: "length (hm_keys m) = length m"
  by (simp add: hm_keys_def)

lemma hm_insert_absent: "hm_get m k = None \<Longrightarrow> hm_insert k v m = m @ [(k, v)]"
  by (induction m) (auto simp: hm_get_def hm_insert_def split: if_splits)

lemma hm_fold_insert:
  "distinct (map fst (m @ xs)) \<Longrightarrow> fold (\<lambda>(k, v). hm_insert k v) xs m = m @ xs"
proof (induction xs arbitrary: m)
  case (Cons x xs)
  obtain k v where x: "x = (k, v)" by fastforce
  have "hm_get m k = None" using Cons.prems x by (auto simp: hm_get_def map_of_eq_None_iff)
  then show ?case using Cons.IH [of "m @ [x]"] Cons.prems x by (simp add: hm_insert_absent)
qed simp

lemma hm_modify_absent: "hm_get m k = None \<Longrightarrow> hm_modify k f m = m"
  by (simp add: hm_modify_def)

lemma hm_insert_same: "hm_get m k = Some v \<Longrightarrow> hm_insert k v m = m"
  by (simp add: hm_get_def hm_insert_def update_triv)

lemma hm_modify_id: "hm_get m k = Some v \<Longrightarrow> f v = v \<Longrightarrow> hm_modify k f m = m"
  by (simp add: hm_modify_def hm_insert_same)

lemma hm_modify_modify: "hm_modify k f (hm_modify k g m) = hm_modify k (f \<circ> g) m"
  by (cases "hm_get m k") (simp_all add: hm_modify_def hm_insert_def hm_get_def AList.update_conv')

section \<open>Words\<close>

lemma unat_succ:
  fixes x :: "'a::len word"
  assumes "x \<noteq> - 1"
  shows "unat (x + 1) = unat x + 1"
proof -
  have "x + 1 \<noteq> 0" using assms by (metis max_word_wrap add_eq_0_iff minus_minus)
  then show ?thesis using unat_minus_one [of "x + 1"] by (simp add: unat_gt_0 unat_eq_zero)
qed

lemma word_less_succ:
  fixes x :: "'a::len word"
  shows "x \<noteq> - 1 \<Longrightarrow> x < x + 1"
  by (simp add: word_less_nat_alt unat_succ)

section \<open>Transition systems\<close>

text \<open>
  A component whose steps keep an invariant that its initial states satisfy: the
  invariant then holds after every run.
\<close>

locale transition_system =
  fixes initial :: "'s \<Rightarrow> bool" and trans :: "'s \<Rightarrow> 's \<Rightarrow> bool" and invariant :: "'s \<Rightarrow> bool"
  assumes initial_inv: "initial s \<Longrightarrow> invariant s"
    and trans_inv: "invariant s \<Longrightarrow> trans s s' \<Longrightarrow> invariant s'"
begin

lemma run_inv:
  assumes "trans\<^sup>*\<^sup>* s t" and "invariant s"
  shows "invariant t"
  using assms by (induction rule: rtranclp_induct) (auto intro: trans_inv)

lemma reachable_inv: "initial s \<Longrightarrow> trans\<^sup>*\<^sup>* s t \<Longrightarrow> invariant t"
  using initial_inv run_inv by blast

end

text \<open>
  A call that runs step by step, with other threads acting in between, and counts down, except
  that a step may wait for a mutex that is not \<open>free\<close>. If every wait is over after at most \<open>B\<close>
  steps, the call is over after \<open>B + 1\<close> times as many steps as its rank.
\<close>

locale bounded_call =
  fixes step :: "nat \<Rightarrow> 'pc \<Rightarrow> 's \<Rightarrow> 'pc \<times> 's" and run :: "nat \<Rightarrow> nat \<Rightarrow> 'pc \<Rightarrow> 's \<Rightarrow> 'pc \<times> 's"
    and finished :: "'pc \<Rightarrow> bool" and counts :: "'pc \<Rightarrow> bool" and rank :: "'pc \<Rightarrow> nat" and free :: "nat \<Rightarrow> bool"
  assumes run_0: "run 0 k pc s = (pc, s)"
    and run_finished: "finished pc \<Longrightarrow> run n k pc s = (pc, s)"
    and run_Suc: "\<not> finished pc \<Longrightarrow> step k pc s = (pc', s') \<Longrightarrow> run (Suc n) k pc s = run n (Suc k) pc' s'"
    and step_rank: "counts pc \<Longrightarrow> \<not> finished pc \<Longrightarrow> step k pc s = (pc', s') \<Longrightarrow>
      counts pc' \<and> (rank pc' < rank pc \<or> \<not> free k \<and> pc' = pc)"
begin

lemma rank_pos:
  assumes "counts pc" and "\<not> finished pc" and "free k"
  shows "0 < rank pc"
proof -
  obtain pc' s' where "step k pc undefined = (pc', s')" by fastforce
  then show ?thesis using step_rank [of pc k] assms by fastforce
qed

lemma run_ends_from:
  assumes "\<And>k. \<exists>j \<le> B. free (k + j)" and "counts pc" and "free (k + j)" and "(rank pc - 1) * Suc B + Suc j \<le> n"
  shows "finished (fst (run n k pc s))"
  using assms(2-)
proof (induction n arbitrary: k j pc s)
  case (Suc n)
  obtain pc' s' where st: "step k pc s = (pc', s')" by fastforce
  show ?case
  proof (cases "finished pc \<or> finished pc'")
    case True
    then show ?thesis using run_finished run_Suc st by (cases "finished pc") auto
  next
    case False
    then have go: "run (Suc n) k pc s = run n (Suc k) pc' s'" using run_Suc st by blast
    have c: "counts pc'" "rank pc' < rank pc \<or> \<not> free k \<and> pc' = pc"
      using step_rank [OF Suc.prems(1) _ st] False by auto
    show ?thesis
    proof (cases "rank pc' < rank pc")
      case True
      obtain j' where j': "j' \<le> B" "free (Suc k + j')" using assms(1) by blast
      have "0 < rank pc'" using rank_pos [OF c(1) _ j'(2)] False by blast
      then have "rank pc' - 1 + 1 \<le> rank pc - 1" using True by linarith
      then have "(rank pc' - 1 + 1) * Suc B \<le> (rank pc - 1) * Suc B" by (rule mult_le_mono1)
      then have "(rank pc' - 1) * Suc B + Suc j' \<le> n" using Suc.prems(3) j'(1) by (simp add: algebra_simps)
      then show ?thesis using Suc.IH [OF c(1) j'(2)] go by simp
    next
      case stuck: False
      then have "j \<noteq> 0" using c(2) Suc.prems(2) by (metis add_0_right)
      then obtain i where "j = Suc i" by (cases j) auto
      then show ?thesis using Suc.IH [of pc "Suc k" i s'] Suc.prems stuck c(2) go by auto
    qed
  qed
qed simp

lemma run_ends:
  assumes "\<And>k. \<exists>j \<le> B. free (k + j)" and "counts pc" and "rank pc * Suc B \<le> n"
  shows "finished (fst (run n k pc s))"
proof (cases "finished pc")
  case False
  obtain j where j: "j \<le> B" "free (k + j)" using assms(1) by blast
  have "0 < rank pc" using rank_pos [OF assms(2) False j(2)] .
  then have "(rank pc - 1) * Suc B + Suc B = rank pc * Suc B" by (cases "rank pc") simp_all
  then have "(rank pc - 1) * Suc B + Suc j \<le> n" using assms(3) j(1) by linarith
  then show ?thesis by (rule run_ends_from [OF assms(1,2) j(2)])
qed (simp add: run_finished)

end

section \<open>Cells that are written once\<close>

text \<open>
  A sequence of calls of one operation that reads and updates a state, each with an argument
  of its own; the answers are in order.
\<close>

fun calls :: "('e \<Rightarrow> 's \<Rightarrow> 'v \<times> 's) \<Rightarrow> 'e list \<Rightarrow> 's \<Rightarrow> 'v list \<times> 's" where
  "calls f [] s = ([], s)"
| "calls f (e # es) s =
     (let (v, s1) = f e s; (vs, s2) = calls f es s1 in (v # vs, s2))"

text \<open>
  A value that is computed at the first use and then kept (\<^verbatim>\<open>OnceLock\<close>, and flags that play
  its role): \<open>look\<close> reads the cell, \<open>call\<close> is the operation that fills it. Whatever the
  surroundings \<open>e\<close> of later calls are, the first one decides.
\<close>

locale once_cell =
  fixes look :: "'s \<Rightarrow> 'v option" and call :: "'e \<Rightarrow> 's \<Rightarrow> 'v \<times> 's"
  assumes hit: "look s = Some v \<Longrightarrow> call e s = (v, s)"
    and miss: "look s = None \<Longrightarrow> look (snd (call e s)) = Some (fst (call e s))"
begin

lemma filled: "look (snd (call e s)) = Some (fst (call e s))"
  by (cases "look s") (auto simp: miss hit)

lemma calls_filled: "look s = Some v \<Longrightarrow> calls call es s = (replicate (length es) v, s)"
  by (induction es) (simp_all add: hit)

lemma first_call_decides:
  "calls call (e # es) s = (replicate (Suc (length es)) (fst (call e s)), snd (call e s))"
  using calls_filled [OF filled] by (simp add: case_prod_unfold Let_def)

end

end
