(* ===== verification/Elf.thy ===== *)
theory Elf
  imports Prelude
begin

text \<open>
  The ELF64 parser of \<^verbatim>\<open>src/src/elf.rs\<close>: constants, the packed structures, the bounds-checked
  read and the functions that extract headers, interpreter path, dynamic entries,
  relocations and the address span of the loadable segments. Data are byte lists, offsets
  64-bit words with wrapping arithmetic. The locale \<open>packed_layout\<close> is the contract of a
  packed little-endian structure; every structure of the file is an interpretation of it.
\<close>

section \<open>Constants\<close>

definition ELFMAG :: "u8 list" where [simp]: "ELFMAG = [0x7f, 0x45, 0x4c, 0x46]"
definition ELFCLASS64 :: u8 where [simp]: "ELFCLASS64 = 2"
definition ELFDATA2LSB :: u8 where [simp]: "ELFDATA2LSB = 1"
definition ET_DYN :: u16 where [simp]: "ET_DYN = 3"
definition EM_AARCH64 :: u16 where [simp]: "EM_AARCH64 = 183"
definition PT_LOAD :: u32 where [simp]: "PT_LOAD = 1"
definition PT_DYNAMIC :: u32 where [simp]: "PT_DYNAMIC = 2"
definition PT_INTERP :: u32 where [simp]: "PT_INTERP = 3"
definition PF_X :: u32 where [simp]: "PF_X = 1"
definition PF_W :: u32 where [simp]: "PF_W = 2"
definition PF_R :: u32 where [simp]: "PF_R = 4"
definition DT_NULL :: u64 where [simp]: "DT_NULL = 0"
definition DT_RELA :: u64 where [simp]: "DT_RELA = 7"
definition DT_RELASZ :: u64 where [simp]: "DT_RELASZ = 8"
definition R_AARCH64_RELATIVE :: u32 where [simp]: "R_AARCH64_RELATIVE = 0x403"
definition R_AARCH64_GLOB_DAT :: u32 where [simp]: "R_AARCH64_GLOB_DAT = 0x401"
definition R_AARCH64_JUMP_SLOT :: u32 where [simp]: "R_AARCH64_JUMP_SLOT = 0x402"

section \<open>Structures\<close>

record Ehdr =
  e_ident :: "u8 list"
  e_type :: u16
  e_machine :: u16
  e_version :: u32
  e_entry :: u64
  e_phoff :: u64
  e_shoff :: u64
  e_flags :: u32
  e_ehsize :: u16
  e_phentsize :: u16
  e_phnum :: u16
  e_shentsize :: u16
  e_shnum :: u16
  e_shstrndx :: u16

record Phdr =
  p_type :: u32
  p_flags :: u32
  p_offset :: u64
  p_vaddr :: u64
  p_paddr :: u64
  p_filesz :: u64
  p_memsz :: u64
  p_align :: u64

record Dyn =
  d_tag :: u64
  d_val :: u64

record Rela =
  r_offset :: u64
  r_info :: u64
  r_addend :: u64

record Sym =
  st_name :: u32
  st_info :: u8
  st_other :: u8
  st_shndx :: u16
  st_value :: u64
  st_size :: u64

text \<open>The error strings of the parser, by their cause.\<close>

datatype elf_error =
    OffsetOverflow
  | ReadExceeds usize nat nat
  | TooSmall
  | BadMagic
  | Not64Bit
  | NotLittleEndian
  | NotAarch64 u16
  | NotPie u16
  | InterpBeyondFile
  | DynamicBeyondFile

section \<open>Reading packed structures\<close>

text \<open>Little-endian integers: \<open>field n o bs\<close> is the \<open>n\<close>-byte integer at offset \<open>o\<close>.\<close>

fun le_nat :: "u8 list \<Rightarrow> nat" where
  "le_nat [] = 0"
| "le_nat (b # bs) = unat b + 256 * le_nat bs"

definition field :: "nat \<Rightarrow> nat \<Rightarrow> u8 list \<Rightarrow> 'a::len word" where
  "field n off bs = word_of_nat (le_nat (take n (drop off bs)))"

definition dec_ehdr :: "u8 list \<Rightarrow> Ehdr" where
  "dec_ehdr bs =
     \<lparr>e_ident = take 16 bs, e_type = field 2 16 bs, e_machine = field 2 18 bs,
      e_version = field 4 20 bs, e_entry = field 8 24 bs, e_phoff = field 8 32 bs,
      e_shoff = field 8 40 bs, e_flags = field 4 48 bs, e_ehsize = field 2 52 bs,
      e_phentsize = field 2 54 bs, e_phnum = field 2 56 bs, e_shentsize = field 2 58 bs,
      e_shnum = field 2 60 bs, e_shstrndx = field 2 62 bs\<rparr>"

definition dec_phdr :: "u8 list \<Rightarrow> Phdr" where
  "dec_phdr bs =
     \<lparr>p_type = field 4 0 bs, p_flags = field 4 4 bs, p_offset = field 8 8 bs,
      p_vaddr = field 8 16 bs, p_paddr = field 8 24 bs, p_filesz = field 8 32 bs,
      p_memsz = field 8 40 bs, p_align = field 8 48 bs\<rparr>"

definition dec_dyn :: "u8 list \<Rightarrow> Dyn" where
  "dec_dyn bs = \<lparr>d_tag = field 8 0 bs, d_val = field 8 8 bs\<rparr>"

definition dec_rela :: "u8 list \<Rightarrow> Rela" where
  "dec_rela bs = \<lparr>r_offset = field 8 0 bs, r_info = field 8 8 bs, r_addend = field 8 16 bs\<rparr>"

definition dec_sym :: "u8 list \<Rightarrow> Sym" where
  "dec_sym bs =
     \<lparr>st_name = field 4 0 bs, st_info = field 1 4 bs, st_other = field 1 5 bs,
      st_shndx = field 2 6 bs, st_value = field 8 8 bs, st_size = field 8 16 bs\<rparr>"

definition read_at :: "nat \<Rightarrow> (u8 list \<Rightarrow> 'a) \<Rightarrow> u8 list \<Rightarrow> usize \<Rightarrow> (elf_error, 'a) rres" where
  "read_at sz dec data offset =
     (let e = unat offset + sz
      in if 2 ^ 64 \<le> e then Err OffsetOverflow
         else if length data < e then Err (ReadExceeds offset sz (length data))
         else Ok (dec (take sz (drop (unat offset) data))))"

definition read_ehdr :: "u8 list \<Rightarrow> usize \<Rightarrow> (elf_error, Ehdr) rres" where
  "read_ehdr = read_at 64 dec_ehdr"

definition read_phdr :: "u8 list \<Rightarrow> usize \<Rightarrow> (elf_error, Phdr) rres" where
  "read_phdr = read_at 56 dec_phdr"

definition read_dyn :: "u8 list \<Rightarrow> usize \<Rightarrow> (elf_error, Dyn) rres" where
  "read_dyn = read_at 16 dec_dyn"

definition read_rela :: "u8 list \<Rightarrow> usize \<Rightarrow> (elf_error, Rela) rres" where
  "read_rela = read_at 24 dec_rela"

definition read_sym :: "u8 list \<Rightarrow> usize \<Rightarrow> (elf_error, Sym) rres" where
  "read_sym = read_at 24 dec_sym"

section \<open>The parser\<close>

definition parse_header :: "u8 list \<Rightarrow> (elf_error, Ehdr) rres" where
  "parse_header data =
     (if length data < 64 then Err TooSmall
      else rbind (read_ehdr data 0) (\<lambda>hdr.
        if take 4 (e_ident hdr) \<noteq> ELFMAG then Err BadMagic
        else if e_ident hdr ! 4 \<noteq> ELFCLASS64 then Err Not64Bit
        else if e_ident hdr ! 5 \<noteq> ELFDATA2LSB then Err NotLittleEndian
        else if e_machine hdr \<noteq> EM_AARCH64 then Err (NotAarch64 (e_machine hdr))
        else Ok hdr))"

definition validate_pie :: "Ehdr \<Rightarrow> (elf_error, unit) rres" where
  "validate_pie hdr = (if e_type hdr \<noteq> ET_DYN then Err (NotPie (e_type hdr)) else Ok ())"

text \<open>The loop that reads \<open>n\<close> entries from index \<open>i\<close> of a table, stopping at the first error.\<close>

fun read_entries ::
  "(usize \<Rightarrow> (elf_error, 'a) rres) \<Rightarrow> usize \<Rightarrow> usize \<Rightarrow> nat \<Rightarrow> nat \<Rightarrow> (elf_error, 'a list) rres" where
  "read_entries rd base entsize i 0 = Ok []"
| "read_entries rd base entsize i (Suc n) =
     rbind (rd (base + of_nat i * entsize)) (\<lambda>x.
     rbind (read_entries rd base entsize (Suc i) n) (\<lambda>xs. Ok (x # xs)))"

definition program_headers :: "u8 list \<Rightarrow> Ehdr \<Rightarrow> (elf_error, Phdr list) rres" where
  "program_headers data hdr =
     (let count = unat (e_phnum hdr); entsize = ucast (e_phentsize hdr); base = e_phoff hdr
      in if count = 0 then Ok []
         else read_entries (read_phdr data) base entsize 0 count)"

text \<open>
  \<^verbatim>\<open>String::from_utf8_lossy\<close>: valid UTF-8 is kept, each maximal invalid piece becomes the
  replacement character. \<open>utf8_step\<close> gives whether the next piece is valid and its length.
\<close>

definition safe_get :: "u8 list \<Rightarrow> nat \<Rightarrow> u8" where
  "safe_get bs i = (if i < length bs then bs ! i else 0)"

definition is_cont :: "u8 \<Rightarrow> bool" where
  "is_cont b \<longleftrightarrow> 0x80 \<le> b \<and> b \<le> 0xBF"

definition second_ok :: "u8 \<Rightarrow> u8 \<Rightarrow> bool" where
  "second_ok a b \<longleftrightarrow>
     (if a = 0xE0 then 0xA0 \<le> b \<and> b \<le> 0xBF
      else if a = 0xED then 0x80 \<le> b \<and> b \<le> 0x9F
      else if a = 0xF0 then 0x90 \<le> b \<and> b \<le> 0xBF
      else if a = 0xF4 then 0x80 \<le> b \<and> b \<le> 0x8F
      else is_cont b)"

definition utf8_step :: "u8 list \<Rightarrow> bool \<times> nat" where
  "utf8_step bs =
     (let a = safe_get bs 0; b = safe_get bs 1; c = safe_get bs 2; d = safe_get bs 3
      in if a < 0x80 then (True, 1)
         else if 0xC2 \<le> a \<and> a \<le> 0xDF then (if is_cont b then (True, 2) else (False, 1))
         else if 0xE0 \<le> a \<and> a \<le> 0xEF then
           (if \<not> second_ok a b then (False, 1) else if \<not> is_cont c then (False, 2) else (True, 3))
         else if 0xF0 \<le> a \<and> a \<le> 0xF4 then
           (if \<not> second_ok a b then (False, 1) else if \<not> is_cont c then (False, 2)
            else if \<not> is_cont d then (False, 3) else (True, 4))
         else (False, 1))"

lemma utf8_step_pos: "0 < snd (utf8_step bs)"
  by (simp add: utf8_step_def Let_def)

function utf8_lossy :: "u8 list \<Rightarrow> u8 list" where
  "utf8_lossy bs =
     (if bs = [] then []
      else (if fst (utf8_step bs) then take (snd (utf8_step bs)) bs else [0xEF, 0xBF, 0xBD]) @
           utf8_lossy (drop (snd (utf8_step bs)) bs))"
  by pat_completeness auto
termination
  by (relation "measure length") (auto simp: utf8_step_pos)

declare utf8_lossy.simps [simp del]

text \<open>
  \<^verbatim>\<open>&data[start..start + len]\<close> panics when the end, which wraps, lies before the start.
\<close>

definition cstr_in :: "u8 list \<Rightarrow> usize \<Rightarrow> usize \<Rightarrow> (elf_error, u8 list) rres" where
  "cstr_in data start n =
     (if length data < unat (start + n) then Err InterpBeyondFile
      else if start + n < start then Panic
      else Ok (utf8_lossy (takeWhile (\<lambda>b. b \<noteq> 0) (take (unat n) (drop (unat start) data)))))"

fun interpreter_path :: "u8 list \<Rightarrow> Phdr list \<Rightarrow> (elf_error, u8 list option) rres" where
  "interpreter_path data [] = Ok None"
| "interpreter_path data (phdr # phdrs) =
     (if p_type phdr = PT_INTERP
      then rbind (cstr_in data (p_offset phdr) (p_filesz phdr)) (\<lambda>s. Ok (Some s))
      else interpreter_path data phdrs)"

definition load_segments :: "Phdr list \<Rightarrow> Phdr list" where
  "load_segments phdrs = filter (\<lambda>p. p_type p = PT_LOAD) phdrs"

text \<open>\<^verbatim>\<open>Vec::with_capacity\<close> panics above \<^verbatim>\<open>isize::MAX\<close> bytes.\<close>

definition capacity_ok :: "nat \<Rightarrow> nat \<Rightarrow> bool" where
  "capacity_ok sz n \<longleftrightarrow> sz * n < 2 ^ 63"

fun dyn_loop :: "u8 list \<Rightarrow> usize \<Rightarrow> nat \<Rightarrow> nat \<Rightarrow> (elf_error, Dyn list) rres" where
  "dyn_loop data start i 0 = Ok []"
| "dyn_loop data start i (Suc n) =
     rbind (read_dyn data (start + of_nat i * 16)) (\<lambda>entry.
     if d_tag entry = DT_NULL then Ok []
     else rbind (dyn_loop data start (Suc i) n) (\<lambda>es. Ok (entry # es)))"

fun dynamic_entries :: "u8 list \<Rightarrow> Phdr list \<Rightarrow> (elf_error, Dyn list) rres" where
  "dynamic_entries data [] = Ok []"
| "dynamic_entries data (phdr # phdrs) =
     (if p_type phdr = PT_DYNAMIC
      then (let start = p_offset phdr; sz = p_filesz phdr; count = unat sz div 16
            in if length data < unat (start + sz) then Err DynamicBeyondFile
               else if \<not> capacity_ok 16 count then Panic
               else dyn_loop data start 0 count)
      else dynamic_entries data phdrs)"

text \<open>The scan for the relocation table: a later entry with the same tag wins.\<close>

definition rela_scan :: "Dyn list \<Rightarrow> u64 \<times> u64" where
  "rela_scan dyns =
     fold (\<lambda>d (off, sz). if d_tag d = DT_RELA then (d_val d, sz)
                         else if d_tag d = DT_RELASZ then (off, d_val d) else (off, sz)) dyns (0, 0)"

definition rela_entries_from_dynamic :: "u8 list \<Rightarrow> Dyn list \<Rightarrow> (elf_error, Rela list) rres" where
  "rela_entries_from_dynamic data dyns =
     (let (rela_offset, rela_size) = rela_scan dyns; count = unat rela_size div 24
      in if rela_size = 0 then Ok []
         else if \<not> capacity_ok 24 count then Panic
         else read_entries (read_rela data) rela_offset 24 0 count)"

definition rela_type :: "u64 \<Rightarrow> u32" where
  "rela_type info = ucast (and info 0xffffffff)"

definition rela_sym :: "u64 \<Rightarrow> u32" where
  "rela_sym info = ucast (drop_bit 32 info)"

definition load_span :: "Phdr list \<Rightarrow> u64 \<times> u64" where
  "load_span phdrs =
     (case load_segments phdrs of
        [] \<Rightarrow> (0, 0)
      | l # ls \<Rightarrow>
          (let min_vaddr = fold (\<lambda>p m. min m (p_vaddr p)) ls (p_vaddr l);
               max_vaddr = fold (\<lambda>p m. max m (p_vaddr p + p_memsz p)) ls (p_vaddr l + p_memsz l)
           in (min_vaddr, max_vaddr - min_vaddr)))"

end
