(* ===== verification/Elf_Laws.thy ===== *)
theory Elf_Laws
  imports Elf
begin

text \<open>
  Properties of the ELF parser: the decoders invert the packed little-endian layout, a
  header is accepted exactly when its identification is right, tables are read back
  exactly as they are laid out in the file and never beyond its end, and the span of the
  loadable segments covers each of them.
\<close>

section \<open>Little-endian integers\<close>

fun le_bytes :: "nat \<Rightarrow> nat \<Rightarrow> u8 list" where
  "le_bytes 0 x = []"
| "le_bytes (Suc n) x = word_of_nat x # le_bytes n (x div 256)"

lemma length_le_bytes [simp]: "length (le_bytes n x) = n"
  by (induction n arbitrary: x) auto

lemma le_nat_le_bytes: "le_nat (le_bytes n x) = x mod 256 ^ n"
proof (induction n arbitrary: x)
  case (Suc n)
  have "unat (word_of_nat x :: u8) = x mod 256" by (simp add: unat_of_nat)
  then show ?case using Suc by (simp add: mod_mult2_eq)
qed simp

lemma le_bytes_le_nat: "le_bytes (length bs) (le_nat bs) = bs"
proof (induction bs)
  case (Cons b bs)
  have "unat b < 256" using unsigned_less [of b] by simp
  then have "(unat b + 256 * le_nat bs) div 256 = le_nat bs" by simp
  moreover have "word_of_nat (unat b + 256 * le_nat bs) = b"
  proof -
    have "unat (word_of_nat (unat b + 256 * le_nat bs) :: u8) = unat b"
      using \<open>unat b < 256\<close> by (simp add: unat_of_nat del: of_nat_add)
    then show ?thesis by (rule unsigned_word_eqI)
  qed
  ultimately show ?case using Cons by simp
qed simp

lemma le_nat_bound: "le_nat bs < 256 ^ length bs"
proof (induction bs)
  case (Cons b bs)
  have "unat b < 256" using unsigned_less [of b] by simp
  then show ?case using Cons by simp
qed simp

definition put :: "nat \<Rightarrow> 'a::len word \<Rightarrow> u8 list" where
  "put n w = le_bytes n (unat w)"

lemma length_put [simp]: "length (put n w) = n"
  by (simp add: put_def)

lemma field_put:
  fixes w :: "'a::len word"
  assumes "LENGTH('a) = 8 * n" and "take n (drop off bs) = put n w"
  shows "field n off bs = w"
proof -
  have "unat w < 256 ^ n" using unsigned_less [of w] assms(1) by (simp add: power_mult)
  then show ?thesis using assms(2) by (simp add: field_def put_def le_nat_le_bytes)
qed

lemma put_field:
  assumes "LENGTH('a::len) = 8 * n" and "off + n \<le> length bs"
  shows "put n (field n off bs :: 'a word) = take n (drop off bs)"
proof -
  let ?bs = "take n (drop off bs)"
  have len: "length ?bs = n" using assms(2) by simp
  have "le_nat ?bs < 2 ^ LENGTH('a)"
    using le_nat_bound [of ?bs] assms(1) by (simp only: len power_mult) simp
  then have "unat (word_of_nat (le_nat ?bs) :: 'a word) = le_nat ?bs"
    by (simp add: unat_of_nat)
  then show ?thesis using le_bytes_le_nat [of ?bs] len by (simp add: put_def field_def)
qed

section \<open>Packed structures\<close>

text \<open>
  The contract of a packed structure: a fixed size, and a decoder and an encoder that
  invert each other. The parser's reads of such a structure then give back what the file
  holds, at any offset and for whole tables.
\<close>

locale packed_layout =
  fixes sz :: nat and dec :: "u8 list \<Rightarrow> 'a" and enc :: "'a \<Rightarrow> u8 list" and wf :: "'a \<Rightarrow> bool"
  assumes len_enc: "wf x \<Longrightarrow> length (enc x) = sz"
    and dec_enc: "wf x \<Longrightarrow> dec (enc x) = x"
    and enc_dec: "length bs = sz \<Longrightarrow> wf (dec bs) \<and> enc (dec bs) = bs"
begin

lemma read_at_Ok_iff:
  assumes "length data < 2 ^ 64"
  shows "read_at sz dec data off = Ok x \<longleftrightarrow>
    unat off + sz \<le> length data \<and> wf x \<and> take sz (drop (unat off) data) = enc x"
proof (cases "unat off + sz \<le> length data")
  case True
  then have "length (take sz (drop (unat off) data)) = sz" by simp
  then show ?thesis using True assms enc_dec dec_enc by (auto simp: read_at_def Let_def)
qed (auto simp: read_at_def Let_def)

lemma read_at_enc:
  assumes "length (pre @ enc x @ post) < 2 ^ 64" and "wf x" and "unat off = length pre"
  shows "read_at sz dec (pre @ enc x @ post) off = Ok x"
  using assms len_enc [OF assms(2)] by (simp add: read_at_Ok_iff)

lemma read_at_no_panic: "read_at sz dec data off \<noteq> Panic"
  by (simp add: read_at_def Let_def)

lemma length_concat_enc: "\<forall>x \<in> set xs. wf x \<Longrightarrow> length (concat (map enc xs)) = sz * length xs"
  by (induction xs) (auto simp: len_enc)

lemma read_entries_enc:
  assumes "length data < 2 ^ 64" and "data = pre @ concat (map enc xs) @ post" and "\<forall>x \<in> set xs. wf x"
    and "unat base + sz * i = length pre" and "ent = of_nat sz"
  shows "read_entries (read_at sz dec data) base ent i (length xs) = Ok xs"
  using assms
proof (induction xs arbitrary: i pre)
  case (Cons x xs)
  have "sz * i < 2 ^ 64" "unat base + sz * i < 2 ^ 64"
    using Cons.prems(1,2,4) by (simp_all add: len_enc)
  then have "unat (base + of_nat i * ent) = length pre"
    using Cons.prems(4) by (simp add: Cons.prems(5) unat_word_ariths unat_of_nat mult.commute mod_simps)
  then have "read_at sz dec data (base + of_nat i * ent) = Ok x"
    using read_at_enc [of pre x "concat (map enc xs) @ post"] Cons.prems(1-3) by simp
  moreover have "read_entries (read_at sz dec data) base ent (Suc i) (length xs) = Ok xs"
    using Cons.prems by (intro Cons.IH [of "pre @ enc x"]) (auto simp: len_enc)
  ultimately show ?case by simp
qed simp

lemma read_entries_sound:
  assumes "length data < 2 ^ 64" and "read_entries (read_at sz dec data) base ent i n = Ok xs"
  shows "length xs = n \<and> (\<forall>j < n. unat (base + of_nat (i + j) * ent) + sz \<le> length data \<and>
    xs ! j = dec (take sz (drop (unat (base + of_nat (i + j) * ent)) data)))"
  using assms(2)
proof (induction n arbitrary: i xs)
  case (Suc n)
  then obtain x ys where x: "read_at sz dec data (base + of_nat i * ent) = Ok x" "xs = x # ys"
    and ys: "read_entries (read_at sz dec data) base ent (Suc i) n = Ok ys" by auto
  have "unat (base + of_nat i * ent) + sz \<le> length data"
    "x = dec (take sz (drop (unat (base + of_nat i * ent)) data))"
    using x(1) by (auto simp: read_at_def Let_def split: if_splits)
  then show ?case
    using Suc.IH [OF ys] x(2) by (auto simp: nth_Cons less_Suc_eq_0_disj ac_simps split: nat.split)
qed simp

lemma read_entries_no_panic: "read_entries (read_at sz dec data) base ent i n \<noteq> Panic"
  by (induction n arbitrary: i) (auto simp: rbind_eq_Panic read_at_no_panic)

end

definition enc_ehdr :: "Ehdr \<Rightarrow> u8 list" where
  "enc_ehdr h = e_ident h @ put 2 (e_type h) @ put 2 (e_machine h) @ put 4 (e_version h) @
     put 8 (e_entry h) @ put 8 (e_phoff h) @ put 8 (e_shoff h) @ put 4 (e_flags h) @
     put 2 (e_ehsize h) @ put 2 (e_phentsize h) @ put 2 (e_phnum h) @ put 2 (e_shentsize h) @
     put 2 (e_shnum h) @ put 2 (e_shstrndx h)"

definition enc_phdr :: "Phdr \<Rightarrow> u8 list" where
  "enc_phdr p = put 4 (p_type p) @ put 4 (p_flags p) @ put 8 (p_offset p) @ put 8 (p_vaddr p) @
     put 8 (p_paddr p) @ put 8 (p_filesz p) @ put 8 (p_memsz p) @ put 8 (p_align p)"

definition enc_dyn :: "Dyn \<Rightarrow> u8 list" where
  "enc_dyn d = put 8 (d_tag d) @ put 8 (d_val d)"

definition enc_rela :: "Rela \<Rightarrow> u8 list" where
  "enc_rela r = put 8 (r_offset r) @ put 8 (r_info r) @ put 8 (r_addend r)"

definition enc_sym :: "Sym \<Rightarrow> u8 list" where
  "enc_sym s = put 4 (st_name s) @ put 1 (st_info s) @ put 1 (st_other s) @ put 2 (st_shndx s) @
     put 8 (st_value s) @ put 8 (st_size s)"

definition ident_ok :: "Ehdr \<Rightarrow> bool" where
  "ident_ok h \<longleftrightarrow> length (e_ident h) = 16"

lemma take_drop_join: "k = m + n \<Longrightarrow> take n (drop m bs) @ drop k bs = drop m bs"
  by (metis append_take_drop_id drop_drop add.commute)

lemma take_drop_all: "length bs = m + n \<Longrightarrow> take n (drop m bs) = drop m bs"
  by simp

interpretation ehdr: packed_layout 64 dec_ehdr enc_ehdr ident_ok
proof unfold_locales
  fix h
  assume "ident_ok h"
  then show "dec_ehdr (enc_ehdr h) = h"
    by (simp add: dec_ehdr_def enc_ehdr_def ident_ok_def field_put)
next
  fix bs :: "u8 list"
  assume len: "length bs = 64"
  show "ident_ok (dec_ehdr bs) \<and> enc_ehdr (dec_ehdr bs) = bs"
    using len by (simp add: dec_ehdr_def enc_ehdr_def ident_ok_def put_field take_drop_join
        take_drop_join [where m = 0, simplified])
qed (simp add: enc_ehdr_def ident_ok_def)

interpretation phdr: packed_layout 56 dec_phdr enc_phdr "\<lambda>_. True"
proof unfold_locales
  fix bs :: "u8 list"
  assume len: "length bs = 56"
  show "True \<and> enc_phdr (dec_phdr bs) = bs"
    using len by (simp add: dec_phdr_def enc_phdr_def put_field take_drop_join
        take_drop_join [where m = 0, simplified])
qed (simp_all add: enc_phdr_def dec_phdr_def field_put)

interpretation dynent: packed_layout 16 dec_dyn enc_dyn "\<lambda>_. True"
proof unfold_locales
  fix bs :: "u8 list"
  assume len: "length bs = 16"
  show "True \<and> enc_dyn (dec_dyn bs) = bs"
    using len by (simp add: dec_dyn_def enc_dyn_def put_field take_drop_join
        take_drop_join [where m = 0, simplified])
qed (simp_all add: enc_dyn_def dec_dyn_def field_put)

interpretation rela: packed_layout 24 dec_rela enc_rela "\<lambda>_. True"
proof unfold_locales
  fix bs :: "u8 list"
  assume len: "length bs = 24"
  show "True \<and> enc_rela (dec_rela bs) = bs"
    using len by (simp add: dec_rela_def enc_rela_def put_field take_drop_join
        take_drop_join [where m = 0, simplified])
qed (simp_all add: enc_rela_def dec_rela_def field_put)

interpretation sym: packed_layout 24 dec_sym enc_sym "\<lambda>_. True"
proof unfold_locales
  fix bs :: "u8 list"
  assume len: "length bs = 24"
  show "True \<and> enc_sym (dec_sym bs) = bs"
    using len by (simp add: dec_sym_def enc_sym_def put_field take_drop_join
        take_drop_join [where m = 0, simplified])
qed (simp_all add: enc_sym_def dec_sym_def field_put)

section \<open>Headers and tables\<close>

text \<open>
  C20. The header is accepted exactly when the file holds at least the 64 bytes of a
  little-endian 64-bit aarch64 ELF header, the result is the structure those bytes encode,
  and no input makes the parser panic.
\<close>

theorem parse_header_accepts_iff:
  "(parse_header data = Ok h \<longleftrightarrow>
      64 \<le> length data \<and> ident_ok h \<and> take 64 data = enc_ehdr h \<and>
      take 4 (e_ident h) = [0x7f, 0x45, 0x4c, 0x46] \<and> e_ident h ! 4 = 2 \<and> e_ident h ! 5 = 1 \<and>
      e_machine h = 183) \<and>
   parse_header data \<noteq> Panic"
proof (cases "64 \<le> length data")
  case True
  then have "read_ehdr data 0 = Ok (dec_ehdr (take 64 data))" by (simp add: read_ehdr_def read_at_def)
  moreover have "dec_ehdr (take 64 data) = h \<longleftrightarrow> ident_ok h \<and> take 64 data = enc_ehdr h"
    using ehdr.enc_dec [of "take 64 data"] ehdr.dec_enc [of h] True by auto
  ultimately show ?thesis using True by (auto simp: parse_header_def)
qed (simp add: parse_header_def)

text \<open>
  C21. Program headers: a table laid out in the file at the header's offset, with the entry
  size of the structure, is returned exactly.
\<close>

theorem program_headers_roundtrip:
  assumes "data = pre @ concat (map enc_phdr phs) @ post" and "length data < 2 ^ 64"
    and "unat (e_phoff h) = length pre" and "unat (e_phnum h) = length phs" and "e_phentsize h = 56"
  shows "program_headers data h = Ok phs"
proof -
  have "read_entries (read_at 56 dec_phdr data) (e_phoff h) 56 0 (length phs) = Ok phs"
    using assms by (intro phdr.read_entries_enc) simp_all
  then show ?thesis
    using assms(4,5) by (auto simp: program_headers_def Let_def read_phdr_def)
qed

definition sample_phdr :: Phdr where
  "sample_phdr = \<lparr>p_type = 1, p_flags = 5, p_offset = 0, p_vaddr = 4096, p_paddr = 4096,
     p_filesz = 256, p_memsz = 512, p_align = 4096\<rparr>"

definition sample_ehdr :: Ehdr where
  "sample_ehdr = \<lparr>e_ident = [0x7f, 0x45, 0x4c, 0x46, 2, 1, 1] @ replicate 9 0, e_type = 3,
     e_machine = 183, e_version = 1, e_entry = 0, e_phoff = 64, e_shoff = 0, e_flags = 0,
     e_ehsize = 64, e_phentsize = 56, e_phnum = 1, e_shentsize = 0, e_shnum = 0, e_shstrndx = 0\<rparr>"

lemma ident_ok_sample [simp]: "ident_ok sample_ehdr"
  by (simp add: ident_ok_def sample_ehdr_def)

theorem program_headers_roundtrip_witness:
  "program_headers (enc_ehdr sample_ehdr @ enc_phdr sample_phdr) sample_ehdr = Ok [sample_phdr]"
proof -
  have "length (enc_ehdr sample_ehdr) = 64" by (rule ehdr.len_enc) simp
  moreover have "length (enc_phdr sample_phdr) = 56" by (rule phdr.len_enc) simp
  ultimately show ?thesis
    using program_headers_roundtrip [of _ "enc_ehdr sample_ehdr" "[sample_phdr]" "[]" sample_ehdr]
    by (simp add: sample_ehdr_def)
qed

text \<open>
  Program headers are never read beyond the file, whatever the header says: a table
  that is returned has the announced number of entries and every entry lies within the
  data, also where the offset computation wraps around; and reading never panics.
\<close>

theorem program_headers_in_bounds:
  assumes "length data < 2 ^ 64"
  shows "program_headers data h \<noteq> Panic \<and> (\<forall>phs. program_headers data h = Ok phs \<longrightarrow>
    length phs = unat (e_phnum h) \<and> (\<forall>j < length phs.
      (let off = unat (e_phoff h + of_nat j * ucast (e_phentsize h))
       in off + 56 \<le> length data \<and> enc_phdr (phs ! j) = take 56 (drop off data))))"
proof -
  have "enc_phdr (dec_phdr (take 56 (drop off data))) = take 56 (drop off data)"
    if "off + 56 \<le> length data" for off
    using phdr.enc_dec [of "take 56 (drop off data)"] that by simp
  moreover have "program_headers data h =
      read_entries (read_at 56 dec_phdr data) (e_phoff h) (ucast (e_phentsize h)) 0 (unat (e_phnum h))"
    by (auto simp: program_headers_def Let_def read_phdr_def)
  ultimately show ?thesis
    using phdr.read_entries_sound [OF assms, of "e_phoff h" "ucast (e_phentsize h)" 0 "unat (e_phnum h)"]
      phdr.read_entries_no_panic by (auto simp: Let_def)
qed

theorem program_headers_in_bounds_witness:
  "program_headers (replicate 60 1) sample_ehdr \<noteq> Panic"
  using program_headers_in_bounds [of "replicate 60 1" sample_ehdr] by simp

section \<open>Dynamic section and relocations\<close>

lemma dyn_loop_enc:
  assumes "length data < 2 ^ 64" and "data = pre @ concat (map enc_dyn ds) @ post"
    and "unat start + 16 * i = length pre"
  shows "dyn_loop data start i (length ds) = Ok (takeWhile (\<lambda>d. d_tag d \<noteq> 0) ds)"
  using assms
proof (induction ds arbitrary: i pre)
  case (Cons d ds)
  have "16 * i < 2 ^ 64" "unat start + 16 * i < 2 ^ 64"
    using Cons.prems by (simp_all add: dynent.len_enc)
  then have "unat (start + of_nat i * 16) = length pre"
    using Cons.prems(3) by (simp add: unat_word_ariths unat_of_nat mult.commute mod_simps)
  then have "read_dyn data (start + of_nat i * 16) = Ok d"
    using dynent.read_at_enc [of pre d "concat (map enc_dyn ds) @ post"] Cons.prems(1,2)
    by (simp add: read_dyn_def)
  moreover have "dyn_loop data start (Suc i) (length ds) = Ok (takeWhile (\<lambda>d. d_tag d \<noteq> 0) ds)"
    using Cons.prems by (intro Cons.IH [of "pre @ enc_dyn d"]) (auto simp: dynent.len_enc)
  ultimately show ?case by simp
qed simp

lemma dynamic_entries_skip:
  "\<forall>q \<in> set ps. p_type q \<noteq> 2 \<Longrightarrow> dynamic_entries data (ps @ qs) = dynamic_entries data qs"
  by (induction ps) auto

text \<open>
  The dynamic section: the entries of the first dynamic segment are returned in order,
  up to but not including the first null entry.
\<close>

theorem dynamic_entries_roundtrip:
  assumes "data = pre @ concat (map enc_dyn ds) @ post" and "length data < 2 ^ 63"
    and "\<forall>q \<in> set ps. p_type q \<noteq> 2" and "p_type p = 2"
    and "unat (p_offset p) = length pre" and "unat (p_filesz p) = 16 * length ds"
  shows "dynamic_entries data (ps @ p # qs) = Ok (takeWhile (\<lambda>d. d_tag d \<noteq> 0) ds)"
proof -
  have len: "length data = length pre + 16 * length ds + length post"
    by (simp add: assms(1) dynent.length_concat_enc del: length_concat)
  then have "unat (p_offset p + p_filesz p) = length pre + 16 * length ds"
    using assms(2,5,6) by (simp add: unat_word_ariths)
  moreover have "dyn_loop data (p_offset p) 0 (length ds) = Ok (takeWhile (\<lambda>d. d_tag d \<noteq> 0) ds)"
    using assms by (intro dyn_loop_enc) simp_all
  ultimately show ?thesis
    using assms len by (simp add: dynamic_entries_skip capacity_ok_def Let_def)
qed

theorem dynamic_entries_roundtrip_witness:
  "dynamic_entries (enc_dyn \<lparr>d_tag = 7, d_val = 32\<rparr> @ enc_dyn \<lparr>d_tag = 0, d_val = 0\<rparr>)
     [sample_phdr, sample_phdr\<lparr>p_type := 2, p_filesz := 32\<rparr>] = Ok [\<lparr>d_tag = 7, d_val = 32\<rparr>]"
  using dynamic_entries_roundtrip [of _ "[]" "[\<lparr>d_tag = 7, d_val = 32\<rparr>, \<lparr>d_tag = 0, d_val = 0\<rparr>]" "[]"
      "[sample_phdr]" "sample_phdr\<lparr>p_type := 2, p_filesz := 32\<rparr>" "[]"]
  by (simp add: sample_phdr_def dynent.len_enc)

lemma rela_scan_snoc:
  "rela_scan (ds @ [d]) =
     (if d_tag d = 7 then d_val d else fst (rela_scan ds),
      if d_tag d = 8 then d_val d else snd (rela_scan ds))"
  by (simp add: rela_scan_def case_prod_beta)

lemma rela_scan_last:
  "rela_scan ds =
     (if filter (\<lambda>d. d_tag d = 7) ds = [] then 0 else d_val (last (filter (\<lambda>d. d_tag d = 7) ds)),
      if filter (\<lambda>d. d_tag d = 8) ds = [] then 0 else d_val (last (filter (\<lambda>d. d_tag d = 8) ds)))"
proof (induction ds rule: rev_induct)
  case (snoc d ds)
  then show ?case by (cases "d_tag d = 7"; cases "d_tag d = 8") (simp_all add: rela_scan_snoc)
qed (simp add: rela_scan_def)

text \<open>
  Relocations: when the dynamic entries announce a table of relocations that lies in the
  file, exactly its entries are returned in order, and each relocation's information word
  is its symbol index and its type.
\<close>

theorem rela_entries_roundtrip:
  assumes "data = pre @ concat (map enc_rela rs) @ post" and "length data < 2 ^ 63"
    and "filter (\<lambda>d. d_tag d = 7) ds = [\<lparr>d_tag = 7, d_val = of_nat (length pre)\<rparr>]"
    and "filter (\<lambda>d. d_tag d = 8) ds = [\<lparr>d_tag = 8, d_val = of_nat (24 * length rs)\<rparr>]"
  shows "rela_entries_from_dynamic data ds = Ok rs \<and>
    (\<forall>r. or (push_bit 32 (ucast (rela_sym (r_info r)))) (ucast (rela_type (r_info r))) = r_info r)"
proof -
  have len: "length data = length pre + 24 * length rs + length post"
    by (simp add: assms(1) rela.length_concat_enc del: length_concat)
  have scan: "rela_scan ds = (of_nat (length pre), of_nat (24 * length rs))"
    by (simp add: rela_scan_last assms(3,4))
  have un: "unat (of_nat (24 * length rs) :: u64) = 24 * length rs"
    "unat (of_nat (length pre) :: u64) = length pre"
    using len assms(2) by (simp_all add: unat_of_nat del: of_nat_mult)
  have rd: "read_entries (read_at 24 dec_rela data) (of_nat (length pre)) 24 0 (length rs) = Ok rs"
    using assms un by (intro rela.read_entries_enc) simp_all
  have "rela_entries_from_dynamic data ds = Ok rs"
  proof (cases "rs = []")
    case False
    then have "of_nat (24 * length rs) \<noteq> (0 :: u64)"
      using un(1) by (metis length_0_conv mult_eq_0_iff unat_0 zero_neq_numeral)
    then show ?thesis using rd un(1) len assms(2)
      by (simp add: rela_entries_from_dynamic_def scan capacity_ok_def read_rela_def Let_def del: of_nat_mult)
  qed (simp add: rela_entries_from_dynamic_def scan)
  moreover have "or (push_bit 32 (ucast (rela_sym i))) (ucast (rela_type i)) = i" for i
  proof -
    have "rela_type i = ucast (take_bit 32 i)"
      by (simp add: rela_type_def take_bit_eq_mask mask_eq_exp_minus_1)
    then show ?thesis by (intro bit_eqI) (auto simp: rela_sym_def bit_simps)
  qed
  ultimately show ?thesis by blast
qed

theorem rela_entries_roundtrip_witness:
  "rela_entries_from_dynamic (enc_rela \<lparr>r_offset = 16, r_info = 0x403, r_addend = 5\<rparr>)
     [\<lparr>d_tag = 7, d_val = 0\<rparr>, \<lparr>d_tag = 8, d_val = 24\<rparr>] = Ok [\<lparr>r_offset = 16, r_info = 0x403, r_addend = 5\<rparr>]"
  using conjunct1 [OF rela_entries_roundtrip [of _ "[]" "[\<lparr>r_offset = 16, r_info = 0x403, r_addend = 5\<rparr>]" "[]"
      "[\<lparr>d_tag = 7, d_val = 0\<rparr>, \<lparr>d_tag = 8, d_val = 24\<rparr>]"]]
  by (simp add: rela.len_enc)

section \<open>Segments and the interpreter\<close>

lemma fold_min_le:
  fixes f :: "'a \<Rightarrow> 'b::linorder"
  shows "fold (\<lambda>p m. min m (f p)) xs a \<le> a \<and> (\<forall>x \<in> set xs. fold (\<lambda>p m. min m (f p)) xs a \<le> f x) \<and>
    fold (\<lambda>p m. min m (f p)) xs a \<in> insert a (f ` set xs)"
proof (induction xs arbitrary: a)
  case (Cons x xs)
  show ?case using Cons.IH [of "min a (f x)"] by (auto simp: min_def split: if_splits)
qed simp

lemma fold_max_ge:
  fixes f :: "'a \<Rightarrow> 'b::linorder"
  shows "a \<le> fold (\<lambda>p m. max m (f p)) xs a \<and> (\<forall>x \<in> set xs. f x \<le> fold (\<lambda>p m. max m (f p)) xs a) \<and>
    fold (\<lambda>p m. max m (f p)) xs a \<in> insert a (f ` set xs)"
proof (induction xs arbitrary: a)
  case (Cons x xs)
  show ?case using Cons.IH [of "max a (f x)"] by (auto simp: max_def split: if_splits)
qed simp

lemma load_span_cases:
  assumes "load_segments phdrs \<noteq> []"
  shows "\<exists>lo hi. load_span phdrs = (lo, hi - lo) \<and>
    (\<forall>p \<in> set (load_segments phdrs). lo \<le> p_vaddr p \<and> p_vaddr p + p_memsz p \<le> hi) \<and>
    lo \<in> p_vaddr ` set (load_segments phdrs) \<and>
    hi \<in> (\<lambda>p. p_vaddr p + p_memsz p) ` set (load_segments phdrs)"
proof -
  obtain l ls where l: "load_segments phdrs = l # ls" using assms by (cases "load_segments phdrs") auto
  show ?thesis
    using fold_min_le [of p_vaddr ls "p_vaddr l"]
      fold_max_ge [of "p_vaddr l + p_memsz l" "\<lambda>p. p_vaddr p + p_memsz p" ls]
    unfolding load_span_def l list.case Let_def set_simps by (intro exI conjI refl) auto
qed

text \<open>
  The span to reserve covers every loadable segment from its first to its last byte and
  is the smallest that does: it starts where some segment starts and ends where some
  segment ends, as long as no segment wraps around the address space.
\<close>

theorem load_span_covers:
  assumes "load_span phdrs = (lo, span)" and "p \<in> set phdrs" and "p_type p = 1"
    and "\<forall>q \<in> set phdrs. p_type q = 1 \<longrightarrow> unat (p_vaddr q) + unat (p_memsz q) < 2 ^ 64"
  shows "unat lo \<le> unat (p_vaddr p) \<and>
    unat (p_vaddr p) + unat (p_memsz p) \<le> unat lo + unat span \<and>
    (\<exists>q \<in> set phdrs. p_type q = 1 \<and> p_vaddr q = lo) \<and>
    (\<exists>q \<in> set phdrs. p_type q = 1 \<and> unat (p_vaddr q) + unat (p_memsz q) = unat lo + unat span)"
proof -
  have segs: "set (load_segments phdrs) = {q \<in> set phdrs. p_type q = 1}" by (auto simp: load_segments_def)
  then have "load_segments phdrs \<noteq> []" using assms(2,3) by force
  then obtain hi where hi: "span = hi - lo"
      "\<forall>p \<in> set (load_segments phdrs). lo \<le> p_vaddr p \<and> p_vaddr p + p_memsz p \<le> hi"
      "lo \<in> p_vaddr ` set (load_segments phdrs)"
      "hi \<in> (\<lambda>p. p_vaddr p + p_memsz p) ` set (load_segments phdrs)"
    using load_span_cases [of phdrs] assms(1) by auto
  have ends: "unat (p_vaddr q + p_memsz q) = unat (p_vaddr q) + unat (p_memsz q)"
    if "q \<in> set (load_segments phdrs)" for q
    using that assms(4) segs by (auto simp: unat_word_ariths)
  have p: "p \<in> set (load_segments phdrs)" using assms(2,3) segs by simp
  then have le: "unat lo \<le> unat (p_vaddr p)" "unat (p_vaddr p) + unat (p_memsz p) \<le> unat hi"
    using hi(2) ends [OF p] by (auto simp: word_le_nat_alt)
  then have "unat lo + unat span = unat hi" unfolding hi(1) by (subst unat_sub) (auto simp: word_le_nat_alt)
  then show ?thesis using le hi(3,4) ends segs by (auto simp: image_iff)
qed

theorem load_span_covers_witness:
  "load_span [sample_phdr, sample_phdr\<lparr>p_type := 2\<rparr>] = (4096, 512) \<and>
   unat (p_vaddr sample_phdr) + unat (p_memsz sample_phdr) \<le> unat (4096 :: u64) + unat (512 :: u64)"
proof -
  have "load_span [sample_phdr, sample_phdr\<lparr>p_type := 2\<rparr>] = (4096, 512)"
    by (simp add: load_span_def load_segments_def sample_phdr_def)
  moreover from load_span_covers [OF this, of sample_phdr]
  have "unat (p_vaddr sample_phdr) + unat (p_memsz sample_phdr) \<le> unat (4096 :: u64) + unat (512 :: u64)"
    by (simp add: sample_phdr_def)
  ultimately show ?thesis by blast
qed

lemma utf8_lossy_ascii: "\<forall>b \<in> set bs. b < 0x80 \<Longrightarrow> utf8_lossy bs = bs"
proof (induction bs)
  case (Cons b bs)
  have "utf8_step (b # bs) = (True, 1)" using Cons.prems by (simp add: utf8_step_def safe_get_def Let_def)
  then show ?case using Cons by (subst utf8_lossy.simps) simp
qed (simp add: utf8_lossy.simps)

lemma interpreter_path_skip:
  "\<forall>q \<in> set ps. p_type q \<noteq> 3 \<Longrightarrow> interpreter_path data (ps @ qs) = interpreter_path data qs"
  by (induction ps) auto

text \<open>
  The interpreter path is the null-terminated string that the first interpreter segment
  holds.
\<close>

theorem interpreter_path_roundtrip:
  assumes "data = pre @ path @ 0 # post" and "\<forall>b \<in> set path. 0 < b \<and> b < 0x80"
    and "length data < 2 ^ 63" and "\<forall>q \<in> set ps. p_type q \<noteq> 3" and "p_type p = 3"
    and "unat (p_offset p) = length pre" and "length path < unat (p_filesz p)"
    and "unat (p_offset p) + unat (p_filesz p) \<le> length data"
  shows "interpreter_path data (ps @ p # qs) = Ok (Some path)"
proof -
  have un: "unat (p_offset p + p_filesz p) = unat (p_offset p) + unat (p_filesz p)"
    using assms(3,8) by (simp add: unat_word_ariths)
  have "take (unat (p_filesz p)) (drop (unat (p_offset p)) data) =
      path @ 0 # take (unat (p_filesz p) - Suc (length path)) post"
    using assms(1,6,7) by (cases "unat (p_filesz p) - length path") (auto simp: diff_Suc)
  moreover have "takeWhile (\<lambda>b. b \<noteq> 0) (path @ 0 # xs) = path" for xs
    using assms(2) by (subst takeWhile_append2) auto
  ultimately have "cstr_in data (p_offset p) (p_filesz p) = Ok path"
    using un assms(2,8) by (simp add: cstr_in_def word_less_nat_alt utf8_lossy_ascii)
  then show ?thesis using assms(4,5) by (simp add: interpreter_path_skip)
qed

theorem interpreter_path_roundtrip_witness:
  "interpreter_path [9, 47, 108, 0, 7] [sample_phdr, sample_phdr\<lparr>p_type := 3, p_offset := 1, p_filesz := 3\<rparr>]
   = Ok (Some [47, 108])"
  using interpreter_path_roundtrip [of _ "[9]" "[47, 108]" "[7]" "[sample_phdr]"
      "sample_phdr\<lparr>p_type := 3, p_offset := 1, p_filesz := 3\<rparr>" "[]"]
  by (simp add: sample_phdr_def)

text \<open>
  The bounds check of the interpreter segment adds offset and size without an overflow
  check: a segment whose end wraps around below its start passes the check and the slice
  panics, in place of the error the function returns for segments beyond the file.
\<close>

theorem interpreter_path_overflow_panics:
  assumes "p_type p = 3" and "2 ^ 64 \<le> unat (p_offset p) + unat (p_filesz p)"
    and "unat (p_offset p) + unat (p_filesz p) \<le> 2 ^ 64 + length data"
  shows "interpreter_path data (p # qs) = Panic"
proof -
  have lt: "unat (p_offset p) < 2 ^ 64" "unat (p_filesz p) < 2 ^ 64"
    using unsigned_less [of "p_offset p"] unsigned_less [of "p_filesz p"] by simp_all
  then have un: "unat (p_offset p + p_filesz p) = unat (p_offset p) + unat (p_filesz p) - 2 ^ 64"
    using assms(2) by (simp add: unat_word_ariths mod_if)
  then have "unat (p_offset p + p_filesz p) \<le> length data" using assms(3) by linarith
  moreover have "p_offset p + p_filesz p < p_offset p"
    unfolding word_less_nat_alt un using assms(2) lt by linarith
  ultimately show ?thesis using assms(1) by (simp add: cstr_in_def)
qed

theorem interpreter_path_overflow_panics_witness:
  "interpreter_path [0, 0] [sample_phdr\<lparr>p_type := 3, p_offset := 2, p_filesz := 0xffffffffffffffff\<rparr>] = Panic"
  using interpreter_path_overflow_panics [of "sample_phdr\<lparr>p_type := 3, p_offset := 2, p_filesz := 0xffffffffffffffff\<rparr>"
      "[0, 0]" "[]"]
  by (simp add: sample_phdr_def)

end
