(* ===== verification/Loader.thy ===== *)
theory Loader
  imports Elf_Laws
begin

unbundle bit_operations_syntax

text \<open>
  The PIE loader of \<^verbatim>\<open>src/src/loader.rs\<close>: slot allocation, mapping of the loadable segments,
  relative relocations and the auxiliary vector. The address space maps byte addresses to
  their content and protection; the kernel's decisions are a parameter, its documented
  effect on success is modelled. A store to memory that is not mapped writable stops the
  process (\<^const>\<open>Panic\<close>).
\<close>

section \<open>Data and constants\<close>

record LoadedImage =
  base :: usize
  total_size :: usize
  entry :: usize
  phdr_addr :: usize
  phnum :: u16
  phentsize :: u16
  interp_path :: "u8 list option"

definition is_dynamic :: "LoadedImage \<Rightarrow> bool" where
  "is_dynamic img \<longleftrightarrow> interp_path img \<noteq> None"

definition NEXT_BASE_init :: usize where "NEXT_BASE_init = 0x2000000000"
definition PAGE_SIZE :: usize where "PAGE_SIZE = 4096"
definition SLOT_ALIGN :: usize where "SLOT_ALIGN = 64 * 1024"

definition PROT_NONE :: c_int where [simp]: "PROT_NONE = 0"
definition PROT_READ :: c_int where [simp]: "PROT_READ = 1"
definition PROT_WRITE :: c_int where [simp]: "PROT_WRITE = 2"
definition PROT_EXEC :: c_int where [simp]: "PROT_EXEC = 4"

definition AT_NULL :: u64 where [simp]: "AT_NULL = 0"
definition AT_PHDR :: u64 where [simp]: "AT_PHDR = 3"
definition AT_PHENT :: u64 where [simp]: "AT_PHENT = 4"
definition AT_PHNUM :: u64 where [simp]: "AT_PHNUM = 5"
definition AT_PAGESZ :: u64 where [simp]: "AT_PAGESZ = 6"
definition AT_BASE :: u64 where [simp]: "AT_BASE = 7"
definition AT_ENTRY :: u64 where [simp]: "AT_ENTRY = 9"
definition AT_HWCAP :: u64 where [simp]: "AT_HWCAP = 16"
definition AT_RANDOM :: u64 where [simp]: "AT_RANDOM = 25"

datatype load_error =
    ElfErr elf_error
  | NoLoadSegments
  | ReserveFailed usize
  | MmapFailed usize usize
  | SegmentBeyondFile
  | MprotectFailed usize

section \<open>The address space\<close>

record aspace =
  mbyte :: "usize \<Rightarrow> u8 option"
  mprot :: "usize \<Rightarrow> c_int"
  next_base :: usize

text \<open>The kernel's decisions: whether it grants a mapping or a change of protection.\<close>

record kernel =
  mmap_ok :: "usize \<Rightarrow> usize \<Rightarrow> bool"
  mprotect_ok :: "usize \<Rightarrow> usize \<Rightarrow> bool"

definition in_range :: "usize \<Rightarrow> usize \<Rightarrow> usize \<Rightarrow> bool" where
  "in_range addr sz x \<longleftrightarrow> unat (x - addr) < unat sz"

text \<open>An anonymous mapping at a fixed address replaces what was there with zero bytes.\<close>

definition mmap_fixed :: "kernel \<Rightarrow> usize \<Rightarrow> usize \<Rightarrow> c_int \<Rightarrow> aspace \<Rightarrow> aspace option" where
  "mmap_fixed k addr sz prot a =
     (if sz = 0 \<or> \<not> mmap_ok k addr sz then None
      else Some (a\<lparr>mbyte := (\<lambda>x. if in_range addr sz x then Some 0 else mbyte a x),
                   mprot := (\<lambda>x. if in_range addr sz x then prot else mprot a x)\<rparr>))"

text \<open>
  With \<^verbatim>\<open>MAP_FIXED_NOREPLACE\<close> the request fails when it meets an existing mapping;
  \<open>range_free\<close> is the kernel's answer to that question.
\<close>

definition range_free :: "usize \<Rightarrow> usize \<Rightarrow> aspace \<Rightarrow> bool" where
  "range_free addr sz a \<longleftrightarrow> list_all (\<lambda>i. mbyte a (addr + of_nat i) = None) [0..<unat sz]"

definition mmap_noreplace :: "kernel \<Rightarrow> usize \<Rightarrow> usize \<Rightarrow> c_int \<Rightarrow> aspace \<Rightarrow> aspace option" where
  "mmap_noreplace k addr sz prot a = (if range_free addr sz a then mmap_fixed k addr sz prot a else None)"

definition mprotect :: "kernel \<Rightarrow> usize \<Rightarrow> usize \<Rightarrow> c_int \<Rightarrow> aspace \<Rightarrow> aspace option" where
  "mprotect k addr sz prot a =
     (if mprotect_ok k addr sz
      then Some (a\<lparr>mprot := (\<lambda>x. if in_range addr sz x then prot else mprot a x)\<rparr>) else None)"

definition writable :: "aspace \<Rightarrow> usize \<Rightarrow> bool" where
  "writable a x \<longleftrightarrow> mbyte a x \<noteq> None \<and> mprot a x AND 2 \<noteq> 0"

fun copy_bytes :: "usize \<Rightarrow> u8 list \<Rightarrow> aspace \<Rightarrow> aspace option" where
  "copy_bytes addr [] a = Some a"
| "copy_bytes addr (b # bs) a =
     (if writable a addr then copy_bytes (addr + 1) bs (a\<lparr>mbyte := (mbyte a)(addr \<mapsto> b)\<rparr>) else None)"

section \<open>The loader\<close>

definition page_align_down :: "usize \<Rightarrow> usize" where
  "page_align_down addr = addr AND NOT (PAGE_SIZE - 1)"

definition page_align_up :: "usize \<Rightarrow> usize" where
  "page_align_up addr = (addr + PAGE_SIZE - 1) AND NOT (PAGE_SIZE - 1)"

definition alloc_slot :: "usize \<Rightarrow> aspace \<Rightarrow> usize \<times> aspace" where
  "alloc_slot sz a =
     (let aligned_size = (sz + SLOT_ALIGN - 1) AND NOT (SLOT_ALIGN - 1)
      in (next_base a, a\<lparr>next_base := next_base a + (aligned_size + PAGE_SIZE)\<rparr>))"

definition prot_from_flags :: "u32 \<Rightarrow> c_int" where
  "prot_from_flags flags =
     ((if flags AND PF_R \<noteq> 0 then PROT_READ else 0) OR
      (if flags AND PF_W \<noteq> 0 then PROT_WRITE else 0)) OR
      (if flags AND PF_X \<noteq> 0 then PROT_EXEC else 0)"

definition map_load_segment ::
  "kernel \<Rightarrow> u8 list \<Rightarrow> usize \<Rightarrow> Phdr \<Rightarrow> aspace \<Rightarrow> (load_error, unit) rres \<times> aspace" where
  "map_load_segment k data bs phdr a =
     (let prot = prot_from_flags (p_flags phdr);
          seg_vaddr = p_vaddr phdr; seg_filesz = p_filesz phdr;
          seg_memsz = p_memsz phdr; seg_offset = p_offset phdr;
          page_start = page_align_down seg_vaddr;
          page_end = page_align_up (seg_vaddr + seg_memsz);
          map_size = page_end - page_start;
          map_addr = bs + page_start;
          page_offset = seg_vaddr - page_start
      in case mmap_fixed k map_addr map_size (PROT_READ OR PROT_WRITE) a of
           None \<Rightarrow> (Err (MmapFailed map_addr map_size), a)
         | Some a1 \<Rightarrow>
             (case (if seg_filesz = 0 then Ok a1
                    else if length data < unat (seg_offset + seg_filesz) then Err SegmentBeyondFile
                    else if seg_offset + seg_filesz < seg_offset then Panic
                    else (case copy_bytes (map_addr + page_offset)
                                 (take (unat seg_filesz) (drop (unat seg_offset) data)) a1 of
                            None \<Rightarrow> Panic | Some a2 \<Rightarrow> Ok a2)) of
                Err e \<Rightarrow> (Err e, a1)
              | Panic \<Rightarrow> (Panic, a1)
              | Ok a2 \<Rightarrow>
                  (case mprotect k map_addr map_size prot a2 of
                     None \<Rightarrow> (Err (MprotectFailed map_addr), a2)
                   | Some a3 \<Rightarrow> (Ok (), a3))))"

fun map_segments ::
  "kernel \<Rightarrow> u8 list \<Rightarrow> usize \<Rightarrow> Phdr list \<Rightarrow> aspace \<Rightarrow> (load_error, unit) rres \<times> aspace" where
  "map_segments k data bs [] a = (Ok (), a)"
| "map_segments k data bs (p # ps) a =
     (case map_load_segment k data bs p a of
        (Ok _, a1) \<Rightarrow> map_segments k data bs ps a1
      | (Err e, a1) \<Rightarrow> (Err e, a1)
      | (Panic, a1) \<Rightarrow> (Panic, a1))"

text \<open>The count of relocations applied; \<^const>\<open>None\<close> is a store to memory that is not writable.\<close>

fun apply_relative_relocations :: "usize \<Rightarrow> Rela list \<Rightarrow> aspace \<Rightarrow> (nat \<times> aspace) option" where
  "apply_relative_relocations bs [] a = Some (0, a)"
| "apply_relative_relocations bs (r # rs) a =
     (if rela_type (r_info r) \<noteq> R_AARCH64_RELATIVE then apply_relative_relocations bs rs a
      else Option.bind (copy_bytes (bs + r_offset r) (put 8 (bs + r_addend r)) a) (\<lambda>a1.
           map_option (\<lambda>(n, a2). (Suc n, a2)) (apply_relative_relocations bs rs a1)))"

fun lift_elf :: "(elf_error, 'a) rres \<Rightarrow> (load_error, 'a) rres" where
  "lift_elf (Ok x) = Ok x"
| "lift_elf (Err e) = Err (ElfErr e)"
| "lift_elf Panic = Panic"

text \<open>A fallible step that does not touch the address space, then the rest.\<close>

fun and_then :: "(load_error, 'a) rres \<Rightarrow> aspace \<Rightarrow> ('a \<Rightarrow> (load_error, 'b) rres \<times> aspace) \<Rightarrow>
    (load_error, 'b) rres \<times> aspace" where
  "and_then (Ok x) a f = f x"
| "and_then (Err e) a f = (Err e, a)"
| "and_then Panic a f = (Panic, a)"

definition relocate :: "u8 list \<Rightarrow> Phdr list \<Rightarrow> usize \<Rightarrow> aspace \<Rightarrow> (load_error, unit) rres \<times> aspace" where
  "relocate data phdrs bs a =
     and_then (lift_elf (dynamic_entries data phdrs)) a (\<lambda>dyns.
       if dyns = [] then (Ok (), a)
       else and_then (lift_elf (rela_entries_from_dynamic data dyns)) a (\<lambda>relas.
              case apply_relative_relocations bs relas a of
                None \<Rightarrow> (Panic, a) | Some (n, a1) \<Rightarrow> (Ok (), a1)))"

definition load_pie :: "kernel \<Rightarrow> u8 list \<Rightarrow> aspace \<Rightarrow> (load_error, LoadedImage) rres \<times> aspace" where
  "load_pie k data a =
     and_then (lift_elf (parse_header data)) a (\<lambda>hdr.
     and_then (lift_elf (validate_pie hdr)) a (\<lambda>_.
     and_then (lift_elf (program_headers data hdr)) a (\<lambda>phdrs.
     let loads = load_segments phdrs
     in if loads = [] then (Err NoLoadSegments, a)
        else
          (let (min_vaddr, span) = load_span phdrs;
               total_mapped = page_align_up span;
               (bs, a1) = alloc_slot total_mapped a
           in case mmap_noreplace k bs total_mapped PROT_NONE a1 of
                None \<Rightarrow> (Err (ReserveFailed bs), a1)
              | Some a2 \<Rightarrow>
                  (let (r, a3) = map_segments k data bs loads a2
                   in and_then r a3 (\<lambda>_.
                      let (r, a4) = relocate data phdrs bs a3
                      in and_then r a4 (\<lambda>_.
                         and_then (lift_elf (interpreter_path data phdrs)) a4 (\<lambda>ip.
                           (Ok \<lparr>base = bs, total_size = total_mapped, entry = bs + e_entry hdr,
                                phdr_addr = bs + e_phoff hdr, phnum = e_phnum hdr,
                                phentsize = e_phentsize hdr, interp_path = ip\<rparr>, a4)))))))))"

section \<open>The auxiliary vector\<close>

text \<open>
  The scan of \<^verbatim>\<open>/proc/self/auxv\<close>: pairs of native words up to the null entry. Both readers
  of the file share it.
\<close>

function auxv_find :: "u64 \<Rightarrow> u8 list \<Rightarrow> u64 option" where
  "auxv_find key data =
     (if length data < 16 then None
      else if field 8 0 data = key then Some (field 8 8 data)
      else if field 8 0 data = AT_NULL then None
      else auxv_find key (drop 16 data))"
  by pat_completeness auto
termination
  by (relation "measure (\<lambda>(key, data). length data)") auto

declare auxv_find.simps [simp del]

definition read_hwcap :: "u8 list option \<Rightarrow> u64 option" where
  "read_hwcap file = Option.bind file (auxv_find AT_HWCAP)"

text \<open>\<open>deref\<close> reads the 16 bytes the kernel placed at an address.\<close>

definition get_random_bytes :: "u8 list option \<Rightarrow> (u64 \<Rightarrow> u8 list) \<Rightarrow> u8 list" where
  "get_random_bytes file deref =
     (case Option.bind file (auxv_find AT_RANDOM) of
        Some ptr \<Rightarrow> deref ptr
      | None \<Rightarrow> [0xDE, 0xAD, 0xBE, 0xEF, 0xCA, 0xFE, 0xBA, 0xBE,
                 0x12, 0x34, 0x56, 0x78, 0x9A, 0xBC, 0xDE, 0xF0])"

text \<open>\<open>random_addr\<close> is the address of the static random bytes.\<close>

definition build_auxv :: "u8 list option \<Rightarrow> u64 \<Rightarrow> LoadedImage \<Rightarrow> usize \<Rightarrow> (u64 \<times> u64) list" where
  "build_auxv file random_addr img interp_base =
     [(AT_PHDR, phdr_addr img), (AT_PHENT, ucast (phentsize img)),
      (AT_PHNUM, ucast (phnum img)), (AT_PAGESZ, PAGE_SIZE), (AT_ENTRY, entry img),
      (AT_BASE, interp_base)] @
     (case read_hwcap file of None \<Rightarrow> [] | Some hwcap \<Rightarrow> [(AT_HWCAP, hwcap)]) @
     [(AT_RANDOM, random_addr), (AT_NULL, 0)]"

end
