(* ===== verification/Loader_Laws.thy ===== *)
theory Loader_Laws
  imports Loader
begin

text \<open>
  Properties of the loader: page arithmetic, disjoint slots, the content and protection of
  a mapped segment, the effect of relative relocations, and the reservation that does not
  cover images whose first segment is not at address zero.
\<close>

section \<open>Alignment\<close>

lemma and_not_low:
  fixes x :: "'a::len word"
  shows "x AND NOT (mask k) = push_bit k (drop_bit k x)"
  by (rule bit_eqI) (auto simp: bit_simps)

lemma unat_align_down:
  fixes x :: "'a::len word"
  shows "unat (x AND NOT (mask k)) = 2 ^ k * (unat x div 2 ^ k)"
proof -
  have "2 ^ k * (unat x div 2 ^ k) < 2 ^ LENGTH('a)"
    using unsigned_less [of x] by (meson le_less_trans times_div_less_eq_dividend)
  then show ?thesis
    unfolding and_not_low unsigned_push_bit_eq unsigned_drop_bit_eq
    by (simp add: push_bit_eq_mult drop_bit_eq_div take_bit_eq_mod mult.commute)
qed

lemma page_mask: "PAGE_SIZE - 1 = mask 12" "SLOT_ALIGN - 1 = mask 16"
  by (simp_all add: PAGE_SIZE_def SLOT_ALIGN_def mask_eq_exp_minus_1)

lemma unat_page_down: "unat (page_align_down x) = 4096 * (unat x div 4096)"
  by (simp add: page_align_down_def page_mask unat_align_down)

lemma unat_page_up:
  assumes "unat x + 4095 < 2 ^ 64"
  shows "unat (page_align_up x) = 4096 * ((unat x + 4095) div 4096)"
proof -
  have eq: "x + PAGE_SIZE - 1 = x + 4095" by (simp add: PAGE_SIZE_def)
  have "unat (x + 4095) = unat x + 4095" using assms by (simp add: unat_word_ariths)
  then show ?thesis unfolding page_align_up_def eq page_mask unat_align_down by simp
qed

lemma align_nat:
  fixes d x :: nat
  assumes "0 < d"
  shows "d * (x div d) \<le> x" and "x < d * (x div d) + d"
  using mult_div_mod_eq [of d x] mod_less_divisor [OF assms, of x] by linarith+

lemma page_down_le: "unat (page_align_down x) \<le> unat x" "unat x < unat (page_align_down x) + 4096"
  unfolding unat_page_down using align_nat [of 4096 "unat x"] by simp_all

lemma page_up_ge:
  assumes "unat x + 4095 < 2 ^ 64"
  shows "unat x \<le> unat (page_align_up x)" "unat (page_align_up x) < unat x + 4096"
  unfolding unat_page_up [OF assms] using align_nat [of 4096 "unat x + 4095"] by linarith+

lemma alloc_slot_next:
  assumes "alloc_slot n a = (b, a1)" and "unat (next_base a) + unat n + 65536 + 4096 \<le> 2 ^ 64"
  shows "b = next_base a \<and> unat b + unat n + 4096 \<le> unat (next_base a1) \<and>
    unat (next_base a1) < unat b + unat n + 65536 + 4096 \<and> unat (next_base a1) mod 4096 = unat b mod 4096"
proof -
  let ?s = "(n + SLOT_ALIGN - 1) AND NOT (SLOT_ALIGN - 1)"
  have eq: "n + SLOT_ALIGN - 1 = n + 65535" by (simp add: SLOT_ALIGN_def)
  have "unat (n + 65535) = unat n + 65535" using assms(2) by (simp add: unat_word_ariths)
  then have s: "unat ?s = 65536 * ((unat n + 65535) div 65536)"
    unfolding eq page_mask unat_align_down by simp
  have bnd: "unat n \<le> unat ?s" "unat ?s < unat n + 65536" 
    unfolding s using align_nat [of 65536 "unat n + 65535"] by linarith+
  have nb: "b = next_base a" "next_base a1 = b + (?s + PAGE_SIZE)"
    using assms(1) by (auto simp: alloc_slot_def Let_def)
  have "unat (?s + PAGE_SIZE) = unat ?s + 4096"
    using bnd assms(2) by (simp add: unat_word_ariths PAGE_SIZE_def)
  then have "unat (next_base a1) = unat b + (unat ?s + 4096)"
    using bnd assms(2) nb by (simp add: unat_word_ariths)
  moreover have "(unat b + (unat ?s + 4096)) mod 4096 = unat b mod 4096"
  proof -
    have "unat ?s + 4096 = 4096 * (16 * ((unat n + 65535) div 65536) + 1)" unfolding s by simp
    then show ?thesis by (metis mod_mult_self2)
  qed
  ultimately show ?thesis using nb bnd by simp
qed

text \<open>Slots of the given sizes, allocated one after the other.\<close>

fun alloc_slots :: "usize list \<Rightarrow> aspace \<Rightarrow> usize list \<times> aspace" where
  "alloc_slots [] a = ([], a)"
| "alloc_slots (n # ns) a = (let (b, a1) = alloc_slot n a; (bs, a2) = alloc_slots ns a1 in (b # bs, a2))"

definition slots_need :: "usize list \<Rightarrow> nat" where
  "slots_need ns = sum_list (map (\<lambda>n. unat n + 65536 + 4096) ns)"

lemma alloc_slots_from:
  assumes "alloc_slots ns a = (bs, a')" and "unat (next_base a) + slots_need ns \<le> 2 ^ 64"
    and "4096 dvd unat (next_base a)"
  shows "length bs = length ns \<and>
    (\<forall>j < length ns. unat (next_base a) \<le> unat (bs ! j) \<and> 4096 dvd unat (bs ! j) \<and>
      (\<forall>i < j. unat (bs ! i) + unat (ns ! i) + 4096 \<le> unat (bs ! j)))"
  using assms
proof (induction ns arbitrary: a bs)
  case (Cons n ns)
  obtain b a1 where s: "alloc_slot n a = (b, a1)" by fastforce
  obtain cs where cs: "alloc_slots ns a1 = (cs, a')" "bs = b # cs"
    using Cons.prems(1) s by (auto split: prod.splits)
  have "unat (next_base a) + unat n + 65536 + 4096 \<le> 2 ^ 64"
    using Cons.prems(2) by (simp add: slots_need_def)
  note nx = alloc_slot_next [OF s this]
  have "unat (next_base a1) + slots_need ns \<le> 2 ^ 64"
  proof -
    have "unat (next_base a1) < unat (next_base a) + (unat n + 65536 + 4096)" using nx by (auto simp: ac_simps)
    moreover have "slots_need (n # ns) = (unat n + 65536 + 4096) + slots_need ns" by (simp add: slots_need_def)
    ultimately show ?thesis using Cons.prems(2) by linarith
  qed
  moreover have "4096 dvd unat (next_base a1)" using nx Cons.prems(3) by (simp add: dvd_eq_mod_eq_0)
  ultimately have IH: "length cs = length ns"
    "\<And>j. j < length ns \<Longrightarrow> unat (next_base a1) \<le> unat (cs ! j) \<and> 4096 dvd unat (cs ! j) \<and>
      (\<forall>i < j. unat (cs ! i) + unat (ns ! i) + 4096 \<le> unat (cs ! j))"
    using Cons.IH [OF cs(1)] by blast+
  have "unat (next_base a) \<le> unat (bs ! j) \<and> 4096 dvd unat (bs ! j) \<and>
      (\<forall>i < j. unat (bs ! i) + unat ((n # ns) ! i) + 4096 \<le> unat (bs ! j))" if "j < length (n # ns)" for j
  proof (cases j)
    case 0
    then show ?thesis using nx Cons.prems(3) by (simp add: cs(2))
  next
    case (Suc k)
    then have k: "k < length ns" using that by simp
    have "unat (bs ! i) + unat ((n # ns) ! i) + 4096 \<le> unat (cs ! k)" if "i < Suc k" for i
      using that IH(2) [OF k] nx by (cases i) (auto simp: cs(2))
    moreover have "unat (next_base a) \<le> unat (cs ! k)" using IH(2) [OF k] nx by auto
    ultimately show ?thesis using IH(2) [OF k] Suc by (simp add: cs(2))
  qed
  then show ?case using IH(1) by (simp add: cs(2))
qed simp


definition aspace_init :: aspace where
  "aspace_init = \<lparr>mbyte = (\<lambda>_. None), mprot = (\<lambda>_. 0), next_base = NEXT_BASE_init\<rparr>"


section \<open>Copying\<close>

lemma unat_pred_diff: "x \<noteq> addr \<Longrightarrow> unat (x - (addr + 1)) = unat (x - addr) - 1" for x addr :: usize
  using unat_minus_one [of "x - addr"] by (simp add: diff_diff_add)

lemma copy_bytes_effect:
  assumes "copy_bytes addr bs a = Some a'" and "length bs < 2 ^ 64"
  shows "mprot a' = mprot a \<and> next_base a' = next_base a \<and>
    mbyte a' = (\<lambda>x. if unat (x - addr) < length bs then Some (bs ! unat (x - addr)) else mbyte a x)"
  using assms
proof (induction bs arbitrary: addr a)
  case (Cons b bs)
  let ?a = "a\<lparr>mbyte := (mbyte a)(addr \<mapsto> b)\<rparr>"
  have IH: "mprot a' = mprot a" "next_base a' = next_base a"
    "mbyte a' = (\<lambda>x. if unat (x - (addr + 1)) < length bs then Some (bs ! unat (x - (addr + 1))) else mbyte ?a x)"
    using Cons.IH [of "addr + 1" ?a] Cons.prems by (auto split: if_splits)
  have "mbyte a' x = (if unat (x - addr) < length (b # bs) then Some ((b # bs) ! unat (x - addr)) else mbyte a x)" for x
  proof (cases "x = addr")
    case True
    have "addr - (addr + 1) = - 1" by simp
    then have "unat (addr - (addr + 1)) = 2 ^ 64 - 1" by (simp add: unsigned_minus_1_eq_mask mask_eq_exp_minus_1)
    then show ?thesis using True Cons.prems(2) by (simp add: IH(3))
  next
    case False
    then have "0 < unat (x - addr)" by (simp add: unat_gt_0)
    then show ?thesis using False by (auto simp: IH(3) unat_pred_diff nth_Cons')
  qed
  then show ?case using IH(1,2) by (simp add: fun_eq_iff)
qed (simp add: fun_eq_iff)

lemma copy_bytes_total:
  assumes "\<forall>i < length bs. writable a (addr + of_nat i)"
  shows "\<exists>a'. copy_bytes addr bs a = Some a'"
  using assms
proof (induction bs arbitrary: addr a)
  case (Cons b bs)
  let ?a = "a\<lparr>mbyte := (mbyte a)(addr \<mapsto> b)\<rparr>"
  have "writable ?a (addr + 1 + of_nat i)" if "i < length bs" for i
    using Cons.prems [rule_format, of "Suc i"] that by (simp add: writable_def add.assoc)
  then show ?case using Cons.IH [of ?a "addr + 1"] Cons.prems [rule_format, of 0] by auto
qed simp

section \<open>Segments\<close>

lemma segment_range:
  assumes "unat (p_vaddr p) + unat (p_memsz p) + 4096 \<le> 2 ^ 64" and "i < unat (p_memsz p)"
  shows "in_range (bs + page_align_down (p_vaddr p))
    (page_align_up (p_vaddr p + p_memsz p) - page_align_down (p_vaddr p)) (bs + p_vaddr p + of_nat i)"
proof -
  let ?V = "p_vaddr p" and ?E = "p_vaddr p + p_memsz p"
  have E: "unat ?E = unat ?V + unat (p_memsz p)" using assms(1) by (simp add: unat_word_ariths)
  have up: "unat ?E \<le> unat (page_align_up ?E)" using assms(1) E by (intro page_up_ge) simp
  have dn: "unat (page_align_down ?V) \<le> unat ?V" by (rule page_down_le)
  have i: "unat (of_nat i :: usize) = i" using assms by (simp add: unat_of_nat)
  have at: "bs + ?V + of_nat i - (bs + page_align_down ?V) = (?V - page_align_down ?V) + of_nat i" by simp
  have "unat ((?V - page_align_down ?V) + of_nat i) = unat ?V - unat (page_align_down ?V) + i"
    using dn assms i by (simp add: unat_word_ariths(1) unat_sub word_le_nat_alt)
  moreover have "unat (page_align_up ?E - page_align_down ?V) = unat (page_align_up ?E) - unat (page_align_down ?V)"
    using up dn E by (intro unat_sub) (simp add: word_le_nat_alt)
  ultimately show ?thesis using up dn E assms(2) unfolding in_range_def at by linarith
qed

text \<open>The two requests, with the pages zeroed in between, and the copied bytes.\<close>

definition zeroed :: "usize \<Rightarrow> usize \<Rightarrow> aspace \<Rightarrow> aspace" where
  "zeroed start sz a = a\<lparr>mbyte := (\<lambda>x. if in_range start sz x then Some 0 else mbyte a x),
      mprot := (\<lambda>x. if in_range start sz x then 3 else mprot a x)\<rparr>"

lemma map_load_segment_run:
  assumes "unat (p_offset p) + unat (p_filesz p) \<le> length data" and "length data < 2 ^ 63"
    and "start = bs + page_align_down (p_vaddr p)"
    and "sz = page_align_up (p_vaddr p + p_memsz p) - page_align_down (p_vaddr p)" and "sz \<noteq> 0"
    and "mmap_ok k start sz" and "mprotect_ok k start sz"
    and "copy_bytes (bs + p_vaddr p) (take (unat (p_filesz p)) (drop (unat (p_offset p)) data)) (zeroed start sz a) = Some a2"
  shows "map_load_segment k data bs p a =
      (Ok (), a2\<lparr>mprot := (\<lambda>x. if in_range start sz x then prot_from_flags (p_flags p) else mprot a2 x)\<rparr>)"
proof -
  let ?file = "take (unat (p_filesz p)) (drop (unat (p_offset p)) data)" and ?a1 = "zeroed start sz a"
  have mm: "mmap_fixed k start sz (PROT_READ OR PROT_WRITE) a = Some ?a1"
    using assms(5,6) by (simp add: mmap_fixed_def zeroed_def)
  have off: "unat (p_offset p + p_filesz p) = unat (p_offset p) + unat (p_filesz p)"
    using assms(1,2) by (simp add: unat_word_ariths)
  have addr: "start + (p_vaddr p - page_align_down (p_vaddr p)) = bs + p_vaddr p" by (simp add: assms(3))
  have "(if p_filesz p = 0 then Ok ?a1
         else if length data < unat (p_offset p + p_filesz p) then Err SegmentBeyondFile
         else if p_offset p + p_filesz p < p_offset p then Panic
         else (case copy_bytes (bs + p_vaddr p) ?file ?a1 of None \<Rightarrow> Panic | Some a2 \<Rightarrow> Ok a2)) = Ok a2"
    using assms(8) off assms(1) by (auto simp: word_less_nat_alt)
  then show ?thesis using mm assms(7)
    unfolding map_load_segment_def Let_def assms(3) [symmetric] assms(4) [symmetric] addr mprotect_def by simp
qed

text \<open>
  C24. Mapping a loadable segment that lies in the file and does not wrap around, when the
  kernel grants the two requests: the file bytes stand at the segment's address, the rest
  of the segment is zero, the segment has the protection of its flags, and nothing outside
  its pages changes.
\<close>

theorem segment_mapped:
  assumes "unat (p_vaddr p) + unat (p_memsz p) + 4096 \<le> 2 ^ 64" and "0 < p_memsz p"
    and "unat (p_filesz p) \<le> unat (p_memsz p)"
    and "unat (p_offset p) + unat (p_filesz p) \<le> length data" and "length data < 2 ^ 63"
    and "start = bs + page_align_down (p_vaddr p)"
    and "sz = page_align_up (p_vaddr p + p_memsz p) - page_align_down (p_vaddr p)"
    and "mmap_ok k start sz" and "mprotect_ok k start sz"
  shows "\<exists>a'. map_load_segment k data bs p a = (Ok (), a') \<and>
    (\<forall>i < unat (p_memsz p). mbyte a' (bs + p_vaddr p + of_nat i) =
       Some (if i < unat (p_filesz p) then data ! (unat (p_offset p) + i) else 0) \<and>
       mprot a' (bs + p_vaddr p + of_nat i) = prot_from_flags (p_flags p)) \<and>
    (\<forall>x. \<not> in_range start sz x \<longrightarrow> mbyte a' x = mbyte a x \<and> mprot a' x = mprot a x)"
proof -
  let ?n = "unat (p_filesz p)" and ?file = "take (unat (p_filesz p)) (drop (unat (p_offset p)) data)"
  have rng: "in_range start sz (bs + p_vaddr p + of_nat i)" if "i < unat (p_memsz p)" for i
    using segment_range [OF assms(1) that, of bs] assms(6,7) by simp
  have "sz \<noteq> 0" using rng [of 0] assms(2) by (auto simp: in_range_def word_less_nat_alt)
  define a1 where "a1 = zeroed start sz a"
  have len: "length ?file = ?n" using assms(4) by simp
  obtain a2 where cp: "copy_bytes (bs + p_vaddr p) ?file a1 = Some a2"
    using copy_bytes_total [of ?file a1 "bs + p_vaddr p"] rng assms(3) len
    by (auto simp: writable_def a1_def zeroed_def)
  note run = map_load_segment_run [OF assms(4-7) \<open>sz \<noteq> 0\<close> assms(8,9) cp [unfolded a1_def]]
  have eff: "mprot a2 = mprot a1" "mbyte a2 = (\<lambda>x. if unat (x - (bs + p_vaddr p)) < ?n
      then Some (?file ! unat (x - (bs + p_vaddr p))) else mbyte a1 x)"
    using copy_bytes_effect [OF cp] len assms(4,5) by auto
  have "unat (bs + p_vaddr p + of_nat i - (bs + p_vaddr p)) = i" if "i < unat (p_memsz p)" for i
    using that assms(1) by (simp add: unat_of_nat)
  then have "mbyte a2 (bs + p_vaddr p + of_nat i) =
      Some (if i < ?n then data ! (unat (p_offset p) + i) else 0)" if "i < unat (p_memsz p)" for i
    using that rng [OF that] assms(4) by (simp add: eff(2) a1_def zeroed_def)
  moreover have "mbyte a2 x = mbyte a x \<and> mprot a2 x = mprot a x" if "\<not> in_range start sz x" for x
  proof -
    have "\<not> unat (x - (bs + p_vaddr p)) < ?n"
    proof
      assume "unat (x - (bs + p_vaddr p)) < ?n"
      then show False using rng [of "unat (x - (bs + p_vaddr p))"] assms(3) that by simp
    qed
    then show ?thesis using that by (simp add: eff a1_def zeroed_def)
  qed
  ultimately show ?thesis using run rng by auto
qed

definition kernel_yes :: kernel where
  "kernel_yes = \<lparr>mmap_ok = (\<lambda>_ _. True), mprotect_ok = (\<lambda>_ _. True)\<rparr>"

theorem segment_mapped_witness:
  "\<exists>a'. map_load_segment kernel_yes (replicate 256 7) 0x2000000000 sample_phdr aspace_init = (Ok (), a') \<and>
     mbyte a' (0x2000000000 + 4096 + 5) = Some 7 \<and> mbyte a' (0x2000000000 + 4096 + 300) = Some 0"
proof -
  have ex: "\<exists>a'. map_load_segment kernel_yes (replicate 256 7) 0x2000000000 sample_phdr aspace_init = (Ok (), a') \<and>
    (\<forall>i < unat (p_memsz sample_phdr). mbyte a' (0x2000000000 + p_vaddr sample_phdr + of_nat i) =
       Some (if i < unat (p_filesz sample_phdr) then replicate 256 7 ! (unat (p_offset sample_phdr) + i) else 0) \<and>
       mprot a' (0x2000000000 + p_vaddr sample_phdr + of_nat i) = prot_from_flags (p_flags sample_phdr)) \<and>
    (\<forall>x. \<not> in_range (0x2000000000 + page_align_down (p_vaddr sample_phdr))
        (page_align_up (p_vaddr sample_phdr + p_memsz sample_phdr) - page_align_down (p_vaddr sample_phdr)) x \<longrightarrow>
        mbyte a' x = mbyte aspace_init x \<and> mprot a' x = mprot aspace_init x)"
    by (rule segment_mapped) (simp_all add: sample_phdr_def kernel_yes_def)
  then obtain a' where run: "map_load_segment kernel_yes (replicate 256 7) 0x2000000000 sample_phdr aspace_init = (Ok (), a')"
    and bytes: "\<And>i. i < 512 \<Longrightarrow> mbyte a' (0x2000000000 + 4096 + of_nat i) =
       Some (if i < 256 then replicate 256 7 ! i else 0)"
    by (auto simp: sample_phdr_def)
  show ?thesis using run bytes [of 5] bytes [of 300] by (simp add: nth_replicate)
qed

text \<open>
  The reservation has the length of the span but starts at the slot, while segments are
  mapped at slot plus virtual address: an image whose first segment is not at address zero
  is mapped beyond the reserved range, and what is mapped there loses its protection.
\<close>

theorem mapping_exceeds_reservation:
  assumes "load_segments phdrs = [p]" and "0 < p_vaddr p" and "unat (p_vaddr p) mod 4096 = 0" and "0 < p_memsz p"
    and "unat (p_vaddr p) + unat (p_memsz p) + 4096 \<le> 2 ^ 64"
    and "map_load_segment k data bs p a = (Ok (), a')"
  shows "\<exists>x. \<not> in_range bs (page_align_up (snd (load_span phdrs))) x \<and> mprot a' x = prot_from_flags (p_flags p)"
proof -
  let ?V = "p_vaddr p" and ?M = "p_memsz p"
  have span: "snd (load_span phdrs) = ?M" using assms(1) by (simp add: load_span_def)
  have M: "0 < unat ?M" using assms(4) by (simp add: word_less_nat_alt)
  have tot: "unat (page_align_up ?M) < unat ?M + 4096" "unat (page_align_up ?M) = 4096 * ((unat ?M + 4095) div 4096)"
    using assms(5) by (auto intro!: page_up_ge unat_page_up)
  let ?x = "bs + ?V + of_nat (unat ?M - 1)"
  have rng: "in_range (bs + page_align_down ?V) (page_align_up (?V + ?M) - page_align_down ?V) ?x"
    by (rule segment_range) (use assms(5) M in auto)
  have "mprot a' ?x = prot_from_flags (p_flags p)"
    using assms(6) rng unfolding map_load_segment_def Let_def
    by (auto simp: mprotect_def split: option.splits rres.splits if_splits)
  moreover have "unat (?x - bs) = unat ?V + unat ?M - 1"
  proof -
    have "?x - bs = ?V + of_nat (unat ?M - 1)" by simp
    moreover have "unat (of_nat (unat ?M - 1) :: usize) = unat ?M - 1" using assms(5) by (simp add: unat_of_nat)
    ultimately show ?thesis using assms(5) M by (simp add: unat_word_ariths)
  qed
  moreover have "unat (page_align_up ?M) \<le> unat ?V + unat ?M - 1"
  proof -
    obtain q where q: "unat ?V = 4096 * q" using assms(3) by (auto simp: mod_eq_0_iff_dvd dvd_def)
    then have "4096 \<le> unat ?V" using assms(2) by (cases q) (auto simp: word_less_nat_alt)
    then show ?thesis using tot(1) M by linarith
  qed
  ultimately show ?thesis unfolding span in_range_def by (intro exI [of _ ?x]) simp
qed

theorem mapping_exceeds_reservation_witness:
  "\<exists>a' x. map_load_segment kernel_yes (replicate 256 7) 0x2000000000 (sample_phdr\<lparr>p_filesz := 0\<rparr>) aspace_init = (Ok (), a') \<and>
     \<not> in_range 0x2000000000 (page_align_up (snd (load_span [sample_phdr\<lparr>p_filesz := 0\<rparr>]))) x \<and> mprot a' x = 5"
proof -
  let ?p = "sample_phdr\<lparr>p_filesz := 0\<rparr>"
  have nz: "page_align_up 4608 - page_align_down 4096 \<noteq> (0 :: usize)"
    by (simp add: page_align_up_def page_align_down_def PAGE_SIZE_def)
  obtain a' where run: "map_load_segment kernel_yes (replicate 256 7) 0x2000000000 ?p aspace_init = (Ok (), a')"
    using nz by (simp add: map_load_segment_def Let_def mmap_fixed_def mprotect_def kernel_yes_def sample_phdr_def)
  have "\<exists>x. \<not> in_range 0x2000000000 (page_align_up (snd (load_span [?p]))) x \<and> mprot a' x = prot_from_flags (p_flags ?p)"
    by (rule mapping_exceeds_reservation [OF _ _ _ _ _ run]) (simp_all add: load_segments_def sample_phdr_def)
  moreover have "prot_from_flags (p_flags ?p) = 5" by (simp add: prot_from_flags_def sample_phdr_def)
  ultimately show ?thesis using run by auto
qed

section \<open>Relocations\<close>

definition is_relative :: "Rela \<Rightarrow> bool" where
  "is_relative r \<longleftrightarrow> rela_type (r_info r) = R_AARCH64_RELATIVE"

lemma relocations_frame:
  assumes "apply_relative_relocations bs rs a = Some (n, a')"
  shows "n = length (filter is_relative rs) \<and> mprot a' = mprot a \<and>
    (\<forall>x. (\<forall>r \<in> set rs. is_relative r \<longrightarrow> \<not> in_range (bs + r_offset r) 8 x) \<longrightarrow> mbyte a' x = mbyte a x)"
  using assms
proof (induction rs arbitrary: a n)
  case (Cons r rs)
  show ?case
  proof (cases "is_relative r")
    case True
    then obtain a1 m where a1: "copy_bytes (bs + r_offset r) (put 8 (bs + r_addend r)) a = Some a1"
      and m: "apply_relative_relocations bs rs a1 = Some (m, a')" "n = Suc m"
      using Cons.prems by (auto simp: is_relative_def split: bind_splits)
    show ?thesis
      using Cons.IH [OF m(1)] copy_bytes_effect [OF a1] True m(2) by (auto simp: in_range_def)
  next
    case False
    then show ?thesis using Cons.IH [of a n] Cons.prems by (auto simp: is_relative_def)
  qed
qed simp

text \<open>
  C25. Relative relocations: when all of them can be stored and their targets do not overlap,
  every one leaves the load base plus its addend, in little-endian order, at the load base
  plus its offset; the count is the number of relative relocations; all other memory and
  all protections are unchanged.
\<close>

theorem relocations_applied:
  assumes "apply_relative_relocations bs rs a = Some (n, a')"
    and "sorted_wrt (\<lambda>r s. is_relative r \<longrightarrow> is_relative s \<longrightarrow>
           (\<forall>x. \<not> (in_range (bs + r_offset r) 8 x \<and> in_range (bs + r_offset s) 8 x))) rs"
  shows "n = length (filter is_relative rs) \<and> mprot a' = mprot a \<and>
    (\<forall>r \<in> set rs. is_relative r \<longrightarrow> (\<forall>i < 8.
       mbyte a' (bs + r_offset r + of_nat i) = Some (put 8 (bs + r_addend r) ! i))) \<and>
    (\<forall>x. (\<forall>r \<in> set rs. is_relative r \<longrightarrow> \<not> in_range (bs + r_offset r) 8 x) \<longrightarrow> mbyte a' x = mbyte a x)"
proof -
  have "\<forall>r \<in> set rs. is_relative r \<longrightarrow> (\<forall>i < 8.
       mbyte a' (bs + r_offset r + of_nat i) = Some (put 8 (bs + r_addend r) ! i))"
    using assms
  proof (induction rs arbitrary: a n)
    case (Cons r rs)
    show ?case
    proof (cases "is_relative r")
      case True
      then obtain a1 m where a1: "copy_bytes (bs + r_offset r) (put 8 (bs + r_addend r)) a = Some a1"
        and m: "apply_relative_relocations bs rs a1 = Some (m, a')"
        using Cons.prems(1) by (auto simp: is_relative_def split: bind_splits)
      have "mbyte a' (bs + r_offset r + of_nat i) = Some (put 8 (bs + r_addend r) ! i)" if "i < 8" for i
      proof -
        have i: "unat (bs + r_offset r + of_nat i - (bs + r_offset r)) = i" using that by (simp add: unat_of_nat)
        then have rng: "in_range (bs + r_offset r) 8 (bs + r_offset r + of_nat i)"
          using that unfolding in_range_def by simp
        have "mbyte a' (bs + r_offset r + of_nat i) = mbyte a1 (bs + r_offset r + of_nat i)"
          using relocations_frame [OF m] Cons.prems(2) True rng by auto
        then show ?thesis using copy_bytes_effect [OF a1] i that by simp
      qed
      then show ?thesis using Cons.IH [OF m] Cons.prems(2) by simp
    next
      case False
      then have "apply_relative_relocations bs rs a = Some (n, a')" using Cons.prems(1) by (simp add: is_relative_def)
      then show ?thesis using Cons.IH Cons.prems(2) False by simp
    qed
  qed simp
  then show ?thesis using relocations_frame [OF assms(1)] by blast
qed

theorem relocations_applied_witness:
  "\<exists>n a'. apply_relative_relocations 4096 [\<lparr>r_offset = 8, r_info = 0x403, r_addend = 16\<rparr>]
       \<lparr>mbyte = (\<lambda>_. Some 0), mprot = (\<lambda>_. 3), next_base = 0\<rparr> = Some (n, a') \<and> n = 1 \<and>
     mbyte a' (4096 + 8) = Some (put 8 (4112 :: u64) ! 0)"
proof -
  let ?a = "\<lparr>mbyte = (\<lambda>_. Some 0), mprot = (\<lambda>_. 3), next_base = 0\<rparr> :: aspace"
  let ?r = "\<lparr>r_offset = 8, r_info = 0x403, r_addend = 16\<rparr>"
  have rel: "is_relative ?r" by (simp add: is_relative_def rela_type_def)
  have "\<exists>a1. copy_bytes (4096 + 8) (put 8 (4096 + 16 :: u64)) ?a = Some a1"
    by (rule copy_bytes_total) (simp add: writable_def)
  then obtain n a' where run: "apply_relative_relocations 4096 [?r] ?a = Some (n, a')"
    using rel by (auto simp: is_relative_def)
  have eff: "n = length (filter is_relative [?r])"
    "\<And>i. i < 8 \<Longrightarrow> mbyte a' (4096 + r_offset ?r + of_nat i) = Some (put 8 (4096 + r_addend ?r) ! i)"
    using relocations_applied [OF run] rel by auto
  from eff(2) [of 0] have "mbyte a' (4096 + 8) = Some (put 8 (4112 :: u64) ! 0)" by simp
  then show ?thesis using run eff(1) rel by auto
qed

end
