(* ===== verification/Vexec_Mem.thy ===== *)
theory Vexec_Mem
  imports Loader_Laws
begin

unbundle bit_operations_syntax

text \<open>
  The parts of \<^verbatim>\<open>src/src/vexec.rs\<close> that work on the memory of a loaded program: its stack,
  the snapshots of writable segments, the patching of init arrays, of the global offset
  table and of function entries, and the decoding of the start code. Memory is the address
  space of \<open>Loader\<close>; \<^const>\<open>None\<close> is an access that faults.
\<close>

section \<open>Access to memory\<close>

definition readable :: "aspace \<Rightarrow> usize \<Rightarrow> bool" where
  "readable a x \<longleftrightarrow> mbyte a x \<noteq> None \<and> mprot a x AND 1 \<noteq> 0"

fun peek :: "aspace \<Rightarrow> usize \<Rightarrow> nat \<Rightarrow> u8 list option" where
  "peek a x 0 = Some []"
| "peek a x (Suc n) =
     (if readable a x then map_option (\<lambda>bs. the (mbyte a x) # bs) (peek a (x + 1) n) else None)"

definition peek32 :: "aspace \<Rightarrow> usize \<Rightarrow> u32 option" where
  "peek32 a x = map_option (field 4 0) (peek a x 4)"

definition peek64 :: "aspace \<Rightarrow> usize \<Rightarrow> u64 option" where
  "peek64 a x = map_option (field 8 0) (peek a x 8)"

definition poke64 :: "usize \<Rightarrow> u64 \<Rightarrow> aspace \<Rightarrow> aspace option" where
  "poke64 x w a = copy_bytes x (put 8 w) a"

definition munmap :: "usize \<Rightarrow> usize \<Rightarrow> aspace \<Rightarrow> aspace" where
  "munmap addr sz a =
     a\<lparr>mbyte := (\<lambda>x. if in_range addr sz x then None else mbyte a x),
       mprot := (\<lambda>x. if in_range addr sz x then 0 else mprot a x)\<rparr>"

text \<open>\<^verbatim>\<open>mprotect_mte_aware\<close> where its result is ignored.\<close>

definition mprotect_mte_aware :: "kernel \<Rightarrow> usize \<Rightarrow> usize \<Rightarrow> c_int \<Rightarrow> aspace \<Rightarrow> aspace option" where
  "mprotect_mte_aware k addr sz base_prot a = mprotect k addr sz base_prot a"

definition try_mprotect :: "kernel \<Rightarrow> usize \<Rightarrow> usize \<Rightarrow> c_int \<Rightarrow> aspace \<Rightarrow> aspace" where
  "try_mprotect k addr sz prot a =
     (case mprotect_mte_aware k addr sz prot a of None \<Rightarrow> a | Some a' \<Rightarrow> a')"

section \<open>The stack of a program\<close>

definition ELF_STACK_SIZE :: usize where
  "ELF_STACK_SIZE = 8 * 1024 * 1024"

text \<open>
  \<open>place\<close> is the address the kernel chooses for the anonymous mapping, \<^const>\<open>None\<close> when it
  refuses; \<open>page\<close> is \<^verbatim>\<open>sysconf(_SC_PAGESIZE)\<close>. The result \<^const>\<open>None\<close> is a null pointer.
\<close>

definition alloc_elf_stack ::
  "kernel \<Rightarrow> usize \<Rightarrow> usize option \<Rightarrow> usize \<Rightarrow> aspace \<Rightarrow> usize option \<times> aspace" where
  "alloc_elf_stack k page place sz a =
     (let guard_size = page; total = guard_size + sz
      in case Option.bind place (\<lambda>bs. map_option (\<lambda>a1. (bs, a1)) (mmap_fixed k bs total PROT_NONE a)) of
           None \<Rightarrow> (None, a)
         | Some (bs, a1) \<Rightarrow>
             (let stack_start = bs + guard_size
              in case mmap_fixed k stack_start sz (PROT_READ OR PROT_WRITE) a1 of
                   None \<Rightarrow> (None, munmap bs total a1)
                 | Some a2 \<Rightarrow> (Some stack_start, a2)))"

definition free_elf_stack :: "usize \<Rightarrow> usize \<Rightarrow> usize \<Rightarrow> aspace \<Rightarrow> aspace" where
  "free_elf_stack page ptr sz a = munmap (ptr - page) (page + sz) a"

section \<open>Snapshots of writable segments\<close>

record WritableSegment =
  ws_addr :: usize
  ws_data :: "u8 list"
  orig_flags :: u32

fun save_writable_segments :: "usize \<Rightarrow> Phdr list \<Rightarrow> aspace \<Rightarrow> WritableSegment list option" where
  "save_writable_segments bs [] a = Some []"
| "save_writable_segments bs (phdr # phdrs) a =
     (if p_type phdr \<noteq> PT_LOAD \<or> p_flags phdr AND PF_W = 0 \<or> p_memsz phdr = 0
      then save_writable_segments bs phdrs a
      else Option.bind (peek a (bs + p_vaddr phdr) (unat (p_memsz phdr))) (\<lambda>slice.
           map_option (\<lambda>segs. \<lparr>ws_addr = bs + p_vaddr phdr, ws_data = slice, orig_flags = p_flags phdr\<rparr> # segs)
             (save_writable_segments bs phdrs a)))"

definition restore_prot :: "u32 \<Rightarrow> c_int" where
  "restore_prot flags =
     (let prot = prot_from_flags flags in if prot AND PROT_WRITE = 0 then prot OR PROT_WRITE else prot)"

definition restore_one :: "kernel \<Rightarrow> WritableSegment \<Rightarrow> aspace \<Rightarrow> aspace option" where
  "restore_one k seg a =
     (let sz = of_nat (length (ws_data seg)) :: usize;
          page_start = ws_addr seg AND NOT 0xfff;
          page_end = (ws_addr seg + sz + 0xfff) AND NOT 0xfff;
          page_size = page_end - page_start
      in if sz = 0 then Some a
         else (case mprotect_mte_aware k page_start page_size (PROT_READ OR PROT_WRITE) a of
                 None \<Rightarrow> Some a
               | Some a1 \<Rightarrow>
                   map_option (try_mprotect k page_start page_size (restore_prot (orig_flags seg)))
                     (copy_bytes (ws_addr seg) (ws_data seg) a1)))"

fun restore_writable_segments :: "kernel \<Rightarrow> WritableSegment list \<Rightarrow> aspace \<Rightarrow> aspace option" where
  "restore_writable_segments k [] a = Some a"
| "restore_writable_segments k (seg # segs) a =
     Option.bind (restore_one k seg a) (restore_writable_segments k segs)"

section \<open>The dynamic section\<close>

definition DT_INIT :: u64 where [simp]: "DT_INIT = 12"
definition DT_INIT_ARRAY :: u64 where [simp]: "DT_INIT_ARRAY = 25"
definition DT_STRTAB :: u64 where [simp]: "DT_STRTAB = 5"
definition DT_SYMTAB :: u64 where [simp]: "DT_SYMTAB = 6"
definition DT_JMPREL :: u64 where [simp]: "DT_JMPREL = 23"
definition DT_PLTRELSZ :: u64 where [simp]: "DT_PLTRELSZ = 2"

definition dyn_phdr :: "Phdr list \<Rightarrow> Phdr option" where
  "dyn_phdr phdrs = List.find (\<lambda>p. p_type p = PT_DYNAMIC) phdrs"

text \<open>Address and number of the entries of 16 bytes.\<close>

definition dyn_entry :: "usize \<Rightarrow> nat \<Rightarrow> usize" where
  "dyn_entry dyn_addr i = dyn_addr + of_nat i * 16"

definition dyn_count :: "Phdr \<Rightarrow> nat" where
  "dyn_count p = unat (p_memsz p) div 16"

fun clear_loop :: "usize \<Rightarrow> nat list \<Rightarrow> aspace \<Rightarrow> aspace option" where
  "clear_loop dyn_addr [] a = Some a"
| "clear_loop dyn_addr (i # is) a =
     Option.bind (peek64 a (dyn_entry dyn_addr i)) (\<lambda>tag.
       if tag = DT_INIT_ARRAY \<or> tag = DT_INIT
       then Option.bind (poke64 (dyn_entry dyn_addr i + 8) 0 a) (clear_loop dyn_addr is)
       else clear_loop dyn_addr is a)"

definition clear_init_arrays :: "usize \<Rightarrow> Phdr list \<Rightarrow> aspace \<Rightarrow> aspace option" where
  "clear_init_arrays bs phdrs a =
     (case dyn_phdr phdrs of
        None \<Rightarrow> Some a
      | Some p \<Rightarrow> clear_loop (bs + p_vaddr p) [0..<dyn_count p] a)"

section \<open>Patching the global offset table\<close>

record got_tables =
  jmprel :: usize
  pltrelsz :: usize
  symtab :: usize
  strtab :: usize

definition got_tag :: "u64 \<Rightarrow> u64 \<Rightarrow> got_tables \<Rightarrow> got_tables" where
  "got_tag tag val g =
     (if tag = DT_JMPREL then g\<lparr>jmprel := val\<rparr>
      else if tag = DT_PLTRELSZ then g\<lparr>pltrelsz := val\<rparr>
      else if tag = DT_SYMTAB then g\<lparr>symtab := val\<rparr>
      else if tag = DT_STRTAB then g\<lparr>strtab := val\<rparr>
      else g)"

fun got_scan :: "aspace \<Rightarrow> usize \<Rightarrow> nat list \<Rightarrow> got_tables \<Rightarrow> got_tables option" where
  "got_scan a dyn_addr [] g = Some g"
| "got_scan a dyn_addr (i # is) g =
     Option.bind (peek64 a (dyn_entry dyn_addr i)) (\<lambda>tag.
     Option.bind (peek64 a (dyn_entry dyn_addr i + 8)) (\<lambda>val.
       got_scan a dyn_addr is (got_tag tag val g)))"

text \<open>\<^verbatim>\<open>CStr::from_ptr\<close>: the bytes up to the first null byte.\<close>

partial_function (option) cstr_at :: "aspace \<Rightarrow> usize \<Rightarrow> u8 list option" where
  "cstr_at a x =
     (if \<not> readable a x then None
      else if mbyte a x = Some 0 then Some []
      else Option.bind (cstr_at a (x + 1)) (\<lambda>bs. Some (the (mbyte a x) # bs)))"

definition INTERCEPTED :: "string list" where
  "INTERCEPTED =
     [''fork'', ''execve'', ''waitpid'', ''wait4'', ''pipe'', ''dup'', ''dup2'', ''close'', ''read'',
      ''write'', ''getpid'', ''getppid'', ''exit'', ''_exit'', ''kill'', ''getpgid'', ''setpgid'',
      ''raise'', ''open'', ''openat'', ''creat'', ''fstat'', ''lseek'', ''chdir'', ''getcwd'', ''poll'',
      ''select'', ''tcsetpgrp'', ''tcgetpgrp'', ''setsid'', ''getpgrp'', ''pipe2'']"

text \<open>The address of the interceptor for a name; \<open>ours\<close> gives the addresses of the functions.\<close>

definition our_addr :: "(string \<Rightarrow> usize) \<Rightarrow> u8 list \<Rightarrow> usize option" where
  "our_addr ours name =
     (if name = bytes_of ''vfork'' then Some (ours ''fork'')
      else map_option ours (List.find (\<lambda>s. bytes_of s = name) INTERCEPTED))"

text \<open>The patch for one relocation: \<^term>\<open>Some None\<close> when it is skipped.\<close>

definition got_patch ::
  "(string \<Rightarrow> usize) \<Rightarrow> aspace \<Rightarrow> usize \<Rightarrow> got_tables \<Rightarrow> nat \<Rightarrow> (usize \<times> usize) option option" where
  "got_patch ours a bs g i =
     (let rela = jmprel g + bs + of_nat i * 24
      in Option.bind (peek64 a (rela + 8)) (\<lambda>r_info.
         Option.bind (peek64 a rela) (\<lambda>r_offset.
           if rela_type r_info \<noteq> R_AARCH64_JUMP_SLOT then Some None
           else Option.bind (peek32 a (symtab g + bs + ucast (rela_sym r_info) * 24)) (\<lambda>st_name.
                Option.bind (cstr_at a (strtab g + bs + ucast st_name)) (\<lambda>name.
                  if utf8_lossy name \<noteq> name then Some None
                  else Some (map_option (\<lambda>target. (bs + r_offset, target)) (our_addr ours name)))))))"

fun got_patches ::
  "(string \<Rightarrow> usize) \<Rightarrow> aspace \<Rightarrow> usize \<Rightarrow> got_tables \<Rightarrow> nat list \<Rightarrow> (usize \<times> usize) list option" where
  "got_patches ours a bs g [] = Some []"
| "got_patches ours a bs g (i # is) =
     Option.bind (got_patch ours a bs g i) (\<lambda>p.
       map_option (\<lambda>ps. case p of None \<Rightarrow> ps | Some e \<Rightarrow> e # ps) (got_patches ours a bs g is))"

fun apply_patches :: "(usize \<times> usize) list \<Rightarrow> aspace \<Rightarrow> aspace option" where
  "apply_patches [] a = Some a"
| "apply_patches ((got_entry, target) # ps) a = Option.bind (poke64 got_entry target a) (apply_patches ps)"

text \<open>The pages of the patched entries, in the order of a \<^verbatim>\<open>BTreeSet\<close>.\<close>

definition got_pages :: "(usize \<times> usize) list \<Rightarrow> usize list" where
  "got_pages patches = sort (remdups (map (\<lambda>(e, t). e AND NOT 0xfff) patches))"

definition patch_pages :: "kernel \<Rightarrow> (usize \<times> usize) list \<Rightarrow> aspace \<Rightarrow> aspace option" where
  "patch_pages k patches a =
     (if patches = [] then Some a
      else (let pages = got_pages patches;
                a1 = fold (\<lambda>page. try_mprotect k page 0x2000 (PROT_READ OR PROT_WRITE)) pages a
            in map_option (fold (\<lambda>page. try_mprotect k page 0x2000 PROT_READ) pages)
                 (apply_patches patches a1)))"

definition patch_got_for_loaded_binary ::
  "kernel \<Rightarrow> (string \<Rightarrow> usize) \<Rightarrow> usize \<Rightarrow> Phdr list \<Rightarrow> aspace \<Rightarrow> aspace option" where
  "patch_got_for_loaded_binary k ours bs phdrs a =
     (case dyn_phdr phdrs of
        None \<Rightarrow> Some a
      | Some p \<Rightarrow>
          Option.bind (got_scan a (bs + p_vaddr p) [0..<dyn_count p] \<lparr>jmprel = 0, pltrelsz = 0, symtab = 0, strtab = 0\<rparr>)
            (\<lambda>g. if jmprel g = 0 \<or> symtab g = 0 \<or> strtab g = 0 \<or> pltrelsz g = 0 then Some a
                 else Option.bind (got_patches ours a bs g [0..<unat (pltrelsz g) div 24])
                        (\<lambda>patches. patch_pages k patches a)))"

section \<open>Instructions\<close>

text \<open>
  \<^verbatim>\<open>decode_adrp\<close>: the immediate is an \<^verbatim>\<open>i32\<close> shifted left and right by 12 bits, then widened with
  its sign.
\<close>

definition adrp_imm :: "u32 \<Rightarrow> c_int" where
  "adrp_imm insn =
     (let immlo = drop_bit 29 insn AND 0x3; immhi = drop_bit 5 insn AND 0x7FFFF
      in push_bit 2 immhi OR immlo)"

definition decode_adrp :: "usize \<Rightarrow> u32 \<Rightarrow> usize" where
  "decode_adrp pc insn =
     (let imm = signed_drop_bit 12 (push_bit 12 (adrp_imm insn)) :: c_int
      in (pc AND NOT 0xFFF) + push_bit 12 (scast imm))"

definition is_ldr_x2 :: "u32 \<Rightarrow> bool" where
  "is_ldr_x2 insn \<longleftrightarrow> insn AND 0xFFC0001F = 0xF9400002"

definition is_adrp :: "u32 \<Rightarrow> u32 \<Rightarrow> bool" where
  "is_adrp rn insn \<longleftrightarrow> insn AND 0x9F000000 = 0x90000000 \<and> insn AND 0x1F = rn"

definition is_add_imm :: "u32 \<Rightarrow> u32 \<Rightarrow> bool" where
  "is_add_imm rn insn \<longleftrightarrow>
     insn AND 0xFFC00000 = 0x91000000 \<and> insn AND 0x1F = rn \<and> drop_bit 5 insn AND 0x1F = rn"

definition imm12 :: "u32 \<Rightarrow> usize" where
  "imm12 insn = ucast (drop_bit 10 insn AND 0xFFF)"

definition insn_at :: "aspace \<Rightarrow> usize \<Rightarrow> nat \<Rightarrow> u32 option" where
  "insn_at a entry_addr i = peek32 a (entry_addr + of_nat i * 4)"

fun find_addend :: "aspace \<Rightarrow> usize \<Rightarrow> u32 \<Rightarrow> nat list \<Rightarrow> usize \<Rightarrow> usize option" where
  "find_addend a e rn [] acc = Some acc"
| "find_addend a e rn (j # js) acc =
     Option.bind (insn_at a e j) (\<lambda>mid. find_addend a e rn js (if is_add_imm rn mid then imm12 mid else acc))"

text \<open>The backward search; \<^term>\<open>Some None\<close> when no instruction before gives an address.\<close>

fun search_back :: "aspace \<Rightarrow> usize \<Rightarrow> u32 \<Rightarrow> usize \<Rightarrow> nat \<Rightarrow> nat list \<Rightarrow> usize option option" where
  "search_back a e rn ldr_imm i [] = Some None"
| "search_back a e rn ldr_imm i (j # js) =
     Option.bind (insn_at a e j) (\<lambda>adrp_insn.
       if \<not> is_adrp rn adrp_insn then search_back a e rn ldr_imm i js
       else Option.bind (find_addend a e rn [Suc j..<i] 0) (\<lambda>addend.
            Option.bind (peek64 a (decode_adrp (e + of_nat j * 4) adrp_insn + addend + ldr_imm * 8)) (\<lambda>main_addr.
              if main_addr \<noteq> 0 \<and> main_addr mod 4 = 0 then Some (Some main_addr)
              else search_back a e rn ldr_imm i js)))"

fun scan_start :: "aspace \<Rightarrow> usize \<Rightarrow> nat list \<Rightarrow> usize option option" where
  "scan_start a e [] = Some None"
| "scan_start a e (i # is) =
     Option.bind (insn_at a e i) (\<lambda>insn.
       if \<not> is_ldr_x2 insn then scan_start a e is
       else Option.bind (search_back a e (drop_bit 5 insn AND 0x1F) (imm12 insn) i (rev [0..<i])) (\<lambda>r.
              case r of Some m \<Rightarrow> Some (Some m) | None \<Rightarrow> scan_start a e is))"

definition extract_main_addr :: "aspace \<Rightarrow> usize \<Rightarrow> usize option option" where
  "extract_main_addr a entry_addr = scan_start a entry_addr [0..<48]"

text \<open>The branch written over the first 16 bytes of a function.\<close>

definition write_inline_hook :: "kernel \<Rightarrow> usize \<Rightarrow> usize \<Rightarrow> aspace \<Rightarrow> (bool \<times> aspace) option" where
  "write_inline_hook k func_addr target a =
     (let page = func_addr AND NOT 0xfff
      in case mprotect_mte_aware k page 0x2000 (PROT_READ OR PROT_WRITE OR PROT_EXEC) a of
           None \<Rightarrow> Some (False, a)
         | Some a1 \<Rightarrow>
             Option.bind (copy_bytes (func_addr + 8) (put 8 target) a1) (\<lambda>a2.
             Option.bind (copy_bytes func_addr (put 4 (0x58000050 :: u32)) a2) (\<lambda>a3.
             map_option (\<lambda>a4. (True, try_mprotect k page 0x2000 (PROT_READ OR PROT_EXEC) a4))
               (copy_bytes (func_addr + 4) (put 4 (0xD61F0200 :: u32)) a3))))"

end
