(* ===== verification/Pipe.thy ===== *)
theory Pipe
  imports Prelude
begin

text \<open>
  The virtual pipe of \<^verbatim>\<open>src/src/vfd.rs\<close>: a ring buffer of 64 KiB with a closed flag
  (\<^verbatim>\<open>PipeBuffer\<close>, \<^verbatim>\<open>PipeBufferInner\<close>). The file holds the buffer and its operations, the
  contract of a bounded first-in first-out byte channel as the locale \<open>bounded_fifo\<close>, and
  the proof that the ring buffer implements it: reads deliver exactly the bytes that
  writes accepted, in order, and no index ever leaves the buffer.
\<close>

section \<open>The ring buffer\<close>

definition PIPE_CAPACITY :: nat where
  "PIPE_CAPACITY = 65536"

record pipe_buffer =
  buf :: "u8 list"
  read_pos :: nat
  write_pos :: nat
  len :: nat
  closed :: bool

definition pipe_new :: pipe_buffer where
  "pipe_new = \<lparr>buf = replicate PIPE_CAPACITY 0, read_pos = 0, write_pos = 0, len = 0,
     closed = False\<rparr>"

text \<open>
  The copying loops. An index outside the backing vector panics (\<^const>\<open>None\<close>).
\<close>

fun read_loop :: "nat \<Rightarrow> pipe_buffer \<Rightarrow> (u8 list \<times> pipe_buffer) option" where
  "read_loop 0 p = Some ([], p)"
| "read_loop (Suc n) p =
     (if read_pos p < length (buf p)
      then (case read_loop n (p\<lparr>read_pos := (read_pos p + 1) mod PIPE_CAPACITY\<rparr>) of
              None \<Rightarrow> None
            | Some (bs, p') \<Rightarrow> Some (buf p ! read_pos p # bs, p'))
      else None)"

text \<open>
  \<^verbatim>\<open>read_from\<close>: the returned count, the destination slice afterwards and the buffer.
\<close>

definition read_from :: "pipe_buffer \<Rightarrow> u8 list \<Rightarrow> (int \<times> u8 list \<times> pipe_buffer) option" where
  "read_from p dst =
     (if len p = 0 then
        (if closed p then Some (0, dst, p) else Some (- 1, dst, p))
      else
        (let n = min (length dst) (len p)
         in case read_loop n p of
              None \<Rightarrow> None
            | Some (bs, p') \<Rightarrow> Some (int n, bs @ drop n dst, p'\<lparr>len := len p' - n\<rparr>)))"

fun write_loop :: "u8 list \<Rightarrow> pipe_buffer \<Rightarrow> pipe_buffer option" where
  "write_loop [] p = Some p"
| "write_loop (b # bs) p =
     (if write_pos p < length (buf p)
      then write_loop bs (p\<lparr>buf := (buf p)[write_pos p := b],
                            write_pos := (write_pos p + 1) mod PIPE_CAPACITY\<rparr>)
      else None)"

definition write_to :: "pipe_buffer \<Rightarrow> u8 list \<Rightarrow> (int \<times> pipe_buffer) option" where
  "write_to p src =
     (if closed p then Some (- 1, p)
      else
        (let available = PIPE_CAPACITY - len p
         in if available = 0 then Some (- 1, p)
            else
              (let n = min (length src) available
               in case write_loop (take n src) p of
                    None \<Rightarrow> None
                  | Some p' \<Rightarrow> Some (int n, p'\<lparr>len := len p' + n\<rparr>))))"

definition pipe_close :: "pipe_buffer \<Rightarrow> pipe_buffer" where
  "pipe_close p = p\<lparr>closed := True\<rparr>"

definition is_closed :: "pipe_buffer \<Rightarrow> bool" where
  "is_closed p = closed p"

definition is_empty :: "pipe_buffer \<Rightarrow> bool" where
  "is_empty p \<longleftrightarrow> len p = 0"

definition is_full :: "pipe_buffer \<Rightarrow> bool" where
  "is_full p \<longleftrightarrow> len p = PIPE_CAPACITY"

section \<open>Well-formed buffers and the bytes they hold\<close>

definition pipe_ok :: "pipe_buffer \<Rightarrow> bool" where
  "pipe_ok p \<longleftrightarrow> length (buf p) = PIPE_CAPACITY \<and> read_pos p < PIPE_CAPACITY \<and>
     len p \<le> PIPE_CAPACITY \<and> write_pos p = (read_pos p + len p) mod PIPE_CAPACITY"

definition pipe_contents :: "pipe_buffer \<Rightarrow> u8 list" where
  "pipe_contents p = map (\<lambda>i. buf p ! ((read_pos p + i) mod PIPE_CAPACITY)) [0..<len p]"

lemma PIPE_CAPACITY_pos [simp]: "0 < PIPE_CAPACITY"
  by (simp add: PIPE_CAPACITY_def)

lemma length_pipe_contents [simp]: "length (pipe_contents p) = len p"
  by (simp add: pipe_contents_def)

lemma pipe_contents_Nil [simp]: "pipe_contents p = [] \<longleftrightarrow> len p = 0"
  by (metis length_0_conv length_pipe_contents)

lemma pipe_ok_new [inv_intros]: "pipe_ok pipe_new"
  by (simp add: pipe_ok_def pipe_new_def)

lemma pipe_new_sel [simp]: "len pipe_new = 0" "closed pipe_new = False"
  by (simp_all add: pipe_new_def)

lemma pipe_contents_new [simp]: "pipe_contents pipe_new = []"
  by (simp add: pipe_new_def)

lemma read_loop_spec:
  assumes "length (buf p) = PIPE_CAPACITY" and "read_pos p < PIPE_CAPACITY"
  shows "read_loop n p =
    Some (map (\<lambda>i. buf p ! ((read_pos p + i) mod PIPE_CAPACITY)) [0..<n],
          p\<lparr>read_pos := (read_pos p + n) mod PIPE_CAPACITY\<rparr>)"
  using assms
proof (induction n arbitrary: p)
  case 0
  then show ?case by simp
next
  case (Suc n)
  let ?p = "p\<lparr>read_pos := (read_pos p + 1) mod PIPE_CAPACITY\<rparr>"
  have "read_loop n ?p =
    Some (map (\<lambda>i. buf ?p ! ((read_pos ?p + i) mod PIPE_CAPACITY)) [0..<n],
          ?p\<lparr>read_pos := (read_pos ?p + n) mod PIPE_CAPACITY\<rparr>)"
    using Suc.prems by (intro Suc.IH) simp_all
  moreover have "map (\<lambda>i. buf p ! ((read_pos p + i) mod PIPE_CAPACITY)) [0..<Suc n] =
    buf p ! read_pos p # map (\<lambda>i. buf p ! ((read_pos p + Suc i) mod PIPE_CAPACITY)) [0..<n]"
    using Suc.prems by (simp add: upt_conv_Cons map_Suc_upt[symmetric] comp_def del: upt_Suc)
  ultimately show ?case
    using Suc.prems by (simp add: mod_simps)
qed

lemma mod_add_eq_iff:
  fixes a i j c :: nat
  assumes "i < c" and "j < c"
  shows "(a + i) mod c = (a + j) mod c \<longleftrightarrow> i = j"
proof -
  define b where "b = a mod c"
  have b: "b < c" using assms by (simp add: b_def)
  have red: "(a + k) mod c = (if b + k < c then b + k else b + k - c)" if "k < c" for k
  proof -
    have "(a + k) mod c = (b + k) mod c" by (simp add: b_def mod_add_left_eq)
    then show ?thesis using that b by (simp add: le_mod_geq)
  qed
  show ?thesis using assms b by (auto simp: red split: if_splits)
qed

lemma write_loop_len:
  "write_loop bs (p\<lparr>len := k\<rparr>) = map_option (\<lambda>q. q\<lparr>len := k\<rparr>) (write_loop bs p)"
proof (induction bs arbitrary: p)
  case (Cons b bs)
  show ?case
    using Cons.IH [of "p\<lparr>buf := (buf p)[write_pos p := b],
      write_pos := (write_pos p + 1) mod PIPE_CAPACITY\<rparr>"] by (cases p) simp
qed simp

lemma pipe_push_byte:
  fixes p :: pipe_buffer and b :: u8
  assumes ok: "pipe_ok p" and room: "len p < PIPE_CAPACITY"
  defines "q \<equiv> p\<lparr>buf := (buf p)[write_pos p := b],
    write_pos := (write_pos p + 1) mod PIPE_CAPACITY, len := len p + 1\<rparr>"
  shows "pipe_ok q" and "pipe_contents q = pipe_contents p @ [b]"
proof -
  show "pipe_ok q" using assms by (simp add: pipe_ok_def mod_simps)
  have old: "buf q ! ((read_pos p + i) mod PIPE_CAPACITY) =
      buf p ! ((read_pos p + i) mod PIPE_CAPACITY)" if "i < len p" for i
    using that ok room mod_add_eq_iff [of i PIPE_CAPACITY "len p" "read_pos p"]
    by (simp add: q_def pipe_ok_def)
  have new: "buf q ! ((read_pos p + len p) mod PIPE_CAPACITY) = b"
    using ok by (simp add: q_def pipe_ok_def)
  have "read_pos q = read_pos p" "len q = Suc (len p)" by (simp_all add: q_def)
  then show "pipe_contents q = pipe_contents p @ [b]"
    using old new by (simp add: pipe_contents_def)
qed

lemma write_loop_spec:
  assumes "pipe_ok p" and "len p + length bs \<le> PIPE_CAPACITY"
  shows "\<exists>q. write_loop bs p = Some q \<and> len q = len p \<and> closed q = closed p \<and>
    pipe_ok (q\<lparr>len := len p + length bs\<rparr>) \<and>
    pipe_contents (q\<lparr>len := len p + length bs\<rparr>) = pipe_contents p @ bs"
  using assms
proof (induction bs arbitrary: p)
  case Nil
  then show ?case by simp
next
  case (Cons b bs)
  let ?r = "p\<lparr>buf := (buf p)[write_pos p := b],
    write_pos := (write_pos p + 1) mod PIPE_CAPACITY\<rparr>"
  let ?q = "?r\<lparr>len := len p + 1\<rparr>"
  have room: "len p < PIPE_CAPACITY" using Cons.prems by simp
  have "pipe_ok ?q" and cont: "pipe_contents ?q = pipe_contents p @ [b]"
    using pipe_push_byte [OF Cons.prems(1) room] by simp_all
  then obtain q where q: "write_loop bs ?q = Some q" "closed q = closed ?q"
      "pipe_ok (q\<lparr>len := len ?q + length bs\<rparr>)"
      "pipe_contents (q\<lparr>len := len ?q + length bs\<rparr>) = pipe_contents ?q @ bs"
    using Cons.IH [of ?q] Cons.prems(2) by auto
  have "write_loop bs ?r = Some (q\<lparr>len := len p\<rparr>)"
    using q(1) write_loop_len [where bs = bs and p = ?q and k = "len p"] by (cases p) simp
  moreover have "write_pos p < length (buf p)"
    using Cons.prems(1) by (simp add: pipe_ok_def)
  ultimately show ?case using q cont by simp
qed

lemma read_from_spec:
  assumes ok: "pipe_ok p"
  shows "\<exists>q. read_from p dst =
      Some (if len p = 0 then (if closed p then 0 else - 1) else int (min (length dst) (len p)),
            take (length dst) (pipe_contents p) @ drop (len p) dst, q) \<and>
    pipe_ok q \<and> pipe_contents q = drop (length dst) (pipe_contents p) \<and> closed q = closed p"
proof (cases "len p = 0")
  case True
  then show ?thesis using ok by (simp add: read_from_def)
next
  case False
  let ?n = "min (length dst) (len p)"
  let ?q = "p\<lparr>read_pos := (read_pos p + ?n) mod PIPE_CAPACITY, len := len p - ?n\<rparr>"
  let ?f = "\<lambda>i. buf p ! ((read_pos p + i) mod PIPE_CAPACITY)"
  have bytes: "map ?f [0..<?n] = take (length dst) (pipe_contents p)"
    by (auto simp: pipe_contents_def take_map min_def)
  have rest: "drop ?n dst = drop (len p) dst"
    by (simp add: min_def)
  have "read_from p dst = Some (int ?n, map ?f [0..<?n] @ drop ?n dst, ?q)"
    using False ok by (simp add: read_from_def Let_def read_loop_spec pipe_ok_def)
  moreover have "pipe_ok ?q"
  proof -
    have "((read_pos p + ?n) mod PIPE_CAPACITY + (len p - ?n)) mod PIPE_CAPACITY =
        (read_pos p + ?n + (len p - ?n)) mod PIPE_CAPACITY"
      by (rule mod_add_left_eq)
    then have "((read_pos p + ?n) mod PIPE_CAPACITY + (len p - ?n)) mod PIPE_CAPACITY =
        (read_pos p + len p) mod PIPE_CAPACITY"
      by simp
    then show ?thesis using ok by (simp add: pipe_ok_def le_diff_conv trans_le_add1)
  qed
  moreover have "pipe_contents ?q = drop (length dst) (pipe_contents p)"
    by (rule nth_equalityI) (auto simp: pipe_contents_def mod_simps min_def add.assoc)
  ultimately show ?thesis using False bytes rest by simp
qed

lemma write_to_spec:
  fixes p :: pipe_buffer and src :: "u8 list"
  assumes ok: "pipe_ok p"
  defines "n \<equiv> if closed p then 0 else min (length src) (PIPE_CAPACITY - len p)"
  shows "\<exists>q. write_to p src =
      Some (if closed p \<or> len p = PIPE_CAPACITY then - 1 else int n, q) \<and>
    pipe_ok q \<and> pipe_contents q = pipe_contents p @ take n src \<and> closed q = closed p"
proof (cases "closed p \<or> len p = PIPE_CAPACITY")
  case True
  then show ?thesis using ok by (auto simp: write_to_def n_def)
next
  case False
  with ok have room: "\<not> closed p" "0 < PIPE_CAPACITY - len p" "len p \<le> PIPE_CAPACITY"
    by (auto simp: pipe_ok_def)
  have n: "n = min (length src) (PIPE_CAPACITY - len p)" using room by (simp add: n_def)
  have len_n: "length (take n src) = n" by (simp add: n)
  have "len p + length (take n src) \<le> PIPE_CAPACITY" using room by (simp add: len_n) (simp add: n)
  then obtain q where "write_loop (take n src) p = Some q" "len q = len p" "closed q = closed p"
      "pipe_ok (q\<lparr>len := len p + n\<rparr>)"
      "pipe_contents (q\<lparr>len := len p + n\<rparr>) = pipe_contents p @ take n src"
    using write_loop_spec [OF ok] len_n by metis
  then show ?thesis using room False by (auto simp: write_to_def Let_def n)
qed

section \<open>The contract of a bounded byte channel\<close>

text \<open>
  An abstract channel is the list of bytes in flight and whether it is closed. A read of
  an empty channel returns 0 (end of file) when it is closed and -1 (try again) when it
  is not; a write to a closed or full channel returns -1.
\<close>

type_synonym 'b channel = "'b list \<times> bool"

fun fifo_read_spec :: "'b channel \<Rightarrow> 'b list \<Rightarrow> int \<times> 'b list \<times> 'b channel" where
  "fifo_read_spec (xs, c) dst =
     (if xs = [] then (if c then 0 else - 1) else int (min (length dst) (length xs)),
      take (length dst) xs @ drop (length xs) dst,
      (drop (length dst) xs, c))"

fun fifo_write_spec :: "nat \<Rightarrow> 'b channel \<Rightarrow> 'b list \<Rightarrow> int \<times> 'b channel" where
  "fifo_write_spec cap (xs, c) src =
     (let n = (if c then 0 else min (length src) (cap - length xs))
      in (if c \<or> length xs = cap then - 1 else int n, (xs @ take n src, c)))"

text \<open>A client's schedule of operations, and the bytes accepted and delivered on the way.\<close>

datatype 'b fifo_op = FRead "'b list" | FWrite "'b list" | FClose

fun fifo_run :: "('p \<Rightarrow> 'b list \<Rightarrow> (int \<times> 'b list \<times> 'p) option) \<Rightarrow>
    ('p \<Rightarrow> 'b list \<Rightarrow> (int \<times> 'p) option) \<Rightarrow> ('p \<Rightarrow> 'p) \<Rightarrow>
    'b fifo_op list \<Rightarrow> 'p \<Rightarrow> ('b list \<times> 'b list \<times> 'p) option" where
  "fifo_run rd wr cl [] p = Some ([], [], p)"
| "fifo_run rd wr cl (FRead dst # ops) p =
     (case rd p dst of None \<Rightarrow> None
      | Some (r, dst', q) \<Rightarrow> map_option (\<lambda>(acc, del, z). (acc, take (nat r) dst' @ del, z))
          (fifo_run rd wr cl ops q))"
| "fifo_run rd wr cl (FWrite src # ops) p =
     (case wr p src of None \<Rightarrow> None
      | Some (r, q) \<Rightarrow> map_option (\<lambda>(acc, del, z). (take (nat r) src @ acc, del, z))
          (fifo_run rd wr cl ops q))"
| "fifo_run rd wr cl (FClose # ops) p = fifo_run rd wr cl ops (cl p)"

locale bounded_fifo =
  fixes ok :: "'p \<Rightarrow> bool" and abs :: "'p \<Rightarrow> 'b channel" and cap :: nat
    and rd :: "'p \<Rightarrow> 'b list \<Rightarrow> (int \<times> 'b list \<times> 'p) option"
    and wr :: "'p \<Rightarrow> 'b list \<Rightarrow> (int \<times> 'p) option"
    and cl :: "'p \<Rightarrow> 'p"
  assumes read_refines: "ok p \<Longrightarrow> fifo_read_spec (abs p) dst = (r, d, a) \<Longrightarrow>
      \<exists>q. rd p dst = Some (r, d, q) \<and> ok q \<and> abs q = a"
    and write_refines: "ok p \<Longrightarrow> fifo_write_spec cap (abs p) src = (r, a) \<Longrightarrow>
      \<exists>q. wr p src = Some (r, q) \<and> ok q \<and> abs q = a"
    and close_refines: "ok p \<Longrightarrow> ok (cl p) \<and> abs (cl p) = (fst (abs p), True)"
begin

lemma run_conserves:
  "ok p \<Longrightarrow> \<exists>acc del q. fifo_run rd wr cl ops p = Some (acc, del, q) \<and> ok q \<and>
     fst (abs p) @ acc = del @ fst (abs q)"
proof (induction ops arbitrary: p)
  case Nil
  then show ?case by simp
next
  case (Cons op ops)
  obtain xs c where p: "abs p = (xs, c)" by fastforce
  show ?case
  proof (cases op)
    case (FRead dst)
    let ?r = "if xs = [] then (if c then 0 else - 1) else int (min (length dst) (length xs))"
    obtain q where q: "rd p dst = Some (?r, take (length dst) xs @ drop (length xs) dst, q)"
        "ok q" "abs q = (drop (length dst) xs, c)"
      using read_refines [OF Cons.prems, of dst] p by (metis fifo_read_spec.simps)
    obtain acc del z where IH: "fifo_run rd wr cl ops q = Some (acc, del, z)" "ok z"
        "drop (length dst) xs @ acc = del @ fst (abs z)"
      using Cons.IH [OF q(2)] q(3) by auto
    have "take (nat ?r) (take (length dst) xs @ drop (length xs) dst) = take (length dst) xs"
      by (auto simp: min_def)
    moreover have "xs @ acc = take (length dst) xs @ del @ fst (abs z)"
      by (metis IH(3) append.assoc append_take_drop_id)
    ultimately show ?thesis using FRead q(1) IH(1,2) p by simp
  next
    case (FWrite src)
    let ?n = "if c then 0 else min (length src) (cap - length xs)"
    let ?r = "if c \<or> length xs = cap then - 1 else int ?n"
    obtain q where q: "wr p src = Some (?r, q)" "ok q" "abs q = (xs @ take ?n src, c)"
      using write_refines [OF Cons.prems, of src] p by (metis fifo_write_spec.simps)
    obtain acc del z where IH: "fifo_run rd wr cl ops q = Some (acc, del, z)" "ok z"
        "(xs @ take ?n src) @ acc = del @ fst (abs z)"
      using Cons.IH [OF q(2)] q(3) by auto
    have "take (nat ?r) src = take ?n src" by auto
    then show ?thesis using FWrite q(1) IH p by simp
  next
    case FClose
    then show ?thesis
      using Cons.IH [of "cl p"] close_refines [OF Cons.prems] p by auto
  qed
qed

lemma drained_then_eof:
  assumes "ok p" and "length (fst (abs p)) \<le> length dst"
  shows "\<exists>d q q'. rd (cl p) dst = Some (int (length (fst (abs p))), d, q) \<and>
    take (length (fst (abs p))) d = fst (abs p) \<and> rd q dst2 = Some (0, dst2, q')"
proof -
  let ?xs = "fst (abs p)"
  have cl: "ok (cl p)" "abs (cl p) = (?xs, True)" using close_refines [OF assms(1)] by auto
  have "fifo_read_spec (abs (cl p)) dst =
      (int (length ?xs), take (length dst) ?xs @ drop (length ?xs) dst, ([], True))"
    using assms(2) cl(2) by auto
  then obtain q where q: "rd (cl p) dst =
        Some (int (length ?xs), take (length dst) ?xs @ drop (length ?xs) dst, q)"
      "ok q" "abs q = ([], True)"
    using read_refines [OF cl(1)] by metis
  have "fifo_read_spec (abs q) dst2 = (0, dst2, ([], True))" using q(3) by simp
  then obtain q' where "rd q dst2 = Some (0, dst2, q')" using read_refines [OF q(2)] by metis
  then show ?thesis using q(1) assms(2) by auto
qed

lemma closed_rejects_writes:
  assumes "ok p"
  shows "\<exists>q. wr (cl p) src = Some (- 1, q) \<and> abs q = abs (cl p)"
proof -
  have cl: "ok (cl p)" "abs (cl p) = (fst (abs p), True)" using close_refines [OF assms] by auto
  have "fifo_write_spec cap (abs (cl p)) src = (- 1, abs (cl p))" using cl(2) by simp
  then show ?thesis using write_refines [OF cl(1)] by metis
qed

end

section \<open>The ring buffer implements the contract\<close>

definition pipe_abs :: "pipe_buffer \<Rightarrow> u8 channel" where
  "pipe_abs p = (pipe_contents p, closed p)"

interpretation ring: bounded_fifo pipe_ok pipe_abs PIPE_CAPACITY read_from write_to pipe_close
proof unfold_locales
  fix p dst r d a
  assume "pipe_ok p" and "fifo_read_spec (pipe_abs p) dst = (r, d, a)"
  then show "\<exists>q. read_from p dst = Some (r, d, q) \<and> pipe_ok q \<and> pipe_abs q = a"
    using read_from_spec [of p dst] by (auto simp: pipe_abs_def)
next
  fix p src r a
  assume "pipe_ok p" and "fifo_write_spec PIPE_CAPACITY (pipe_abs p) src = (r, a)"
  then show "\<exists>q. write_to p src = Some (r, q) \<and> pipe_ok q \<and> pipe_abs q = a"
    using write_to_spec [of p src] by (auto simp: pipe_abs_def Let_def)
next
  fix p
  assume "pipe_ok p"
  then show "pipe_ok (pipe_close p) \<and> pipe_abs (pipe_close p) = (fst (pipe_abs p), True)"
    by (simp add: pipe_abs_def pipe_close_def pipe_ok_def pipe_contents_def)
qed

lemmas pipe_ok_close [inv_intros] = ring.close_refines [THEN conjunct1]

lemma read_from_result:
  assumes "pipe_ok p" and "read_from p dst = Some (r, d, q)"
  shows "pipe_ok q" and "fifo_read_spec (pipe_abs p) dst = (r, d, pipe_abs q)"
proof -
  obtain r' d' a where spec: "fifo_read_spec (pipe_abs p) dst = (r', d', a)"
    by (metis prod_cases3)
  then show "pipe_ok q" and "fifo_read_spec (pipe_abs p) dst = (r, d, pipe_abs q)"
    using ring.read_refines [OF assms(1) spec] assms(2) by auto
qed

lemma write_to_result:
  assumes "pipe_ok p" and "write_to p src = Some (r, q)"
  shows "pipe_ok q" and "fifo_write_spec PIPE_CAPACITY (pipe_abs p) src = (r, pipe_abs q)"
proof -
  obtain r' a where spec: "fifo_write_spec PIPE_CAPACITY (pipe_abs p) src = (r', a)"
    by (metis surj_pair)
  then show "pipe_ok q" and "fifo_write_spec PIPE_CAPACITY (pipe_abs p) src = (r, pipe_abs q)"
    using ring.write_refines [OF assms(1) spec] assms(2) by auto
qed

lemma read_from_no_panic: "pipe_ok p \<Longrightarrow> read_from p dst \<noteq> None"
  using read_from_spec by (metis option.distinct(1))

lemma write_to_no_panic: "pipe_ok p \<Longrightarrow> write_to p src \<noteq> None"
  using write_to_spec by (metis option.distinct(1))

section \<open>Properties\<close>

text \<open>
  C1. The ring buffer refines the abstract bounded channel: on every well-formed buffer
  \<^verbatim>\<open>read_from\<close> and \<^verbatim>\<open>write_to\<close> never index out of range, return the code and the bytes the
  channel specification gives (end of file, try again, broken pipe and short counts
  included), and leave a well-formed buffer that holds the specified bytes.
\<close>

theorem pipe_refines_channel:
  assumes "pipe_ok p"
  shows "(\<exists>q. read_from p dst =
          Some (fst (fifo_read_spec (pipe_abs p) dst), fst (snd (fifo_read_spec (pipe_abs p) dst)), q) \<and>
          pipe_ok q \<and> pipe_abs q = snd (snd (fifo_read_spec (pipe_abs p) dst)))
    \<and> (\<exists>q. write_to p src = Some (fst (fifo_write_spec PIPE_CAPACITY (pipe_abs p) src), q) \<and>
          pipe_ok q \<and> pipe_abs q = snd (fifo_write_spec PIPE_CAPACITY (pipe_abs p) src))"
  using ring.read_refines [OF assms, of dst] ring.write_refines [OF assms, of src]
  by (metis prod.collapse)

theorem pipe_refines_channel_witness:
  "pipe_ok pipe_new \<and> (\<exists>q. read_from pipe_new [7] = Some (- 1, [7], q)) \<and>
   (\<exists>q. write_to pipe_new [1, 2] = Some (2, q) \<and> pipe_contents q = [1, 2])"
proof -
  have abs: "pipe_abs pipe_new = ([], False)" by (simp add: pipe_abs_def)
  have "min (length [1, 2 :: u8]) (PIPE_CAPACITY - length ([] :: u8 list)) = 2"
    by (simp add: PIPE_CAPACITY_def)
  then have wr: "fifo_write_spec PIPE_CAPACITY ([], False) [1, 2 :: u8] = (2, [1, 2], False)"
    by (simp add: Let_def)
  show ?thesis
    using pipe_refines_channel [OF pipe_ok_new, of "[7]" "[1, 2]"] pipe_ok_new
    unfolding abs wr by (simp add: pipe_abs_def) blast
qed

text \<open>
  C2. Stream integrity of the virtual pipe: whatever sequence of reads, writes and closes
  is run on a new pipe, no operation panics, and the bytes the writes accepted are exactly
  the bytes the reads delivered followed by the bytes still in the buffer, in order.
\<close>

theorem pipe_stream_integrity:
  "\<exists>accepted delivered q.
     fifo_run read_from write_to pipe_close ops pipe_new = Some (accepted, delivered, q) \<and>
     pipe_ok q \<and> accepted = delivered @ pipe_contents q"
  using ring.run_conserves [OF pipe_ok_new, of ops] by (simp add: pipe_abs_def)

text \<open>
  Closing a pipe gives end of file and broken pipe: a read large enough for the bytes
  in flight delivers all of them, the read after it returns 0, and every write returns -1
  and changes nothing.
\<close>

theorem pipe_close_eof:
  assumes "pipe_ok p" and "length (pipe_contents p) \<le> length dst"
  shows "(\<exists>d q q'. read_from (pipe_close p) dst = Some (int (length (pipe_contents p)), d, q) \<and>
      take (length (pipe_contents p)) d = pipe_contents p \<and> read_from q dst2 = Some (0, dst2, q'))
    \<and> (\<exists>q. write_to (pipe_close p) src = Some (- 1, q) \<and> pipe_contents q = pipe_contents p)"
  using ring.drained_then_eof [of p dst dst2] ring.closed_rejects_writes [of p src]
    ring.close_refines [of p] assms
  by (auto simp: pipe_abs_def)

theorem pipe_close_eof_witness:
  "pipe_ok pipe_new \<and> (\<exists>q. write_to (pipe_close pipe_new) [1] = Some (- 1, q))"
  using pipe_close_eof [OF pipe_ok_new, of "[]" "[]" "[1]"] pipe_ok_new by auto

end
