(* ===== verification/Vfd.thy ===== *)
theory Vfd
  imports Pipe
begin

text \<open>
  The virtual file descriptor tables of \<^verbatim>\<open>src/src/vfd.rs\<close>: one table per virtual process
  (\<^verbatim>\<open>VfdTable\<close>) and the global map from virtual process ids to tables. Shared objects
  (\<^verbatim>\<open>Arc\<close>) are addresses in an explicit store, so that aliasing by \<^verbatim>\<open>dup\<close> and \<^verbatim>\<open>fork\<close> is
  visible; an \<^verbatim>\<open>Arc<FileRef>\<close> is immutable and carried with its address. The strong count
  of an \<^verbatim>\<open>Arc\<close> is the number of table entries that hold it, since nothing else keeps one.
\<close>

section \<open>Descriptors, tables and the store\<close>

type_synonym arc = nat

record file_ref =
  real_fd :: c_int
  cloexec :: bool

datatype vfd = Real c_int | File arc file_ref | PipeRead arc | PipeWrite arc

record vfd_table =
  fds :: "(u32, vfd) hmap"
  next_fd :: u32

record store =
  pipes :: "arc \<Rightarrow> pipe_buffer option"
  next_arc :: arc

definition EBADF :: c_int where
  "EBADF = 9"

definition vt_new_with_fds :: "c_int \<Rightarrow> c_int \<Rightarrow> c_int \<Rightarrow> vfd_table" where
  "vt_new_with_fds stdin stdout stderr =
     \<lparr>fds = hm_insert 2 (Real stderr) (hm_insert 1 (Real stdout) (hm_insert 0 (Real stdin) [])),
      next_fd = 3\<rparr>"

definition vt_new :: vfd_table where
  "vt_new =
     \<lparr>fds = hm_insert 2 (Real 2) (hm_insert 1 (Real 1) (hm_insert 0 (Real 0) [])),
      next_fd = 3\<rparr>"

text \<open>The real kernel descriptor behind an entry; a virtual pipe end has none.\<close>

fun backing_fd :: "vfd \<Rightarrow> c_int option" where
  "backing_fd (Real r) = Some r"
| "backing_fd (File a f) = Some (real_fd f)"
| "backing_fd (PipeRead a) = None"
| "backing_fd (PipeWrite a) = None"

definition get_real_fds_012 :: "vfd_table \<Rightarrow> (c_int \<times> c_int \<times> c_int) option" where
  "get_real_fds_012 t =
     Option.bind (Option.bind (hm_get (fds t) 0) backing_fd) (\<lambda>fd0.
     Option.bind (Option.bind (hm_get (fds t) 1) backing_fd) (\<lambda>fd1.
     Option.bind (Option.bind (hm_get (fds t) 2) backing_fd) (\<lambda>fd2.
     Some (fd0, fd1, fd2))))"

section \<open>Table operations\<close>

text \<open>
  \<^verbatim>\<open>alloc_fd\<close>: hands out the counter and moves it past used descriptors. The loop has no
  bound of its own: \<^const>\<open>None\<close> is a table in which every descriptor is taken, where it
  runs forever.
\<close>

definition alloc_fd :: "vfd_table \<Rightarrow> (u32 \<times> vfd_table) option" where
  "alloc_fd t =
     (let fd = next_fd t
      in map_option (\<lambda>n. (fd, t\<lparr>next_fd := n\<rparr>))
           (while_option (\<lambda>n. hm_contains (fds t) n) (\<lambda>n. n + 1) (fd + 1)))"

definition vt_insert :: "vfd \<Rightarrow> vfd_table \<Rightarrow> (u32 \<times> vfd_table) option" where
  "vt_insert v t =
     map_option (\<lambda>(fd, t'). (fd, t'\<lparr>fds := hm_insert fd v (fds t')\<rparr>)) (alloc_fd t)"

definition vt_get :: "vfd_table \<Rightarrow> u32 \<Rightarrow> vfd option" where
  "vt_get t fd = hm_get (fds t) fd"

definition vt_remove :: "u32 \<Rightarrow> vfd_table \<Rightarrow> vfd_table" where
  "vt_remove fd t = t\<lparr>fds := hm_remove fd (fds t)\<rparr>"

text \<open>Writing the closed flag of a shared pipe buffer.\<close>

definition pipe_shut :: "arc \<Rightarrow> store \<Rightarrow> store" where
  "pipe_shut a st = st\<lparr>pipes := (pipes st)(a := map_option pipe_close (pipes st a))\<rparr>"

fun refs_pipe :: "arc \<Rightarrow> vfd \<Rightarrow> bool" where
  "refs_pipe a (PipeRead b) = (b = a)"
| "refs_pipe a (PipeWrite b) = (b = a)"
| "refs_pipe a (Real r) = False"
| "refs_pipe a (File b f) = False"

fun refs_file :: "arc \<Rightarrow> vfd \<Rightarrow> bool" where
  "refs_file a (File b f) = (b = a)"
| "refs_file a (PipeRead b) = False"
| "refs_file a (PipeWrite b) = False"
| "refs_file a (Real r) = False"

definition close_pipe_end :: "arc \<Rightarrow> u32 \<Rightarrow> store \<Rightarrow> vfd_table \<Rightarrow> store \<times> vfd_table" where
  "close_pipe_end a fd st t =
     (let t' = vt_remove fd t
      in (if list_ex (refs_pipe a) (hm_values (fds t')) then st else pipe_shut a st, t'))"

definition vt_close :: "u32 \<Rightarrow> store \<Rightarrow> vfd_table \<Rightarrow> (c_int, unit) rres \<times> store \<times> vfd_table" where
  "vt_close fd st t =
     (case hm_get (fds t) fd of
        Some (PipeRead a) \<Rightarrow> (Ok (), close_pipe_end a fd st t)
      | Some (PipeWrite a) \<Rightarrow> (Ok (), close_pipe_end a fd st t)
      | Some _ \<Rightarrow> (Ok (), st, vt_remove fd t)
      | None \<Rightarrow> (Err EBADF, st, t))"

definition vt_insert_at :: "u32 \<Rightarrow> vfd \<Rightarrow> store \<Rightarrow> vfd_table \<Rightarrow> store \<times> vfd_table" where
  "vt_insert_at fd v st t =
     (let (st1, t1) = (if hm_contains (fds t) fd then snd (vt_close fd st t) else (st, t));
          t2 = t1\<lparr>fds := hm_insert fd v (fds t1)\<rparr>
      in (st1, if next_fd t2 \<le> fd then t2\<lparr>next_fd := fd + 1\<rparr> else t2))"

definition vt_insert_file ::
  "c_int \<Rightarrow> bool \<Rightarrow> store \<Rightarrow> vfd_table \<Rightarrow> (u32 \<times> store \<times> vfd_table) option" where
  "vt_insert_file rfd ce st t =
     map_option (\<lambda>(fd, t').
        (fd, st\<lparr>next_arc := Suc (next_arc st)\<rparr>,
         t'\<lparr>fds := hm_insert fd (File (next_arc st) \<lparr>real_fd = rfd, cloexec = ce\<rparr>) (fds t')\<rparr>))
       (alloc_fd t)"

definition close_file_fd :: "u32 \<Rightarrow> vfd_table \<Rightarrow> c_int option \<times> vfd_table" where
  "close_file_fd fd t =
     (case hm_get (fds t) fd of
        Some (File a f) \<Rightarrow>
          (let t' = vt_remove fd t
           in (if list_ex (refs_file a) (hm_values (fds t')) then None else Some (real_fd f), t'))
      | _ \<Rightarrow> (None, t))"

fun is_cloexec :: "vfd \<Rightarrow> bool" where
  "is_cloexec (File a f) = cloexec f"
| "is_cloexec (Real r) = False"
| "is_cloexec (PipeRead a) = False"
| "is_cloexec (PipeWrite a) = False"

fun close_file_fds :: "u32 list \<Rightarrow> vfd_table \<Rightarrow> c_int list \<times> vfd_table" where
  "close_file_fds [] t = ([], t)"
| "close_file_fds (fd # rest) t =
     (let (r, t1) = close_file_fd fd t; (rs, t2) = close_file_fds rest t1
      in (case r of None \<Rightarrow> rs | Some rfd \<Rightarrow> rfd # rs, t2))"

definition close_cloexec :: "vfd_table \<Rightarrow> c_int list \<times> vfd_table" where
  "close_cloexec t =
     close_file_fds (map fst (filter (\<lambda>(fd, v). is_cloexec v) (fds t))) t"

text \<open>Cloning an entry shares the object behind it.\<close>

fun vfd_clone :: "vfd \<Rightarrow> vfd" where
  "vfd_clone (Real fd) = Real fd"
| "vfd_clone (File a f) = File a f"
| "vfd_clone (PipeRead a) = PipeRead a"
| "vfd_clone (PipeWrite a) = PipeWrite a"

definition vt_dup2 ::
  "u32 \<Rightarrow> u32 \<Rightarrow> store \<Rightarrow> vfd_table \<Rightarrow> (c_int, u32) rres \<times> store \<times> vfd_table" where
  "vt_dup2 old_fd new_fd st t =
     (let (st1, t1) = (if hm_contains (fds t) new_fd then snd (vt_close new_fd st t) else (st, t))
      in case hm_get (fds t1) old_fd of
           Some v \<Rightarrow> (Ok new_fd, st1, t1\<lparr>fds := hm_insert new_fd (vfd_clone v) (fds t1)\<rparr>)
         | None \<Rightarrow> (Err EBADF, st1, t1))"

definition vt_dup ::
  "u32 \<Rightarrow> store \<Rightarrow> vfd_table \<Rightarrow> ((c_int, u32) rres \<times> store \<times> vfd_table) option" where
  "vt_dup old_fd st t = map_option (\<lambda>(new_fd, t'). vt_dup2 old_fd new_fd st t') (alloc_fd t)"

definition create_pipe :: "store \<Rightarrow> vfd_table \<Rightarrow> (u32 \<times> u32 \<times> store \<times> vfd_table) option" where
  "create_pipe st t =
     (let a = next_arc st;
          st' = st\<lparr>pipes := (pipes st)(a \<mapsto> pipe_new), next_arc := Suc a\<rparr>
      in Option.bind (alloc_fd t) (\<lambda>(rfd, t1).
         Option.bind (alloc_fd t1) (\<lambda>(wfd, t2).
         Some (rfd, wfd, st',
           t2\<lparr>fds := hm_insert wfd (PipeWrite a) (hm_insert rfd (PipeRead a) (fds t2))\<rparr>))))"

definition clone_for_fork :: "vfd_table \<Rightarrow> vfd_table" where
  "clone_for_fork t =
     \<lparr>fds = fold (\<lambda>(fd_num, v) m. hm_insert fd_num (vfd_clone v) m) (fds t) [],
      next_fd = next_fd t\<rparr>"

text \<open>The destructor of a table closes every pipe buffer it refers to, once each.\<close>

fun drop_loop :: "vfd list \<Rightarrow> arc list \<Rightarrow> store \<Rightarrow> store" where
  "drop_loop [] seen st = st"
| "drop_loop (PipeRead a # vs) seen st =
     (if a \<notin> set seen then drop_loop vs (seen @ [a]) (pipe_shut a st) else drop_loop vs seen st)"
| "drop_loop (PipeWrite a # vs) seen st =
     (if a \<notin> set seen then drop_loop vs (seen @ [a]) (pipe_shut a st) else drop_loop vs seen st)"
| "drop_loop (Real r # vs) seen st = drop_loop vs seen st"
| "drop_loop (File a f # vs) seen st = drop_loop vs seen st"

definition vt_drop :: "vfd_table \<Rightarrow> store \<Rightarrow> store" where
  "vt_drop t st = drop_loop (hm_values (fds t)) [] st"

section \<open>The global table map\<close>

record fd_world =
  wstore :: store
  tables :: "(u32, vfd_table) hmap"

definition fd_world_init :: fd_world where
  "fd_world_init = \<lparr>wstore = \<lparr>pipes = Map.empty, next_arc = 0\<rparr>, tables = []\<rparr>"

definition get_table :: "u32 \<Rightarrow> fd_world \<Rightarrow> vfd_table option" where
  "get_table vpid w = hm_get (tables w) vpid"

text \<open>Writing through the reference \<^verbatim>\<open>get_table\<close> returns.\<close>

definition put_table :: "u32 \<Rightarrow> store \<times> vfd_table \<Rightarrow> fd_world \<Rightarrow> fd_world" where
  "put_table vpid s w = w\<lparr>wstore := fst s, tables := hm_insert vpid (snd s) (tables w)\<rparr>"

definition get_or_create_table :: "u32 \<Rightarrow> fd_world \<Rightarrow> vfd_table \<times> fd_world" where
  "get_or_create_table vpid w =
     (case hm_get (tables w) vpid of
        Some t \<Rightarrow> (t, w)
      | None \<Rightarrow> (vt_new, w\<lparr>tables := hm_insert vpid vt_new (tables w)\<rparr>))"

text \<open>\<^verbatim>\<open>HashMap::insert\<close> and \<^verbatim>\<open>remove\<close> drop the table they displace.\<close>

definition drop_entry :: "u32 \<Rightarrow> fd_world \<Rightarrow> store" where
  "drop_entry vpid w =
     (case hm_get (tables w) vpid of None \<Rightarrow> wstore w | Some t \<Rightarrow> vt_drop t (wstore w))"

definition insert_table :: "u32 \<Rightarrow> vfd_table \<Rightarrow> fd_world \<Rightarrow> fd_world" where
  "insert_table vpid t w =
     w\<lparr>wstore := drop_entry vpid w, tables := hm_insert vpid t (tables w)\<rparr>"

definition fork_fd_table :: "u32 \<Rightarrow> u32 \<Rightarrow> fd_world \<Rightarrow> fd_world" where
  "fork_fd_table parent_vpid child_vpid w =
     (let child_table = (case hm_get (tables w) parent_vpid of
            Some parent_table \<Rightarrow> clone_for_fork parent_table
          | None \<Rightarrow> vt_new)
      in insert_table child_vpid child_table w)"

definition remove_table :: "u32 \<Rightarrow> fd_world \<Rightarrow> fd_world" where
  "remove_table vpid w =
     w\<lparr>wstore := drop_entry vpid w, tables := hm_remove vpid (tables w)\<rparr>"

definition strong_count :: "arc \<Rightarrow> fd_world \<Rightarrow> nat" where
  "strong_count a w =
     sum_list (map (\<lambda>(vpid, t). length (filter (refs_file a) (hm_values (fds t)))) (tables w))"

fun collect_fds :: "fd_world \<Rightarrow> vfd list \<Rightarrow> c_int list \<Rightarrow> arc list \<Rightarrow> c_int list" where
  "collect_fds w [] seen_real seen_file = []"
| "collect_fds w (Real fd # vs) seen_real seen_file =
     (if fd \<notin> set seen_real then fd # collect_fds w vs (seen_real @ [fd]) seen_file
      else collect_fds w vs seen_real seen_file)"
| "collect_fds w (File a f # vs) seen_real seen_file =
     (if a \<notin> set seen_file
      then (if strong_count a w = 1
            then real_fd f # collect_fds w vs seen_real (seen_file @ [a])
            else collect_fds w vs seen_real (seen_file @ [a]))
      else collect_fds w vs seen_real seen_file)"
| "collect_fds w (PipeRead a # vs) seen_real seen_file = collect_fds w vs seen_real seen_file"
| "collect_fds w (PipeWrite a # vs) seen_real seen_file = collect_fds w vs seen_real seen_file"

definition remove_table_and_get_fds :: "u32 \<Rightarrow> fd_world \<Rightarrow> c_int list \<times> fd_world" where
  "remove_table_and_get_fds vpid w =
     (case hm_get (tables w) vpid of
        None \<Rightarrow> ([], w)
      | Some t \<Rightarrow> (collect_fds w (hm_values (fds t)) [] [], remove_table vpid w))"

definition cleanup :: "fd_world \<Rightarrow> fd_world" where
  "cleanup w = w\<lparr>wstore := fold vt_drop (hm_values (tables w)) (wstore w), tables := []\<rparr>"

definition create_table_with_fds :: "u32 \<Rightarrow> c_int \<Rightarrow> c_int \<Rightarrow> c_int \<Rightarrow> fd_world \<Rightarrow> fd_world" where
  "create_table_with_fds vpid stdin stdout stderr w =
     insert_table vpid (vt_new_with_fds stdin stdout stderr) w"

definition get_real_fds :: "u32 \<Rightarrow> fd_world \<Rightarrow> (c_int \<times> c_int \<times> c_int) option" where
  "get_real_fds vpid w = Option.bind (get_table vpid w) get_real_fds_012"

end
