(* ===== verification/Vfd_Laws.thy ===== *)
theory Vfd_Laws
  imports Vfd
begin

text \<open>
  Laws of the descriptor tables: the allocator terminates and hands out unused numbers,
  every operation keeps the tables well formed and their references valid, and what a
  lookup returns after each operation. The namespace contract is the locale
  \<open>fd_namespace\<close>, interpreted on \<^const>\<open>vt_insert\<close> and \<^const>\<open>vt_remove\<close>.
\<close>

section \<open>Well-formed tables\<close>

definition vt_wf :: "vfd_table \<Rightarrow> bool" where
  "vt_wf t \<longleftrightarrow> hm_ok (fds t) \<and> (\<forall>k. hm_contains (fds t) k \<longrightarrow> k < next_fd t)"

text \<open>Room for \<open>n\<close> more descriptors before the 32-bit counter wraps.\<close>

definition vt_room :: "nat \<Rightarrow> vfd_table \<Rightarrow> bool" where
  "vt_room n t \<longleftrightarrow> unat (next_fd t) + n < 2 ^ 32"

lemma vt_wf_fresh: "vt_wf t \<Longrightarrow> \<not> hm_contains (fds t) (next_fd t)"
  by (auto simp: vt_wf_def)

lemma vt_wf_get_fresh: "vt_wf t \<Longrightarrow> hm_get (fds t) (next_fd t) = None"
  using vt_wf_fresh by (auto simp: hm_contains_def)

lemma unat_next_fd_Suc: "vt_room 1 t \<Longrightarrow> unat (next_fd t + 1) = unat (next_fd t) + 1"
  by (simp add: vt_room_def unat_word_ariths)

lemma vt_wf_new_with_fds [inv_intros]: "vt_wf (vt_new_with_fds i e r)"
  by (auto simp: vt_wf_def vt_new_with_fds_def)

lemma vt_wf_new [inv_intros]: "vt_wf vt_new"
  by (auto simp: vt_wf_def vt_new_def)

section \<open>The allocator\<close>

lemma free_fd_exists:
  assumes "length m < 2 ^ 32"
  shows "\<exists>k :: u32. \<not> hm_contains m k"
proof (rule ccontr)
  assume "\<not> ?thesis"
  then have "set (hm_keys m) = (UNIV :: u32 set)" by (auto simp: hm_contains_keys)
  then have "CARD(u32) \<le> length m" by (metis card_length length_hm_keys)
  then show False using assms by (simp add: card_word)
qed

lemma alloc_fd_total:
  assumes "length (fds t) < 2 ^ 32"
  shows "\<exists>n. alloc_fd t = Some (next_fd t, t\<lparr>next_fd := n\<rparr>) \<and> \<not> hm_contains (fds t) n"
proof -
  obtain k where k: "\<not> hm_contains (fds t) k" using free_fd_exists [OF assms] by blast
  let ?loop = "while_option (\<lambda>n. hm_contains (fds t) n) (\<lambda>n. n + 1) (next_fd t + 1)"
  have "\<exists>n. ?loop = Some n"
  proof (rule measure_while_option_Some [where P = "\<lambda>_. True" and f = "\<lambda>n. unat (k - n)"])
    fix n :: u32
    assume "hm_contains (fds t) n"
    with k have "k - n \<noteq> 0" by auto
    then have "unat (k - n - 1) < unat (k - n)"
      by (metis unat_minus_one diff_less less_one not_gr_zero unat_eq_zero)
    then show "True \<and> unat (k - (n + 1)) < unat (k - n)" by (simp add: diff_diff_add)
  qed simp
  then obtain n where n: "?loop = Some n" by blast
  then have "\<not> hm_contains (fds t) n" by (rule while_option_stop)
  with n show ?thesis by (auto simp: alloc_fd_def Let_def)
qed

lemma alloc_fd_wf:
  assumes "vt_wf t" and "vt_room 1 t"
  shows "alloc_fd t = Some (next_fd t, t\<lparr>next_fd := next_fd t + 1\<rparr>)"
proof -
  have "\<not> next_fd t + 1 < next_fd t"
    using unat_next_fd_Suc [OF assms(2)] by (simp add: word_less_nat_alt)
  then have "\<not> hm_contains (fds t) (next_fd t + 1)" using assms(1) by (auto simp: vt_wf_def)
  then show ?thesis by (simp add: alloc_fd_def Let_def while_option_unfold)
qed

lemma vt_wf_grow:
  assumes "vt_wf t" and "vt_room 1 t"
  shows "vt_wf (t\<lparr>next_fd := next_fd t + 1, fds := hm_insert (next_fd t) v (fds t)\<rparr>)"
    and "vt_wf (t\<lparr>next_fd := next_fd t + 1\<rparr>)"
  using assms unat_next_fd_Suc [OF assms(2)]
  by (auto simp: vt_wf_def word_less_nat_alt less_Suc_eq)

lemma vt_room_grow: "vt_room (Suc n) t \<Longrightarrow> vt_room n (t\<lparr>next_fd := next_fd t + 1\<rparr>)"
  by (simp add: vt_room_def unat_word_ariths)

lemma vt_room_mono: "vt_room n t \<Longrightarrow> m \<le> n \<Longrightarrow> vt_room m t"
  by (simp add: vt_room_def)

section \<open>The namespace contract\<close>

text \<open>
  What a client of a descriptor namespace relies on: an insertion picks a number that was
  not in use, changes no other entry and can be undone by removing it.
\<close>

locale fd_namespace =
  fixes wf :: "'t \<Rightarrow> bool" and room :: "'t \<Rightarrow> bool"
    and look :: "'t \<Rightarrow> 'k \<Rightarrow> 'v option"
    and ins :: "'v \<Rightarrow> 't \<Rightarrow> ('k \<times> 't) option"
    and rem :: "'k \<Rightarrow> 't \<Rightarrow> 't"
  assumes ins_law: "wf t \<Longrightarrow> room t \<Longrightarrow>
      \<exists>k t'. ins v t = Some (k, t') \<and> look t k = None \<and> look t' = (look t)(k \<mapsto> v) \<and> wf t'"
    and rem_law: "wf t \<Longrightarrow> wf (rem k t) \<and> look (rem k t) = (look t)(k := None)"
begin

lemma insD:
  assumes "wf t" and "room t" and "ins v t = Some (k, t')"
  shows "look t k = None" and "look t' = (look t)(k \<mapsto> v)" and "wf t'"
  using ins_law [OF assms(1,2), of v] assms(3) by auto

lemma ins_rem_restores:
  assumes "wf t" and "room t" and "ins v t = Some (k, t')"
  shows "look (rem k t') = look t"
proof -
  have "look (rem k t') = (look t')(k := None)" using insD [OF assms] rem_law by blast
  also have "\<dots> = (look t)(k := None)" by (simp add: insD(2) [OF assms])
  also have "\<dots> = look t" using insD(1) [OF assms] by (simp add: fun_upd_idem)
  finally show ?thesis .
qed

lemma ins_distinct:
  assumes "wf t" and "room t" and "ins v t = Some (k, t')" and "room t'" and "ins v' t' = Some (k', t'')"
  shows "k' \<noteq> k" and "look t'' k = Some v" and "look t'' k' = Some v'"
proof -
  note first = insD [OF assms(1-3)]
  note second = insD [OF first(3) assms(4,5)]
  show ne: "k' \<noteq> k" using first(2) second(1) by auto
  show "look t'' k = Some v" "look t'' k' = Some v'" using first(2) second(2) ne by auto
qed

end

interpretation fdt: fd_namespace vt_wf "vt_room 1" vt_get vt_insert vt_remove
proof unfold_locales
  fix t v
  assume wf: "vt_wf t" and room: "vt_room 1 t"
  let ?t = "t\<lparr>next_fd := next_fd t + 1, fds := hm_insert (next_fd t) v (fds t)\<rparr>"
  have "vt_insert v t = Some (next_fd t, ?t)"
    using alloc_fd_wf [OF wf room] by (cases t) (simp add: vt_insert_def)
  moreover have "vt_get ?t = (vt_get t)(next_fd t \<mapsto> v)"
    by (auto simp: vt_get_def)
  moreover have "vt_get t (next_fd t) = None"
    using vt_wf_get_fresh [OF wf] by (simp add: vt_get_def)
  ultimately show "\<exists>k t'. vt_insert v t = Some (k, t') \<and> vt_get t k = None \<and>
      vt_get t' = (vt_get t)(k \<mapsto> v) \<and> vt_wf t'"
    using vt_wf_grow(1) [OF wf room] by blast
next
  fix t k
  assume "vt_wf t"
  then show "vt_wf (vt_remove k t) \<and> vt_get (vt_remove k t) = (vt_get t)(k := None)"
    by (auto simp: vt_wf_def vt_remove_def vt_get_def)
qed

section \<open>Valid references\<close>

definition store_ok :: "store \<Rightarrow> bool" where
  "store_ok st \<longleftrightarrow> (\<forall>a p. pipes st a = Some p \<longrightarrow> a < next_arc st \<and> pipe_ok p)"

fun arc_ok :: "store \<Rightarrow> vfd \<Rightarrow> bool" where
  "arc_ok st (Real r) = True"
| "arc_ok st (File a f) = (a < next_arc st)"
| "arc_ok st (PipeRead a) = (pipes st a \<noteq> None)"
| "arc_ok st (PipeWrite a) = (pipes st a \<noteq> None)"

definition tab_ok :: "store \<Rightarrow> vfd_table \<Rightarrow> bool" where
  "tab_ok st t \<longleftrightarrow> vt_wf t \<and> (\<forall>k v. hm_get (fds t) k = Some v \<longrightarrow> arc_ok st v)"

definition store_le :: "store \<Rightarrow> store \<Rightarrow> bool" where
  "store_le st st' \<longleftrightarrow> dom (pipes st) \<subseteq> dom (pipes st') \<and> next_arc st \<le> next_arc st'"

lemma store_le_refl [simp]: "store_le st st"
  by (simp add: store_le_def)

lemma store_le_trans: "store_le a b \<Longrightarrow> store_le b c \<Longrightarrow> store_le a c"
  by (auto simp: store_le_def)

lemma arc_ok_mono: "arc_ok st v \<Longrightarrow> store_le st st' \<Longrightarrow> arc_ok st' v"
  by (cases v) (auto simp: store_le_def)

lemma tab_ok_mono: "tab_ok st t \<Longrightarrow> store_le st st' \<Longrightarrow> tab_ok st' t"
  unfolding tab_ok_def by (meson arc_ok_mono)

lemma vfd_clone_id [simp]: "vfd_clone v = v"
  by (cases v) auto

lemma pipe_shut_le [simp]: "store_le st (pipe_shut a st)"
  by (auto simp: store_le_def pipe_shut_def)

lemma pipe_shut_ok [inv_intros]: "store_ok st \<Longrightarrow> store_ok (pipe_shut a st)"
  using pipe_ok_close by (auto simp: store_ok_def pipe_shut_def split: if_splits)

lemma vt_remove_tab_ok [inv_intros]: "tab_ok st t \<Longrightarrow> tab_ok st (vt_remove fd t)"
  using fdt.rem_law [of t fd] by (auto simp: tab_ok_def vt_remove_def)

lemma tab_ok_insert:
  "tab_ok st t \<Longrightarrow> arc_ok st v \<Longrightarrow> fd < next_fd t \<Longrightarrow>
   tab_ok st (t\<lparr>fds := hm_insert fd v (fds t)\<rparr>)"
  by (auto simp: tab_ok_def vt_wf_def)

lemma tab_ok_grow:
  "tab_ok st t \<Longrightarrow> vt_room 1 t \<Longrightarrow> tab_ok st (t\<lparr>next_fd := next_fd t + 1\<rparr>)"
  using vt_wf_grow(2) by (simp add: tab_ok_def)

lemma next_fd_less_grow: "vt_room 1 t \<Longrightarrow> next_fd t < next_fd t + 1"
  using unat_next_fd_Suc by (simp add: word_less_nat_alt)

lemma vt_close_next_fd [simp]: "next_fd (snd (snd (vt_close fd st t))) = next_fd t"
  by (simp add: vt_close_def close_pipe_end_def vt_remove_def Let_def
      split: option.splits vfd.splits)

lemma vt_close_keeps:
  assumes "store_ok st" and "tab_ok st t" and "vt_close fd st t = (r, st', t')"
  shows "store_ok st' \<and> store_le st st' \<and> tab_ok st' t'"
proof -
  have "tab_ok (pipe_shut a st) (vt_remove fd t)" for a
    using assms(2) by (meson pipe_shut_le tab_ok_mono vt_remove_tab_ok)
  then show ?thesis
    using assms pipe_shut_ok [OF assms(1)] vt_remove_tab_ok [OF assms(2)]
    by (auto simp: vt_close_def close_pipe_end_def Let_def
        split: option.splits vfd.splits if_splits)
qed

lemma vt_dup2_keeps:
  assumes "store_ok st" and "tab_ok st t" and "new_fd < next_fd t"
    and "vt_dup2 old_fd new_fd st t = (r, st', t')"
  shows "store_ok st' \<and> store_le st st' \<and> tab_ok st' t'"
proof -
  define s1 where "s1 = (if hm_contains (fds t) new_fd then snd (vt_close new_fd st t) else (st, t))"
  obtain st1 t1 where s1: "s1 = (st1, t1)" by fastforce
  have keep: "store_ok st1 \<and> store_le st st1 \<and> tab_ok st1 t1"
    using vt_close_keeps [OF assms(1,2), of new_fd] assms(1,2) s1
    by (metis prod.collapse prod.inject s1_def store_le_refl)
  have "next_fd t1 = next_fd t"
    using s1 vt_close_next_fd by (metis s1_def snd_conv)
  moreover have "arc_ok st1 x" if "hm_get (fds t1) old_fd = Some x" for x
    using keep that by (auto simp: tab_ok_def)
  ultimately show ?thesis
    using keep assms(3,4) s1 tab_ok_insert [of st1 t1 _ new_fd]
    by (auto simp: vt_dup2_def s1_def [symmetric] split: option.splits)
qed

lemma vt_insert_at_keeps:
  assumes "store_ok st" and "tab_ok st t" and "arc_ok st v" and "fd \<noteq> - 1"
    and "vt_insert_at fd v st t = (st', t')"
  shows "store_ok st' \<and> store_le st st' \<and> tab_ok st' t'"
proof -
  define s1 where "s1 = (if hm_contains (fds t) fd then snd (vt_close fd st t) else (st, t))"
  obtain st1 t1 where s1: "s1 = (st1, t1)" by fastforce
  have keep: "store_ok st1 \<and> store_le st st1 \<and> tab_ok st1 t1"
    using vt_close_keeps [OF assms(1,2), of fd] assms(1,2) s1
    by (metis prod.collapse prod.inject s1_def store_le_refl)
  have v: "arc_ok st1 v" using keep assms(3) arc_ok_mono by blast
  have up: "fd < fd + 1" using assms(4) by (rule word_less_succ)
  have grown: "tab_ok st1 (t1\<lparr>fds := hm_insert fd v (fds t1), next_fd := fd + 1\<rparr>)"
    if "next_fd t1 \<le> fd"
    using keep v that up by (auto simp: tab_ok_def vt_wf_def)
  show ?thesis
    using keep assms(5) s1 tab_ok_insert [of st1 t1 v fd] grown v
    by (auto simp: vt_insert_at_def s1_def [symmetric] Let_def split: if_splits)
qed

lemma vt_insert_keeps:
  assumes "store_ok st" and "tab_ok st t" and "vt_room 1 t" and "arc_ok st v"
    and "vt_insert v t = Some (fd, t')"
  shows "tab_ok st t'"
proof -
  have "t' = (t\<lparr>next_fd := next_fd t + 1\<rparr>)
      \<lparr>fds := hm_insert (next_fd t) v (fds (t\<lparr>next_fd := next_fd t + 1\<rparr>))\<rparr>"
    using assms alloc_fd_wf [of t] by (auto simp: vt_insert_def tab_ok_def)
  then show ?thesis
    using tab_ok_insert [OF tab_ok_grow [OF assms(2,3)] assms(4)] next_fd_less_grow [OF assms(3)]
    by simp
qed

lemma vt_insert_file_eq:
  "vt_insert_file rfd ce st t =
     map_option (\<lambda>(fd, t'). (fd, st\<lparr>next_arc := Suc (next_arc st)\<rparr>, t'))
       (vt_insert (File (next_arc st) \<lparr>real_fd = rfd, cloexec = ce\<rparr>) t)"
  by (cases "alloc_fd t") (auto simp: vt_insert_file_def vt_insert_def)

lemma store_bump:
  assumes "store_ok st"
  shows "store_ok (st\<lparr>next_arc := Suc (next_arc st)\<rparr>)" and "store_le st (st\<lparr>next_arc := Suc (next_arc st)\<rparr>)"
  using assms by (auto simp: store_ok_def store_le_def less_Suc_eq)

lemma vt_insert_file_keeps:
  assumes "store_ok st" and "tab_ok st t" and "vt_room 1 t"
    and "vt_insert_file rfd ce st t = Some (fd, st', t')"
  shows "store_ok st' \<and> store_le st st' \<and> tab_ok st' t'"
proof -
  let ?st = "st\<lparr>next_arc := Suc (next_arc st)\<rparr>"
  have st: "store_ok ?st" "store_le st ?st" using store_bump [OF assms(1)] by auto
  have "st' = ?st" and ins: "vt_insert (File (next_arc st) \<lparr>real_fd = rfd, cloexec = ce\<rparr>) t = Some (fd, t')"
    using assms(4) by (auto simp: vt_insert_file_eq)
  then show ?thesis
    using st vt_insert_keeps [OF st(1) tab_ok_mono [OF assms(2) st(2)] assms(3) _ ins] by simp
qed

lemma create_pipe_eq:
  assumes "vt_wf t" and "vt_room 2 t"
  shows "create_pipe st t = Some (next_fd t, next_fd t + 1,
      st\<lparr>pipes := (pipes st)(next_arc st \<mapsto> pipe_new), next_arc := Suc (next_arc st)\<rparr>,
      t\<lparr>next_fd := next_fd t + 1 + 1,
        fds := hm_insert (next_fd t + 1) (PipeWrite (next_arc st))
                 (hm_insert (next_fd t) (PipeRead (next_arc st)) (fds t))\<rparr>)"
proof -
  have r1: "vt_room 1 t" using assms(2) by (rule vt_room_mono) simp
  have r2: "vt_room 1 (t\<lparr>next_fd := next_fd t + 1\<rparr>)"
    using assms(2) vt_room_grow [of 1 t] by (simp add: numeral_2_eq_2)
  show ?thesis
    using alloc_fd_wf [OF assms(1) r1] alloc_fd_wf [OF vt_wf_grow(2) [OF assms(1) r1] r2]
    by (simp add: create_pipe_def Let_def)
qed

lemma create_pipe_keeps:
  assumes "store_ok st" and "tab_ok st t" and "vt_room 2 t"
    and "create_pipe st t = Some (rfd, wfd, st', t')"
  shows "store_ok st' \<and> store_le st st' \<and> tab_ok st' t'"
proof -
  let ?a = "next_arc st"
  let ?st = "st\<lparr>pipes := (pipes st)(?a \<mapsto> pipe_new), next_arc := Suc ?a\<rparr>"
  let ?t1 = "t\<lparr>next_fd := next_fd t + 1\<rparr>"
  let ?t2 = "t\<lparr>next_fd := next_fd t + 1 + 1\<rparr>"
  have st: "store_ok ?st" "store_le st ?st"
    using assms(1) pipe_ok_new by (auto simp: store_ok_def store_le_def less_Suc_eq)
  have r1: "vt_room 1 t" using assms(3) by (rule vt_room_mono) simp
  have r2: "vt_room 1 ?t1" using assms(3) vt_room_grow [of 1 t] by (simp add: numeral_2_eq_2)
  have t: "tab_ok ?st t" using assms(2) st(2) by (rule tab_ok_mono)
  have t2: "tab_ok ?st ?t2" using tab_ok_grow [OF tab_ok_grow [OF t r1] r2] by simp
  have less: "next_fd t < next_fd ?t2" "next_fd t + 1 < next_fd ?t2"
    using next_fd_less_grow [OF r1] next_fd_less_grow [OF r2] by auto
  define t3 where "t3 = ?t2\<lparr>fds := hm_insert (next_fd t) (PipeRead ?a) (fds ?t2)\<rparr>"
  have t3: "tab_ok ?st t3"
    using tab_ok_insert [OF t2 _ less(1), of "PipeRead ?a"] by (simp add: t3_def)
  have "next_fd t + 1 < next_fd t3" using less(2) by (simp add: t3_def)
  then have "tab_ok ?st (t3\<lparr>fds := hm_insert (next_fd t + 1) (PipeWrite ?a) (fds t3)\<rparr>)"
    using tab_ok_insert [OF t3, of "PipeWrite ?a"] by simp
  then show ?thesis
    using st create_pipe_eq [of t st] assms(2,3,4) by (auto simp: tab_ok_def t3_def)
qed

lemma vt_dup_keeps:
  assumes "store_ok st" and "tab_ok st t" and "vt_room 1 t"
    and "vt_dup old_fd st t = Some (r, st', t')"
  shows "store_ok st' \<and> store_le st st' \<and> tab_ok st' t'"
proof -
  have "vt_dup2 old_fd (next_fd t) st (t\<lparr>next_fd := next_fd t + 1\<rparr>) = (r, st', t')"
    using assms alloc_fd_wf [of t] by (simp add: vt_dup_def tab_ok_def)
  then show ?thesis
    using vt_dup2_keeps [OF assms(1) tab_ok_grow [OF assms(2,3)]] next_fd_less_grow [OF assms(3)]
    by simp
qed

lemma close_file_fd_keeps: "tab_ok st t \<Longrightarrow> tab_ok st (snd (close_file_fd fd t))"
  by (auto simp: close_file_fd_def Let_def vt_remove_tab_ok split: option.splits vfd.splits)

lemma close_file_fds_keeps: "tab_ok st t \<Longrightarrow> tab_ok st (snd (close_file_fds rest t))"
  by (induction rest arbitrary: t)
    (auto simp: Let_def case_prod_beta dest: close_file_fd_keeps)

lemma close_cloexec_keeps: "tab_ok st t \<Longrightarrow> tab_ok st (snd (close_cloexec t))"
  by (simp add: close_cloexec_def close_file_fds_keeps)

section \<open>What holds without any precondition\<close>

text \<open>
  The part of the invariant that no operation can break, whatever descriptor numbers it is
  given and wherever the counter stands: the numbers of a table are distinct and every entry
  refers to an object that exists. (That the numbers stay below the counter is not of this
  kind: \<^verbatim>\<open>dup2\<close> to a number above it and the wrap-around of the counter break it.)
\<close>

definition tab_sound :: "store \<Rightarrow> vfd_table \<Rightarrow> bool" where
  "tab_sound st t \<longleftrightarrow> hm_ok (fds t) \<and> (\<forall>k v. hm_get (fds t) k = Some v \<longrightarrow> arc_ok st v)"

lemma tab_ok_sound: "tab_ok st t \<Longrightarrow> tab_sound st t"
  by (simp add: tab_ok_def tab_sound_def vt_wf_def)

lemma tab_sound_mono: "tab_sound st t \<Longrightarrow> store_le st st' \<Longrightarrow> tab_sound st' t"
  unfolding tab_sound_def by (meson arc_ok_mono)

lemma tab_sound_insert:
  "tab_sound st t \<Longrightarrow> arc_ok st v \<Longrightarrow> tab_sound st (t\<lparr>fds := hm_insert fd v (fds t)\<rparr>)"
  by (auto simp: tab_sound_def)

lemma tab_sound_counter [simp]: "tab_sound st (t\<lparr>next_fd := n\<rparr>) = tab_sound st t"
  by (simp add: tab_sound_def)

lemma tab_sound_remove: "tab_sound st t \<Longrightarrow> tab_sound st (vt_remove fd t)"
  by (auto simp: tab_sound_def vt_remove_def)

lemma alloc_fd_counter_only:
  assumes "alloc_fd t = Some (fd, t')"
  obtains n where "t' = t\<lparr>next_fd := n\<rparr>" and "fd = next_fd t"
  using assms by (auto simp: alloc_fd_def Let_def)

lemma alloc_fd_sound: "tab_sound st t \<Longrightarrow> alloc_fd t = Some (fd, t') \<Longrightarrow> tab_sound st t'"
  by (erule alloc_fd_counter_only) simp

lemma vt_insert_sound:
  "tab_sound st t \<Longrightarrow> arc_ok st v \<Longrightarrow> vt_insert v t = Some (fd, t') \<Longrightarrow> tab_sound st t'"
  by (auto simp: vt_insert_def intro: tab_sound_insert alloc_fd_sound)

lemma vt_insert_file_sound:
  assumes "store_ok st" and "tab_sound st t" and "vt_insert_file rfd ce st t = Some (fd, st', t')"
  shows "store_ok st' \<and> store_le st st' \<and> tab_sound st' t'"
proof -
  let ?st = "st\<lparr>next_arc := Suc (next_arc st)\<rparr>"
  have st: "store_ok ?st" "store_le st ?st" using store_bump [OF assms(1)] by auto
  have "st' = ?st" and ins: "vt_insert (File (next_arc st) \<lparr>real_fd = rfd, cloexec = ce\<rparr>) t = Some (fd, t')"
    using assms(3) by (auto simp: vt_insert_file_eq)
  then show ?thesis
    using st vt_insert_sound [OF tab_sound_mono [OF assms(2) st(2)] _ ins] by simp
qed

lemma vt_close_sound:
  assumes "store_ok st" and "tab_sound st t" and "vt_close fd st t = (r, st', t')"
  shows "store_ok st' \<and> store_le st st' \<and> tab_sound st' t'"
proof -
  have "tab_sound (pipe_shut a st) (vt_remove fd t)" for a
    using assms(2) by (meson pipe_shut_le tab_sound_mono tab_sound_remove)
  then show ?thesis
    using assms pipe_shut_ok [OF assms(1)] tab_sound_remove [OF assms(2)]
    by (auto simp: vt_close_def close_pipe_end_def Let_def
        split: option.splits vfd.splits if_splits)
qed

text \<open>Making the number free before it is used again, as \<^verbatim>\<open>insert_at\<close> and \<^verbatim>\<open>dup2\<close> do.\<close>

lemma vt_vacate_sound:
  assumes "store_ok st" and "tab_sound st t"
    and "(if hm_contains (fds t) fd then snd (vt_close fd st t) else (st, t)) = (st', t')"
  shows "store_ok st' \<and> store_le st st' \<and> tab_sound st' t'"
  using vt_close_sound [OF assms(1,2)] assms
  by (metis prod.collapse prod.inject store_le_refl)

lemma vt_insert_at_sound:
  assumes "store_ok st" and "tab_sound st t" and "arc_ok st v" and "vt_insert_at fd v st t = (st', t')"
  shows "store_ok st' \<and> store_le st st' \<and> tab_sound st' t'"
proof -
  obtain st1 t1 where s1: "(if hm_contains (fds t) fd then snd (vt_close fd st t) else (st, t)) = (st1, t1)"
    by fastforce
  note keep = vt_vacate_sound [OF assms(1,2) s1]
  have "tab_sound st1 (t1\<lparr>fds := hm_insert fd v (fds t1)\<rparr>)"
    using keep assms(3) arc_ok_mono tab_sound_insert by blast
  then show ?thesis
    using keep assms(4) by (auto simp: vt_insert_at_def s1 Let_def split: if_splits)
qed

lemma vt_dup2_sound:
  assumes "store_ok st" and "tab_sound st t" and "vt_dup2 old_fd new_fd st t = (r, st', t')"
  shows "store_ok st' \<and> store_le st st' \<and> tab_sound st' t'"
proof -
  obtain st1 t1 where s1: "(if hm_contains (fds t) new_fd then snd (vt_close new_fd st t) else (st, t)) = (st1, t1)"
    by fastforce
  note keep = vt_vacate_sound [OF assms(1,2) s1]
  have "arc_ok st1 x" if "hm_get (fds t1) old_fd = Some x" for x
    using keep that by (auto simp: tab_sound_def)
  then show ?thesis
    using keep assms(3) tab_sound_insert [of st1 t1 _ new_fd]
    by (auto simp: vt_dup2_def s1 split: option.splits)
qed

lemma vt_dup_sound:
  assumes "store_ok st" and "tab_sound st t" and "vt_dup old_fd st t = Some (r, st', t')"
  shows "store_ok st' \<and> store_le st st' \<and> tab_sound st' t'"
  using assms(3) vt_dup2_sound [OF assms(1) alloc_fd_sound [OF assms(2)]]
  by (auto simp: vt_dup_def)

lemma create_pipe_sound:
  assumes "store_ok st" and "tab_sound st t" and "create_pipe st t = Some (rfd, wfd, st', t')"
  shows "store_ok st' \<and> store_le st st' \<and> tab_sound st' t'"
proof -
  let ?a = "next_arc st"
  let ?st = "st\<lparr>pipes := (pipes st)(?a \<mapsto> pipe_new), next_arc := Suc ?a\<rparr>"
  have st: "store_ok ?st" "store_le st ?st"
    using assms(1) pipe_ok_new by (auto simp: store_ok_def store_le_def less_Suc_eq split: if_splits)
  obtain t1 t2 where alloc: "alloc_fd t = Some (rfd, t1)" "alloc_fd t1 = Some (wfd, t2)"
    and eq: "st' = ?st" "t' = t2\<lparr>fds := hm_insert wfd (PipeWrite ?a) (hm_insert rfd (PipeRead ?a) (fds t2))\<rparr>"
    using assms(3) by (auto simp: create_pipe_def Let_def bind_eq_Some_conv)
  define t3 where "t3 = t2\<lparr>fds := hm_insert rfd (PipeRead ?a) (fds t2)\<rparr>"
  have "tab_sound ?st t2" using alloc_fd_sound alloc tab_sound_mono [OF assms(2) st(2)] by blast
  then have "tab_sound ?st t3" unfolding t3_def by (rule tab_sound_insert) simp
  then have "tab_sound ?st (t3\<lparr>fds := hm_insert wfd (PipeWrite ?a) (fds t3)\<rparr>)"
    by (rule tab_sound_insert) simp
  then show ?thesis using st eq by (simp add: t3_def)
qed

lemma close_file_fd_sound: "tab_sound st t \<Longrightarrow> tab_sound st (snd (close_file_fd fd t))"
  by (auto simp: close_file_fd_def Let_def tab_sound_remove split: option.splits vfd.splits)

lemma close_file_fds_sound: "tab_sound st t \<Longrightarrow> tab_sound st (snd (close_file_fds rest t))"
  by (induction rest arbitrary: t)
    (auto simp: Let_def case_prod_beta dest: close_file_fd_sound)

lemma close_cloexec_sound: "tab_sound st t \<Longrightarrow> tab_sound st (snd (close_cloexec t))"
  by (simp add: close_cloexec_def close_file_fds_sound)

end
