(* ===== verification/Vfd_World.thy ===== *)
theory Vfd_World
  imports Vfd_Laws
begin

text \<open>
  The global descriptor state of \<^verbatim>\<open>src/src/vfd.rs\<close> as a transition system: every operation
  on one table and every operation on the table map is a step, \<open>world_sound\<close> holds in every
  reachable state and the stronger \<open>world_ok\<close> on careful runs, and the properties of forking, dropping and
  reaping tables follow. The last section states what the operations do where they depart
  from the behaviour their comments or POSIX describe.
\<close>

section \<open>Dropping and cloning tables\<close>

lemma pipes_pipe_shut: "pipes (pipe_shut a st) b =
    (if b = a then map_option pipe_close (pipes st b) else pipes st b)"
  by (simp add: pipe_shut_def)

lemma next_arc_pipe_shut [simp]: "next_arc (pipe_shut a st) = next_arc st"
  by (simp add: pipe_shut_def)

lemma pipe_close_idem [simp]: "pipe_close (pipe_close p) = pipe_close p"
  by (simp add: pipe_close_def)

lemma drop_loop_pipes:
  "pipes (drop_loop vs seen st) a =
     (if a \<notin> set seen \<and> list_ex (refs_pipe a) vs then map_option pipe_close (pipes st a)
      else pipes st a)"
  by (induction vs seen st rule: drop_loop.induct)
    (auto simp: pipes_pipe_shut option.map_comp comp_def)

lemma drop_loop_next_arc [simp]: "next_arc (drop_loop vs seen st) = next_arc st"
  by (induction vs seen st rule: drop_loop.induct) auto

lemma vt_drop_pipes:
  "pipes (vt_drop t st) a =
     (if list_ex (refs_pipe a) (hm_values (fds t)) then map_option pipe_close (pipes st a)
      else pipes st a)"
  by (simp add: vt_drop_def drop_loop_pipes)

lemma vt_drop_next_arc [simp]: "next_arc (vt_drop t st) = next_arc st"
  by (simp add: vt_drop_def)

lemma vt_drop_keeps: "store_ok st \<Longrightarrow> store_ok (vt_drop t st) \<and> store_le st (vt_drop t st)"
  using pipe_ok_close by (fastforce simp: store_ok_def store_le_def vt_drop_pipes split: if_splits)

lemma fold_vt_drop_keeps:
  "store_ok st \<Longrightarrow> store_ok (fold vt_drop ts st) \<and> store_le st (fold vt_drop ts st)"
proof (induction ts arbitrary: st)
  case (Cons t ts)
  then show ?case using Cons.IH [of "vt_drop t st"] vt_drop_keeps [of st t] store_le_trans by auto
qed simp

lemma drop_entry_keeps:
  "store_ok (wstore w) \<Longrightarrow> store_ok (drop_entry v w) \<and> store_le (wstore w) (drop_entry v w)"
  using vt_drop_keeps by (auto simp: drop_entry_def split: option.splits)

lemma fold_insert_get:
  "hm_get (fold (\<lambda>(k, v). hm_insert k v) xs m) k =
     (case map_of (rev xs) k of None \<Rightarrow> hm_get m k | Some v \<Rightarrow> Some v)"
  by (induction xs arbitrary: m) (auto simp: map_add_def split: option.splits)

lemma fold_insert_ok:
  "hm_ok m \<Longrightarrow> hm_ok (fold (\<lambda>(k, v). hm_insert k v) xs m)"
  by (induction xs arbitrary: m) auto

lemma clone_for_fork_get:
  assumes "hm_ok (fds t)"
  shows "hm_get (fds (clone_for_fork t)) k = hm_get (fds t) k"
proof -
  have "map_of (rev (fds t)) = map_of (fds t)"
    using assms by (subst map_of_inject_set) (auto simp: hm_ok_def hm_keys_def rev_map [symmetric])
  then show ?thesis
    by (simp add: clone_for_fork_def fold_insert_get split: option.split) (simp add: hm_get_def)
qed


lemma clone_for_fork_next_fd [simp]: "next_fd (clone_for_fork t) = next_fd t"
  by (simp add: clone_for_fork_def)

lemma clone_for_fork_keeps: "tab_ok st t \<Longrightarrow> tab_ok st (clone_for_fork t)"
  using fold_insert_ok [of "[]" "fds t"]
  by (auto simp: tab_ok_def vt_wf_def clone_for_fork_get hm_contains_def)
    (simp add: clone_for_fork_def)

lemma clone_for_fork_sound: "tab_sound st t \<Longrightarrow> tab_sound st (clone_for_fork t)"
  using fold_insert_ok [of "[]" "fds t"]
  by (auto simp: tab_sound_def clone_for_fork_get) (simp add: clone_for_fork_def)

section \<open>The invariant of the descriptor state\<close>

definition world_ok :: "fd_world \<Rightarrow> bool" where
  "world_ok w \<longleftrightarrow> store_ok (wstore w) \<and> hm_ok (tables w) \<and>
     (\<forall>vpid t. hm_get (tables w) vpid = Some t \<longrightarrow> tab_ok (wstore w) t)"

lemma world_okD:
  assumes "world_ok w"
  shows "store_ok (wstore w)" and "hm_ok (tables w)"
    and "get_table vpid w = Some t \<Longrightarrow> tab_ok (wstore w) t"
  using assms by (auto simp: world_ok_def get_table_def)

lemma world_ok_init: "world_ok fd_world_init"
  by (simp add: world_ok_def fd_world_init_def store_ok_def)

lemma world_ok_update:
  assumes "world_ok w" and "store_ok st" and "store_le (wstore w) st" and "tab_ok st t"
  shows "world_ok (w\<lparr>wstore := st, tables := hm_insert vpid t (tables w)\<rparr>)"
  using assms by (auto simp: world_ok_def intro: tab_ok_mono)

lemma put_table_keeps:
  "world_ok w \<Longrightarrow> store_ok st \<and> store_le (wstore w) st \<and> tab_ok st t \<Longrightarrow>
   world_ok (put_table vpid (st, t) w)"
  using world_ok_update by (simp add: put_table_def)

lemma insert_table_keeps:
  assumes "world_ok w" and "tab_ok (wstore w) t"
  shows "world_ok (insert_table vpid t w)"
proof -
  have st: "store_ok (drop_entry vpid w)" "store_le (wstore w) (drop_entry vpid w)"
    using drop_entry_keeps world_okD(1) [OF assms(1)] by auto
  then show ?thesis
    using world_ok_update [OF assms(1) st tab_ok_mono [OF assms(2) st(2)]]
    by (simp add: insert_table_def)
qed

lemma tab_ok_new: "tab_ok st vt_new" "tab_ok st (vt_new_with_fds i e r)"
  using vt_wf_new vt_wf_new_with_fds
  by (auto simp: tab_ok_def vt_new_def vt_new_with_fds_def split: if_splits)

lemma fork_fd_table_keeps: "world_ok w \<Longrightarrow> world_ok (fork_fd_table p c w)"
  using insert_table_keeps tab_ok_new clone_for_fork_keeps world_okD(3)
  by (auto simp: fork_fd_table_def Let_def get_table_def split: option.split)

lemma remove_table_keeps:
  assumes "world_ok w"
  shows "world_ok (remove_table vpid w)"
proof -
  have "store_ok (drop_entry vpid w)" "store_le (wstore w) (drop_entry vpid w)"
    using drop_entry_keeps world_okD(1) [OF assms] by auto
  then show ?thesis using assms by (auto simp: remove_table_def world_ok_def intro: tab_ok_mono)
qed

lemma cleanup_keeps: "world_ok w \<Longrightarrow> world_ok (cleanup w)"
  using fold_vt_drop_keeps by (simp add: cleanup_def world_ok_def)

lemma get_or_create_keeps: "world_ok w \<Longrightarrow> world_ok (snd (get_or_create_table vpid w))"
  using world_ok_update [of w "wstore w" vt_new vpid] tab_ok_new
  by (auto simp: get_or_create_table_def world_okD split: option.split)

text \<open>The same without the counter: what no operation can break.\<close>

definition world_sound :: "fd_world \<Rightarrow> bool" where
  "world_sound w \<longleftrightarrow> store_ok (wstore w) \<and> hm_ok (tables w) \<and>
     (\<forall>vpid t. hm_get (tables w) vpid = Some t \<longrightarrow> tab_sound (wstore w) t)"

lemma world_soundD:
  assumes "world_sound w"
  shows "store_ok (wstore w)" and "hm_ok (tables w)"
    and "get_table vpid w = Some t \<Longrightarrow> tab_sound (wstore w) t"
  using assms by (auto simp: world_sound_def get_table_def)

lemma world_ok_sound: "world_ok w \<Longrightarrow> world_sound w"
  by (auto simp: world_ok_def world_sound_def tab_ok_sound)

lemma put_table_sound:
  "world_sound w \<Longrightarrow> store_ok st \<and> store_le (wstore w) st \<and> tab_sound st t \<Longrightarrow>
   world_sound (put_table vpid (st, t) w)"
  by (auto simp: world_sound_def put_table_def intro: tab_sound_mono)

lemma insert_table_sound:
  assumes "world_sound w" and "tab_sound (wstore w) t"
  shows "world_sound (insert_table vpid t w)"
proof -
  have "store_ok (drop_entry vpid w)" "store_le (wstore w) (drop_entry vpid w)"
    using drop_entry_keeps world_soundD(1) [OF assms(1)] by auto
  then show ?thesis
    using put_table_sound [OF assms(1)] tab_sound_mono [OF assms(2)]
    by (simp add: insert_table_def put_table_def)
qed

lemma fork_fd_table_sound: "world_sound w \<Longrightarrow> world_sound (fork_fd_table p c w)"
  using insert_table_sound tab_ok_sound [OF tab_ok_new(1)] clone_for_fork_sound world_soundD(3)
  by (auto simp: fork_fd_table_def Let_def get_table_def split: option.split)

lemma remove_table_sound:
  assumes "world_sound w"
  shows "world_sound (remove_table vpid w)"
proof -
  have "store_ok (drop_entry vpid w)" "store_le (wstore w) (drop_entry vpid w)"
    using drop_entry_keeps world_soundD(1) [OF assms] by auto
  then show ?thesis using assms by (auto simp: remove_table_def world_sound_def intro: tab_sound_mono)
qed

lemma cleanup_sound: "world_sound w \<Longrightarrow> world_sound (cleanup w)"
  using fold_vt_drop_keeps by (simp add: cleanup_def world_sound_def)

lemma get_or_create_sound: "world_sound w \<Longrightarrow> world_sound (snd (get_or_create_table vpid w))"
  using tab_ok_sound [OF tab_ok_new(1)]
  by (auto simp: get_or_create_table_def world_sound_def split: option.split)

section \<open>The transition system\<close>

text \<open>
  The steps on one table. The flag \<open>c\<close> tells careful runs from arbitrary ones: with
  \<open>c = False\<close> every operation may be called with any descriptor numbers and at any value of
  the 32-bit counter; with \<open>c = True\<close> an allocation has room below the limit of the counter,
  \<^verbatim>\<open>insert_at\<close> does not use the largest number and \<^verbatim>\<open>dup2\<close> has a target below the counter.
  The entry given to \<^verbatim>\<open>insert\<close> or \<^verbatim>\<open>insert_at\<close> holds an \<^verbatim>\<open>Arc\<close>, hence refers to a live object
  (\<^const>\<open>arc_ok\<close>), which is what the type \<^verbatim>\<open>Arc\<close> guarantees.
\<close>

inductive vt_step :: "bool \<Rightarrow> store \<Rightarrow> vfd_table \<Rightarrow> store \<Rightarrow> vfd_table \<Rightarrow> bool" for c where
  insert: "(c \<longrightarrow> vt_room 1 t) \<Longrightarrow> arc_ok st v \<Longrightarrow> vt_insert v t = Some (fd, t') \<Longrightarrow> vt_step c st t st t'"
| insert_file: "(c \<longrightarrow> vt_room 1 t) \<Longrightarrow> vt_insert_file rfd ce st t = Some (fd, st', t') \<Longrightarrow> vt_step c st t st' t'"
| insert_at: "(c \<longrightarrow> fd \<noteq> - 1) \<Longrightarrow> arc_ok st v \<Longrightarrow> vt_insert_at fd v st t = (st', t') \<Longrightarrow> vt_step c st t st' t'"
| close: "vt_close fd st t = (r, st', t') \<Longrightarrow> vt_step c st t st' t'"
| close_file: "close_file_fd fd t = (r, t') \<Longrightarrow> vt_step c st t st t'"
| close_exec: "close_cloexec t = (rs, t') \<Longrightarrow> vt_step c st t st t'"
| dup: "(c \<longrightarrow> vt_room 1 t) \<Longrightarrow> vt_dup old_fd st t = Some (r, st', t') \<Longrightarrow> vt_step c st t st' t'"
| dup2: "(c \<longrightarrow> new_fd < next_fd t) \<Longrightarrow> vt_dup2 old_fd new_fd st t = (r, st', t') \<Longrightarrow> vt_step c st t st' t'"
| pipe: "(c \<longrightarrow> vt_room 2 t) \<Longrightarrow> create_pipe st t = Some (rfd, wfd, st', t') \<Longrightarrow> vt_step c st t st' t'"
| pread: "vt_get t fd = Some (PipeRead a) \<Longrightarrow> pipes st a = Some p \<Longrightarrow>
    read_from p dst = Some (n, dst', p') \<Longrightarrow>
    vt_step c st t (st\<lparr>pipes := (pipes st)(a \<mapsto> p')\<rparr>) t"
| pwrite: "vt_get t fd = Some (PipeWrite a) \<Longrightarrow> pipes st a = Some p \<Longrightarrow>
    write_to p src = Some (n, p') \<Longrightarrow>
    vt_step c st t (st\<lparr>pipes := (pipes st)(a \<mapsto> p')\<rparr>) t"

lemma pipe_store_update:
  assumes "store_ok st" and "pipes st a = Some p" and "pipe_ok p'"
  shows "store_ok (st\<lparr>pipes := (pipes st)(a \<mapsto> p')\<rparr>)"
    and "store_le st (st\<lparr>pipes := (pipes st)(a \<mapsto> p')\<rparr>)"
  using assms by (auto simp: store_ok_def store_le_def)

lemma pipe_update_keeps:
  assumes "store_ok st" and "tab_ok st t" and "pipes st a = Some p" and "pipe_ok p'"
  shows "store_ok (st\<lparr>pipes := (pipes st)(a \<mapsto> p')\<rparr>) \<and>
    store_le st (st\<lparr>pipes := (pipes st)(a \<mapsto> p')\<rparr>) \<and>
    tab_ok (st\<lparr>pipes := (pipes st)(a \<mapsto> p')\<rparr>) t"
  using pipe_store_update [OF assms(1,3,4)] tab_ok_mono [OF assms(2)] by blast

text \<open>A step keeps the references of its table valid, and those of every other table.\<close>

lemma vt_step_sound:
  assumes "vt_step c st t st' t'" and "store_ok st" and "tab_sound st t"
  shows "store_ok st' \<and> store_le st st' \<and> tab_sound st' t'"
  using assms
proof (induction rule: vt_step.induct)
  case (insert t st v fd t')
  then show ?case using vt_insert_sound by simp
next
  case (insert_file t rfd ce st fd st' t')
  show ?case using insert_file.prems insert_file.hyps(2) by (rule vt_insert_file_sound)
next
  case (insert_at fd st v t st' t')
  show ?case using insert_at.prems insert_at.hyps(2,3) by (rule vt_insert_at_sound)
next
  case (close fd st t r st' t')
  show ?case using close.prems close.hyps by (rule vt_close_sound)
next
  case (close_file fd t r t' st)
  then show ?case using close_file_fd_sound by (metis snd_conv store_le_refl)
next
  case (close_exec t rs t' st)
  then show ?case using close_cloexec_sound by (metis snd_conv store_le_refl)
next
  case (dup t old_fd st r st' t')
  show ?case using dup.prems dup.hyps(2) by (rule vt_dup_sound)
next
  case (dup2 new_fd t old_fd st r st' t')
  show ?case using dup2.prems dup2.hyps(2) by (rule vt_dup2_sound)
next
  case (pipe t st rfd wfd st' t')
  show ?case using pipe.prems pipe.hyps(2) by (rule create_pipe_sound)
next
  case (pread t fd a st p dst n dst' p')
  then have "pipe_ok p" by (simp add: store_ok_def)
  then have "pipe_ok p'" using pread.hyps(3) by (rule read_from_result(1))
  then show ?case using pipe_store_update pread.prems pread.hyps(2) tab_sound_mono by blast
next
  case (pwrite t fd a st p src n p')
  then have "pipe_ok p" by (simp add: store_ok_def)
  then have "pipe_ok p'" using pwrite.hyps(3) by (rule write_to_result(1))
  then show ?case using pipe_store_update pwrite.prems pwrite.hyps(2) tab_sound_mono by blast
qed

text \<open>A careful step also keeps the descriptors below the counter.\<close>

lemma vt_step_below:
  assumes "vt_step True st t st' t'" and "store_ok st" and "tab_ok st t"
  shows "tab_ok st' t'"
  using assms
proof (induction rule: vt_step.induct)
  case (insert t st v fd t')
  then show ?case using vt_insert_keeps by simp
next
  case (insert_file t rfd ce st fd st' t')
  then show ?case using vt_insert_file_keeps by blast
next
  case (insert_at fd st v t st' t')
  then show ?case using vt_insert_at_keeps by blast
next
  case (close fd st t r st' t')
  then show ?case using vt_close_keeps by blast
next
  case (close_file fd t r t' st)
  then show ?case using close_file_fd_keeps by (metis snd_conv)
next
  case (close_exec t rs t' st)
  then show ?case using close_cloexec_keeps by (metis snd_conv)
next
  case (dup t old_fd st r st' t')
  then show ?case using vt_dup_keeps by blast
next
  case (dup2 new_fd t old_fd st r st' t')
  then show ?case using vt_dup2_keeps by blast
next
  case (pipe t st rfd wfd st' t')
  then show ?case using create_pipe_keeps by blast
next
  case (pread t fd a st p dst n dst' p')
  then show ?case by (auto intro!: tab_ok_mono [of st] simp: store_le_def)
next
  case (pwrite t fd a st p src n p')
  then show ?case by (auto intro!: tab_ok_mono [of st] simp: store_le_def)
qed

inductive fd_step :: "bool \<Rightarrow> fd_world \<Rightarrow> fd_world \<Rightarrow> bool" for c where
  on_table: "get_table vpid w = Some t \<Longrightarrow> vt_step c (wstore w) t st' t' \<Longrightarrow>
    fd_step c w (put_table vpid (st', t') w)"
| fetch: "fd_step c w (snd (get_or_create_table vpid w))"
| fork: "fd_step c w (fork_fd_table parent child w)"
| start: "fd_step c w (create_table_with_fds vpid stdin stdout stderr w)"
| remove: "fd_step c w (remove_table vpid w)"
| reap: "fd_step c w (snd (remove_table_and_get_fds vpid w))"
| shutdown: "fd_step c w (cleanup w)"

inductive_cases fd_stepE: "fd_step c w w'"

lemma fd_step_sound:
  assumes "fd_step c w w'" and "world_sound w"
  shows "world_sound w'"
  using assms
proof (induction rule: fd_step.induct)
  case (on_table vpid w t st' t')
  then show ?case using vt_step_sound world_soundD put_table_sound by blast
next
  case (start w vpid stdin stdout stderr)
  then show ?case
    using insert_table_sound tab_ok_sound tab_ok_new(2) by (simp add: create_table_with_fds_def)
next
  case (reap w vpid)
  then show ?case
    using remove_table_sound by (simp add: remove_table_and_get_fds_def split: option.split)
qed (auto intro: get_or_create_sound fork_fd_table_sound remove_table_sound cleanup_sound)

lemma fd_step_keeps:
  assumes "fd_step True w w'" and "world_ok w"
  shows "world_ok w'"
  using assms
proof (induction rule: fd_step.induct)
  case (on_table vpid w t st' t')
  then have "store_ok st' \<and> store_le (wstore w) st' \<and> tab_ok st' t'"
    using vt_step_sound vt_step_below world_okD(1,3) tab_ok_sound by blast
  then show ?case using on_table.prems put_table_keeps by blast
next
  case (start w vpid stdin stdout stderr)
  then show ?case using insert_table_keeps tab_ok_new by (simp add: create_table_with_fds_def)
next
  case (reap w vpid)
  then show ?case
    using remove_table_keeps by (simp add: remove_table_and_get_fds_def split: option.split)
qed (auto intro: get_or_create_keeps fork_fd_table_keeps remove_table_keeps cleanup_keeps)

interpretation fd_sys: transition_system "\<lambda>w. w = fd_world_init" "fd_step c" world_sound for c
  by unfold_locales (auto simp: world_ok_sound world_ok_init intro: fd_step_sound)

interpretation fd_careful: transition_system "\<lambda>w. w = fd_world_init" "fd_step True" world_ok
  by unfold_locales (auto simp: world_ok_init intro: fd_step_keeps)

section \<open>Reference counts\<close>

lemma strong_count_insert_fresh:
  assumes "hm_get (tables w) c = None"
  shows "strong_count a (w\<lparr>wstore := st, tables := hm_insert c t (tables w)\<rparr>) =
    strong_count a w + length (filter (refs_file a) (hm_values (fds t)))"
  using assms by (simp add: strong_count_def hm_insert_absent)

lemma strong_count_ge:
  assumes "(vpid, t) \<in> set (tables w)"
  shows "length (filter (refs_file a) (hm_values (fds t))) \<le> strong_count a w"
proof -
  let ?n = "\<lambda>(vpid, t). length (filter (refs_file a) (hm_values (fds t)))"
  have "?n (vpid, t) \<in> set (map ?n (tables w))" using assms by (simp only: set_map imageI)
  then show ?thesis using member_le_sum_list [of "?n (vpid, t)"] by (simp add: strong_count_def)
qed

lemma strong_count_ge2:
  assumes "(v1, t1) \<in> set (tables w)" and "(v2, t2) \<in> set (tables w)" and "v1 \<noteq> v2"
    and "list_ex (refs_file a) (hm_values (fds t1))" and "list_ex (refs_file a) (hm_values (fds t2))"
  shows "2 \<le> strong_count a w"
proof -
  let ?n = "\<lambda>(vpid, t). length (filter (refs_file a) (hm_values (fds t)))"
  obtain xs ys where split: "tables w = xs @ (v1, t1) # ys" using assms(1) by (meson split_list)
  then have "(v2, t2) \<in> set (xs @ ys)" using assms(2,3) by auto
  then have "?n (v2, t2) \<le> sum_list (map ?n (xs @ ys))"
    using member_le_sum_list [of "?n (v2, t2)" "map ?n (xs @ ys)"] by force
  moreover have "strong_count a w = ?n (v1, t1) + sum_list (map ?n (xs @ ys))"
    by (simp add: strong_count_def split)
  moreover have "1 \<le> ?n (v1, t1)" "1 \<le> ?n (v2, t2)"
    using assms(4,5) by (auto simp: Suc_le_eq filter_empty_conv list_ex_iff)
  ultimately show ?thesis by linarith
qed

lemma refs_file_iff: "refs_file a v \<longleftrightarrow> (\<exists>f. v = File a f)"
  by (cases v) auto

lemma count_one_unique:
  assumes "length (filter (refs_file a) vs) \<le> 1" and "File a f \<in> set vs" and "File a f' \<in> set vs"
  shows "f = f'"
proof -
  have "File a f \<in> set (filter (refs_file a) vs)" "File a f' \<in> set (filter (refs_file a) vs)"
    using assms(2,3) by auto
  then show ?thesis using assms(1)
    by (cases "filter (refs_file a) vs") auto
qed

lemma set_collect_fds:
  assumes "\<And>a f f'. strong_count a w = 1 \<Longrightarrow> File a f \<in> set vs \<Longrightarrow> File a f' \<in> set vs \<Longrightarrow> f = f'"
  shows "set (collect_fds w vs sr sf) = {r. Real r \<in> set vs \<and> r \<notin> set sr} \<union>
    {real_fd f | a f. File a f \<in> set vs \<and> a \<notin> set sf \<and> strong_count a w = 1}"
  using assms
proof (induction w vs sr sf rule: collect_fds.induct)
  case (2 w fd vs sr sf)
  show ?case
    using "2.IH"(1)[OF _ "2.prems"] "2.IH"(2)[OF _ "2.prems"] by (cases "fd \<in> set sr") auto
next
  case (3 w a f vs sr sf)
  have uniq: "f' = f" if "strong_count a w = 1" "File a f' \<in> set vs" for f'
    using "3.prems" [of a f' f] that by simp
  have IH: "set (collect_fds w vs sr sf') = {r. Real r \<in> set vs \<and> r \<notin> set sr} \<union>
      {real_fd f | b f. File b f \<in> set vs \<and> b \<notin> set sf' \<and> strong_count b w = 1}"
    if "sf' = (if a \<in> set sf then sf else sf @ [a])" for sf'
    using "3.IH" "3.prems" that by (cases "a \<in> set sf"; cases "strong_count a w = 1") simp_all
  show ?case
  proof (cases "a \<in> set sf")
    case True
    then show ?thesis using IH by auto
  next
    case False
    then show ?thesis using IH [of "sf @ [a]"] uniq by (cases "strong_count a w = 1") auto
  qed
qed auto

lemma clone_for_fork_id: "hm_ok (fds t) \<Longrightarrow> clone_for_fork t = t"
  using hm_fold_insert [of "[]" "fds t"] by (simp add: clone_for_fork_def hm_ok_def hm_keys_def)

lemma vt_get_values: "hm_ok (fds t) \<Longrightarrow> v \<in> set (hm_values (fds t)) \<longleftrightarrow> (\<exists>k. vt_get t k = Some v)"
  by (simp add: set_hm_values vt_get_def)

section \<open>Close on exec\<close>

text \<open>Entries that share an address share the file behind it.\<close>

definition file_consistent :: "vfd_table \<Rightarrow> bool" where
  "file_consistent t \<longleftrightarrow>
     (\<forall>k k' a f f'. vt_get t k = Some (File a f) \<longrightarrow> vt_get t k' = Some (File a f') \<longrightarrow> f = f')"

lemma vt_get_remove [simp]: "vt_get (vt_remove fd t) k = (if k = fd then None else vt_get t k)"
  by (simp add: vt_get_def vt_remove_def)

lemma hm_ok_vt_remove [simp]: "hm_ok (fds t) \<Longrightarrow> hm_ok (fds (vt_remove fd t))"
  by (simp add: vt_remove_def)

lemma close_file_fd_File:
  assumes "hm_ok (fds t)" and "vt_get t fd = Some (File a f)"
  shows "close_file_fd fd t =
    (if \<exists>k g. k \<noteq> fd \<and> vt_get t k = Some (File a g) then None else Some (real_fd f), vt_remove fd t)"
proof -
  have "list_ex (refs_file a) (hm_values (fds (vt_remove fd t))) \<longleftrightarrow>
      (\<exists>k g. k \<noteq> fd \<and> vt_get t k = Some (File a g))"
    using assms(1) by (auto simp: list_ex_iff refs_file_iff vt_get_values Bex_def split: if_splits)
  then show ?thesis using assms(2) by (simp add: close_file_fd_def vt_get_def Let_def)
qed

text \<open>The entries \<open>ys\<close> of a table hold all its references to a file.\<close>

definition holds_all :: "arc \<Rightarrow> file_ref \<Rightarrow> vfd_table \<Rightarrow> u32 set \<Rightarrow> bool" where
  "holds_all b g t ys \<longleftrightarrow> (\<exists>k \<in> ys. vt_get t k = Some (File b g)) \<and> (\<forall>k g. vt_get t k = Some (File b g) \<longrightarrow> k \<in> ys)"

lemma holds_all_remove:
  assumes "file_consistent t" and "vt_get t fd = Some (File a f)" and "fd \<notin> ys"
  shows "b \<noteq> a \<Longrightarrow> holds_all b g t (insert fd ys) = holds_all b g (vt_remove fd t) ys"
    and "holds_all a g t (insert fd ys) \<longleftrightarrow>
      g = f \<and> (\<not> (\<exists>k g. k \<noteq> fd \<and> vt_get t k = Some (File a g)) \<or> holds_all a f (vt_remove fd t) ys)"
    and "holds_all a g (vt_remove fd t) ys \<Longrightarrow> g = f"
proof -
  have same: "g = f" if "vt_get t k = Some (File a g)" for k g
    using assms(1,2) that by (auto simp: file_consistent_def)
  have gone: "vt_get (vt_remove fd t) k = Some x \<longleftrightarrow> k \<noteq> fd \<and> vt_get t k = Some x" for k x by simp
  show "b \<noteq> a \<Longrightarrow> holds_all b g t (insert fd ys) = holds_all b g (vt_remove fd t) ys"
    unfolding holds_all_def gone using assms(2,3) by (metis vfd.inject(2) option.inject insert_iff)
  show "holds_all a g t (insert fd ys) \<longleftrightarrow>
      g = f \<and> (\<not> (\<exists>k g. k \<noteq> fd \<and> vt_get t k = Some (File a g)) \<or> holds_all a f (vt_remove fd t) ys)"
    unfolding holds_all_def gone using assms(2,3) same by (metis insert_iff)
  show "holds_all a g (vt_remove fd t) ys \<Longrightarrow> g = f" using same unfolding holds_all_def gone by blast
qed

lemma close_file_fds_exact:
  assumes "hm_ok (fds t)" and "file_consistent t" and "distinct xs"
    and "\<forall>fd \<in> set xs. \<exists>a f. vt_get t fd = Some (File a f)"
  shows "vt_get (snd (close_file_fds xs t)) = (\<lambda>k. if k \<in> set xs then None else vt_get t k) \<and>
    set (fst (close_file_fds xs t)) = {real_fd f | a f. (\<exists>k \<in> set xs. vt_get t k = Some (File a f)) \<and>
      (\<forall>k g. vt_get t k = Some (File a g) \<longrightarrow> k \<in> set xs)}"
  using assms unfolding holds_all_def [symmetric]
proof (induction xs arbitrary: t)
  case Nil
  then show ?case by (simp add: holds_all_def)
next
  case (Cons fd xs)
  obtain a f where af: "vt_get t fd = Some (File a f)" using Cons.prems(4) by auto
  let ?t = "vt_remove fd t"
  have con: "file_consistent ?t" using Cons.prems(2) by (auto simp: file_consistent_def)
  have live: "\<forall>x \<in> set xs. \<exists>a f. vt_get ?t x = Some (File a f)" using Cons.prems(3,4) by auto
  have IH: "vt_get (snd (close_file_fds xs ?t)) = (\<lambda>k. if k \<in> set xs then None else vt_get ?t k)"
    "set (fst (close_file_fds xs ?t)) = {real_fd g | b g. holds_all b g ?t (set xs)}"
    using Cons.IH [OF _ con _ live] Cons.prems(1,3) by simp_all
  note step = close_file_fd_File [OF Cons.prems(1) af]
  have look: "vt_get (snd (close_file_fds (fd # xs) t)) = (\<lambda>k. if k \<in> set (fd # xs) then None else vt_get t k)"
    using IH(1) step by (auto simp: Let_def case_prod_beta)
  have nin: "fd \<notin> set xs" using Cons.prems(3) by simp
  note all = holds_all_remove [OF Cons.prems(2) af nin]
  have "x \<in> set (fst (close_file_fds (fd # xs) t)) \<longleftrightarrow> (\<exists>b g. x = real_fd g \<and> holds_all b g t (insert fd (set xs)))" for x
  proof -
    have "x \<in> set (fst (close_file_fds (fd # xs) t)) \<longleftrightarrow>
        (\<not> (\<exists>k g. k \<noteq> fd \<and> vt_get t k = Some (File a g)) \<and> x = real_fd f) \<or>
        (\<exists>b g. x = real_fd g \<and> holds_all b g ?t (set xs))"
      using step IH(2) by (auto simp: Let_def case_prod_beta)
    then show ?thesis using all by (metis (no_types))
  qed
  then have "set (fst (close_file_fds (fd # xs) t)) = {real_fd g | b g. holds_all b g t (set (fd # xs))}" by auto
  with look show ?case by blast
qed

section \<open>Properties\<close>

text \<open>
  C5. In every state reachable by descriptor operations of any number of virtual processes
  (inserting, opening, duplicating, creating, reading and writing pipes, closing, forking,
  starting, reaping, shutting down), with any descriptor numbers and any counter values, every
  table has distinct descriptors, every pipe reference leads to a live well-formed buffer and
  every file reference to an allocated object. If moreover the run is careful (\<open>c\<close>: no \<^verbatim>\<open>dup2\<close>
  to a number at or above the counter, no \<^verbatim>\<open>insert_at\<close> at the largest number, no allocation that
  wraps the counter), all descriptors stay below the allocation counter; the code does not
  enforce these conditions.
\<close>

theorem fd_world_invariant:
  assumes "(fd_step c)\<^sup>*\<^sup>* fd_world_init w"
  shows "world_sound w \<and> (c \<longrightarrow> world_ok w)"
  using fd_sys.reachable_inv fd_careful.reachable_inv assms by (cases c) auto

lemma world_ok_started: "world_ok (create_table_with_fds v i e r fd_world_init)"
  using fd_step_keeps [OF fd_step.start world_ok_init] .

lemma get_table_started:
  "get_table v (create_table_with_fds u i e r fd_world_init) =
     (if v = u then Some (vt_new_with_fds i e r) else None)"
  by (simp add: create_table_with_fds_def insert_table_def get_table_def fd_world_init_def)

text \<open>
  The state after starting a process and a \<^verbatim>\<open>dup2\<close> from 1 to 9, far above its counter, is
  reachable and sound, and so is, on a careful run, the state after starting and forking.
\<close>

theorem fd_world_invariant_witness:
  "let w1 = create_table_with_fds 1 10 11 12 fd_world_init;
       s = snd (vt_dup2 1 9 (wstore w1) (vt_new_with_fds 10 11 12))
   in world_sound (put_table 1 s w1) \<and> world_ok (fork_fd_table 1 2 w1)"
proof -
  define w1 where "w1 = create_table_with_fds 1 10 11 12 fd_world_init"
  define s where "s = snd (vt_dup2 1 9 (wstore w1) (vt_new_with_fds 10 11 12))"
  have start: "fd_step c fd_world_init w1" for c unfolding w1_def by (rule fd_step.start)
  have "get_table 1 w1 = Some (vt_new_with_fds 10 11 12)" by (simp add: w1_def get_table_started)
  moreover have "vt_dup2 1 9 (wstore w1) (vt_new_with_fds 10 11 12) =
      (fst (vt_dup2 1 9 (wstore w1) (vt_new_with_fds 10 11 12)), fst s, snd s)" by (simp add: s_def)
  then have "vt_step False (wstore w1) (vt_new_with_fds 10 11 12) (fst s) (snd s)"
    by (rule vt_step.dup2 [rotated]) simp
  ultimately have "fd_step False w1 (put_table 1 (fst s, snd s) w1)" by (rule fd_step.on_table)
  then have "fd_step False w1 (put_table 1 s w1)" by simp
  then have "(fd_step False)\<^sup>*\<^sup>* fd_world_init (put_table 1 s w1)" using start [of False] by auto
  moreover have "(fd_step True)\<^sup>*\<^sup>* fd_world_init (fork_fd_table 1 2 w1)"
    using start [of True] fd_step.fork [of True w1 1 2] by auto
  ultimately show ?thesis
    using fd_world_invariant [of False "put_table 1 s w1"] fd_world_invariant [of True "fork_fd_table 1 2 w1"]
    unfolding w1_def s_def Let_def by blast
qed

text \<open>
  The descriptor allocator returns whenever a descriptor is free: it hands out the
  counter, changes no entry, and leaves the counter at a number that is not in use, also
  after the 32-bit counter wraps around.
\<close>

theorem alloc_fd_terminates:
  assumes "length (fds t) < 2 ^ 32"
  shows "\<exists>t'. alloc_fd t = Some (next_fd t, t') \<and> fds t' = fds t \<and>
    \<not> hm_contains (fds t') (next_fd t')"
  using alloc_fd_total [OF assms] by auto

theorem alloc_fd_terminates_witness:
  "\<exists>t'. alloc_fd vt_new = Some (3, t') \<and> \<not> hm_contains (fds t') (next_fd t')"
  using alloc_fd_terminates [of vt_new] by (auto simp: vt_new_def hm_insert_def)

text \<open>
  Descriptor numbers behave as names: an insertion into a well-formed table uses a
  number that was free, is visible under it and changes no other entry; a second insertion
  gets a different number; closing the descriptor gives back every earlier lookup.
\<close>

theorem insert_close_roundtrip:
  assumes "vt_wf t" and "vt_room 1 t" and "vt_insert v t = Some (fd, t')"
  shows "vt_get t fd = None \<and> vt_get t' = (vt_get t)(fd \<mapsto> v) \<and> vt_wf t' \<and>
    (\<forall>v2 fd2 t2. vt_room 1 t' \<longrightarrow> vt_insert v2 t' = Some (fd2, t2) \<longrightarrow> fd2 \<noteq> fd) \<and>
    vt_get (snd (snd (vt_close fd st t'))) = vt_get t"
proof -
  have "snd (snd (vt_close fd st t')) = vt_remove fd t'"
    using fdt.insD(2) [OF assms]
    by (auto simp: vt_close_def close_pipe_end_def vt_get_def Let_def fun_eq_iff
        split: vfd.split option.split)
  then have "vt_get (snd (snd (vt_close fd st t'))) = vt_get t"
    using fdt.ins_rem_restores [OF assms] by simp
  then show ?thesis using fdt.insD [OF assms] fdt.ins_distinct(1) [OF assms] by blast
qed

theorem insert_close_roundtrip_witness:
  "\<exists>fd t'. vt_insert (Real 7) vt_new = Some (fd, t') \<and> vt_get t' fd = Some (Real 7) \<and>
     vt_get vt_new fd = None \<and>
     vt_get (snd (snd (vt_close fd (wstore fd_world_init) t'))) = vt_get vt_new"
proof -
  have room: "vt_room 1 vt_new" by (simp add: vt_room_def vt_new_def)
  then obtain fd t' where ins: "vt_insert (Real 7) vt_new = Some (fd, t')"
    using fdt.ins_law [OF vt_wf_new] by blast
  show ?thesis using ins insert_close_roundtrip [OF vt_wf_new room ins] by auto
qed

text \<open>
  Creating a pipe gives two new descriptors that refer to one new, empty, open buffer
  which nothing referred to before, and leaves every other descriptor and buffer alone.
\<close>

theorem create_pipe_fresh:
  assumes "store_ok st" and "tab_ok st t" and "vt_room 2 t"
  shows "\<exists>rfd wfd st' t'. create_pipe st t = Some (rfd, wfd, st', t') \<and> rfd \<noteq> wfd \<and>
    vt_get t rfd = None \<and> vt_get t wfd = None \<and>
    vt_get t' = (vt_get t)(rfd \<mapsto> PipeRead (next_arc st), wfd \<mapsto> PipeWrite (next_arc st)) \<and>
    pipes st (next_arc st) = None \<and> pipes st' = (pipes st)(next_arc st \<mapsto> pipe_new) \<and>
    \<not> list_ex (refs_pipe (next_arc st)) (hm_values (fds t))"
proof -
  have wf: "vt_wf t" and arcs: "\<And>k v. vt_get t k = Some v \<Longrightarrow> arc_ok st v"
    using assms(2) by (auto simp: tab_ok_def vt_get_def)
  have r1: "vt_room 1 t" using assms(3) by (rule vt_room_mono) simp
  have less: "next_fd t < next_fd t + 1" by (rule next_fd_less_grow [OF r1])
  have nin: "pipes st (next_arc st) = None"
    using assms(1) by (cases "pipes st (next_arc st)") (auto simp: store_ok_def)
  have "\<not> refs_pipe (next_arc st) v" if "arc_ok st v" for v
    using that nin by (cases v) auto
  then have "\<not> list_ex (refs_pipe (next_arc st)) (hm_values (fds t))"
    using arcs wf by (auto simp: list_ex_iff vt_get_values vt_wf_def)
  moreover have "vt_get t (next_fd t) = None" "vt_get t (next_fd t + 1) = None"
    using wf less by (auto simp: vt_wf_def vt_get_def hm_contains_def dest: order.asym)
  ultimately show ?thesis
    using create_pipe_eq [OF wf assms(3), of st] nin less
    by (auto simp: vt_get_def fun_eq_iff)
qed

theorem create_pipe_fresh_witness:
  "\<exists>rfd wfd st' t'. create_pipe (wstore fd_world_init) vt_new = Some (rfd, wfd, st', t') \<and> rfd \<noteq> wfd"
  using create_pipe_fresh [of "wstore fd_world_init" vt_new] tab_ok_new
  by (fastforce simp: store_ok_def fd_world_init_def vt_room_def vt_new_def)

text \<open>
  Closing one end of a pipe removes exactly that descriptor, and closes the buffer
  exactly when no descriptor of the same table still refers to it.
\<close>

theorem close_pipe_end_exact:
  assumes "hm_ok (fds t)" and "vt_get t fd = Some v" and "refs_pipe a v"
  shows "\<exists>st' t'. vt_close fd st t = (Ok (), st', t') \<and> vt_get t' = (vt_get t)(fd := None) \<and>
    pipes st' = (if \<exists>k x. k \<noteq> fd \<and> vt_get t k = Some x \<and> refs_pipe a x then pipes st
                 else (pipes st)(a := map_option pipe_close (pipes st a)))"
proof -
  let ?t = "vt_remove fd t"
  have "list_ex (refs_pipe a) (hm_values (fds ?t)) \<longleftrightarrow>
      (\<exists>k x. k \<noteq> fd \<and> vt_get t k = Some x \<and> refs_pipe a x)"
    using assms(1) by (auto simp: list_ex_iff vt_get_values Bex_def split: if_splits)
  moreover have "vt_close fd st t = (Ok (), close_pipe_end a fd st t)"
    using assms(2,3) by (cases v) (auto simp: vt_close_def vt_get_def)
  ultimately show ?thesis
    by (auto simp: close_pipe_end_def Let_def pipe_shut_def fun_eq_iff)
qed

theorem close_pipe_end_exact_witness:
  "let t = vt_new\<lparr>fds := hm_insert 5 (PipeRead 0) (fds vt_new)\<rparr>;
       st = \<lparr>pipes = [0 \<mapsto> pipe_new], next_arc = 1\<rparr>
   in \<exists>st' t'. vt_close 5 st t = (Ok (), st', t') \<and> pipes st' 0 = Some (pipe_close pipe_new)"
proof -
  define t where "t = vt_new\<lparr>fds := hm_insert 5 (PipeRead 0) (fds vt_new)\<rparr>"
  have "hm_ok (fds t)" "vt_get t 5 = Some (PipeRead 0)"
    by (simp_all add: t_def vt_get_def vt_new_def)
  moreover have only: "\<not> (\<exists>k x. k \<noteq> 5 \<and> vt_get t k = Some x \<and> refs_pipe 0 x)"
    by (auto simp: t_def vt_get_def vt_new_def split: if_splits)
  ultimately have "\<exists>st' t'. vt_close 5 \<lparr>pipes = [0 \<mapsto> pipe_new], next_arc = 1\<rparr> t = (Ok (), st', t') \<and>
      pipes st' = [0 \<mapsto> pipe_close pipe_new]"
    using close_pipe_end_exact [of t 5 "PipeRead 0" 0 "\<lparr>pipes = [0 \<mapsto> pipe_new], next_arc = 1\<rparr>"]
    unfolding if_not_P [OF only] by auto
  then show ?thesis by (auto simp: Let_def t_def [symmetric])
qed

text \<open>
  Forking a descriptor table: a new child sees through every descriptor exactly what its
  parent sees, with the same allocation counter; the parent's table and all buffers are
  unchanged; and the count of every open file grows by the number of descriptors the parent
  has on it.
\<close>

theorem fork_shares_descriptors:
  assumes "world_ok w" and "get_table p w = Some t" and "get_table c w = None"
  shows "\<exists>t'. get_table c (fork_fd_table p c w) = Some t' \<and> vt_get t' = vt_get t \<and>
    next_fd t' = next_fd t \<and> get_table p (fork_fd_table p c w) = Some t \<and>
    wstore (fork_fd_table p c w) = wstore w \<and>
    (\<forall>a. strong_count a (fork_fd_table p c w) =
           strong_count a w + length (filter (refs_file a) (hm_values (fds t))))"
proof -
  have "hm_ok (fds t)" using world_okD(3) [OF assms(1,2)] by (simp add: tab_ok_def vt_wf_def)
  then have "fork_fd_table p c w = w\<lparr>wstore := wstore w, tables := hm_insert c t (tables w)\<rparr>"
    using assms(2,3) by (simp add: fork_fd_table_def insert_table_def drop_entry_def get_table_def
        clone_for_fork_id)
  then show ?thesis
    using assms(2,3) strong_count_insert_fresh [where w = w and c = c and st = "wstore w" and t = t]
    by (auto simp: get_table_def)
qed

theorem fork_shares_descriptors_witness:
  "\<exists>t'. get_table 2 (fork_fd_table 1 2 (create_table_with_fds 1 10 11 12 fd_world_init)) = Some t' \<and>
     vt_get t' 1 = Some (Real 11)"
proof -
  have "vt_get (vt_new_with_fds 10 11 12) 1 = Some (Real 11)"
    by (simp add: vt_get_def vt_new_with_fds_def)
  then show ?thesis
    using fork_shares_descriptors [OF world_ok_started [of 1 10 11 12], of 1 "vt_new_with_fds 10 11 12" 2]
    by (auto simp: get_table_started)
qed

lemma reaped_fds:
  assumes "world_ok w" and "get_table vpid w = Some t"
  shows "set (fst (remove_table_and_get_fds vpid w)) =
      {r. \<exists>k. vt_get t k = Some (Real r)} \<union>
      {real_fd f | a f. (\<exists>k. vt_get t k = Some (File a f)) \<and> strong_count a w = 1}"
proof -
  have ok: "hm_ok (fds t)" using world_okD(3) [OF assms] by (simp add: tab_ok_def vt_wf_def)
  have get: "hm_get (tables w) vpid = Some t" using assms(2) by (simp add: get_table_def)
  have uniq: "f = f'" if "strong_count a w = 1" "File a f \<in> set (hm_values (fds t))"
      "File a f' \<in> set (hm_values (fds t))" for a f f'
  proof (rule count_one_unique)
    show "length (filter (refs_file a) (hm_values (fds t))) \<le> 1"
      using that(1) strong_count_ge [OF hm_get_Some_mem [OF get], of a] by simp
  qed (use that in auto)
  show ?thesis
    using set_collect_fds [where w = w and vs = "hm_values (fds t)" and sr = "[]" and sf = "[]", OF uniq]
    by (simp add: vt_get_values [OF ok] remove_table_and_get_fds_def get)
qed

text \<open>
  What reaping a virtual process closes: the real descriptors returned for closing are
  exactly those of the borrowed entries of its table and of the files no other descriptor
  of any process holds; its table is gone and its pipes are closed.
\<close>

theorem reap_returns_exactly:
  assumes "world_ok w" and "get_table vpid w = Some t"
  shows "set (fst (remove_table_and_get_fds vpid w)) =
      {r. \<exists>k. vt_get t k = Some (Real r)} \<union>
      {real_fd f | a f. (\<exists>k. vt_get t k = Some (File a f)) \<and> strong_count a w = 1}
    \<and> get_table vpid (snd (remove_table_and_get_fds vpid w)) = None
    \<and> (\<forall>a. pipes (wstore (snd (remove_table_and_get_fds vpid w))) a =
          (if \<exists>k x. vt_get t k = Some x \<and> refs_pipe a x then map_option pipe_close (pipes (wstore w) a)
           else pipes (wstore w) a))"
proof -
  have ok: "hm_ok (fds t)" using world_okD(3) [OF assms] by (simp add: tab_ok_def vt_wf_def)
  have get: "hm_get (tables w) vpid = Some t" using assms(2) by (simp add: get_table_def)
  have "list_ex (refs_pipe a) (hm_values (fds t)) \<longleftrightarrow>
      (\<exists>k x. vt_get t k = Some x \<and> refs_pipe a x)" for a
    by (auto simp: list_ex_iff vt_get_values [OF ok] Bex_def)
  then have "get_table vpid (snd (remove_table_and_get_fds vpid w)) = None
    \<and> (\<forall>a. pipes (wstore (snd (remove_table_and_get_fds vpid w))) a =
          (if \<exists>k x. vt_get t k = Some x \<and> refs_pipe a x then map_option pipe_close (pipes (wstore w) a)
           else pipes (wstore w) a))"
    using get by (simp add: remove_table_and_get_fds_def remove_table_def get_table_def
        drop_entry_def vt_drop_pipes)
  then show ?thesis using reaped_fds [OF assms] by blast
qed

theorem reap_returns_exactly_witness:
  "{10, 11, 12} = set (fst (remove_table_and_get_fds 1 (create_table_with_fds 1 10 11 12 fd_world_init)))"
proof -
  define t where "t = vt_new_with_fds 10 11 12"
  have get: "vt_get t k = (if k = 2 then Some (Real 12) else if k = 1 then Some (Real 11)
      else if k = 0 then Some (Real 10) else None)" for k
    by (simp add: t_def vt_get_def vt_new_with_fds_def)
  have "{r. \<exists>k. vt_get t k = Some (Real r)} \<subseteq> {10, 11, 12}" by (auto simp: get split: if_splits)
  moreover have "vt_get t 0 = Some (Real 10)" "vt_get t 1 = Some (Real 11)" "vt_get t 2 = Some (Real 12)"
    by (simp_all add: get)
  ultimately have borrowed: "{r. \<exists>k. vt_get t k = Some (Real r)} = {10, 11, 12}" by blast
  have files: "\<not> (\<exists>k. vt_get t k = Some (File a f))" for a f by (simp add: get split: if_splits)
  have "get_table 1 (create_table_with_fds 1 10 11 12 fd_world_init) = Some t"
    by (simp add: get_table_started t_def)
  from reap_returns_exactly [OF world_ok_started this] show ?thesis
    unfolding borrowed using files by simp
qed

text \<open>
  No double close across processes: a file that two virtual processes hold is not among
  the descriptors the first of them to be reaped hands out for closing, as long as its real
  number is not also carried by another entry.
\<close>

theorem reap_spares_shared_files:
  assumes "world_ok w" and "get_table v1 w = Some t1" and "get_table v2 w = Some t2" and "v1 \<noteq> v2"
    and "vt_get t1 k1 = Some (File a f)" and "vt_get t2 k2 = Some (File a g)"
    and "\<forall>k. vt_get t1 k \<noteq> Some (Real (real_fd f))"
    and "\<forall>k b h. vt_get t1 k = Some (File b h) \<longrightarrow> b \<noteq> a \<longrightarrow> real_fd h \<noteq> real_fd f"
  shows "real_fd f \<notin> set (fst (remove_table_and_get_fds v1 w))"
proof -
  have ok: "hm_ok (fds t1)" "hm_ok (fds t2)"
    using world_okD(3) [OF assms(1)] assms(2,3) by (auto simp: tab_ok_def vt_wf_def)
  have mem: "(v1, t1) \<in> set (tables w)" "(v2, t2) \<in> set (tables w)"
    using assms(2,3) by (auto simp: get_table_def dest: hm_get_Some_mem)
  have "list_ex (refs_file a) (hm_values (fds t1))" "list_ex (refs_file a) (hm_values (fds t2))"
    using assms(5,6) vt_get_values [OF ok(1)] vt_get_values [OF ok(2)]
    by (auto simp: list_ex_iff refs_file_iff)
  then have cnt: "strong_count a w \<noteq> 1" using strong_count_ge2 [OF mem assms(4)] by force
  then show ?thesis using assms(7,8) unfolding reaped_fds [OF assms(1,2)]
    by (smt (verit) Un_iff mem_Collect_eq)
qed

theorem reap_spares_shared_files_witness:
  "\<exists>w t f k. get_table 1 w = Some t \<and> vt_get t k = Some (File 0 f) \<and>
     real_fd f \<notin> set (fst (remove_table_and_get_fds 1 w))"
proof -
  define t where "t = \<lparr>fds = [(3, File 0 \<lparr>real_fd = 40, cloexec = False\<rparr>)], next_fd = 4\<rparr>"
  define w where "w = \<lparr>wstore = \<lparr>pipes = Map.empty, next_arc = 1\<rparr>, tables = [(1, t), (2, t)]\<rparr>"
  have tab: "get_table 1 w = Some t" "get_table 2 w = Some t"
    by (simp_all add: w_def get_table_def hm_get_def)
  have get: "vt_get t k = (if k = 3 then Some (File 0 \<lparr>real_fd = 40, cloexec = False\<rparr>) else None)" for k
    by (simp add: t_def vt_get_def hm_get_def)
  have "tab_ok (wstore w) t"
    by (auto simp: tab_ok_def vt_wf_def t_def w_def hm_ok_def hm_keys_def hm_contains_def hm_get_def
        split: if_splits)
  then have "world_ok w"
    by (auto simp: world_ok_def store_ok_def w_def hm_ok_def hm_keys_def hm_get_def split: if_splits)
  from reap_spares_shared_files [OF this tab, of 3 0 "\<lparr>real_fd = 40, cloexec = False\<rparr>" 3
      "\<lparr>real_fd = 40, cloexec = False\<rparr>"]
  have "40 \<notin> set (fst (remove_table_and_get_fds 1 w))" by (simp add: get split: if_splits)
  with tab(1) get show ?thesis by fastforce
qed

end
