(* ===== verification/Coroutine.thy ===== *)
theory Coroutine
  imports Vfd_World
begin

text \<open>
  The coroutines of \<^verbatim>\<open>src/src/coroutine.rs\<close>: the \<^verbatim>\<open>Coroutine\<close> structure with its lifecycle
  operations, the initial stack of an ELF process, and the state of the whole runtime that
  the scheduler works on (\<open>sys\<close>). The context switching library (minicoro) is not part of
  the Rust sources: a coroutine is its opaque handle, creation takes the library's answer
  as an argument (\<^const>\<open>None\<close> for a failure code) and resuming takes the effect of the
  coroutine's code up to its next switch as a function argument.
\<close>

section \<open>Data\<close>

type_synonym VPid = u32
type_synonym rstr = "u8 list"
type_synonym handle = nat

record IoWait =
  io_fds :: "(c_int \<times> u16) list"
  deadline :: "nat option"

definition DEFAULT_STACK_SIZE :: usize where
  "DEFAULT_STACK_SIZE = 2 * 1024 * 1024"

datatype State = Ready | Running | Done

text \<open>
  \<^verbatim>\<open>CoroUserdata\<close>, reached through the library's user data pointer. Closures are identified
  by numbers.
\<close>

record CoroUserdata =
  ud_exit_code :: c_int
  closure :: "nat option"

record Coroutine =
  cid :: VPid
  ppid :: VPid
  co :: handle
  userdata :: CoroUserdata
  state :: State
  exit_code :: c_int
  is_fork_child :: bool
  fork_child_pid :: u32
  c_strings :: "usize list"
  mapped_regions :: "(usize \<times> usize) list"
  pending_signals :: "c_int list"
  cwd :: "rstr option"
  binary_path :: "rstr option"
  io_wait :: "IoWait option"
  stack_alloc :: "(usize \<times> usize) option"

text \<open>Calls that leave the runtime and are not undone by it.\<close>

datatype effect =
    FreeCString usize
  | Munmap usize usize
  | FreeElfStack usize usize
  | DropUserdata handle
  | McoDestroy handle
  | RealClose c_int
  | Dup3 c_int c_int
  | RealDup2 c_int c_int

record Executor =
  vprocs :: "(VPid, Coroutine) hmap"
  ready_queue :: "VPid list"
  next_pid :: VPid
  current :: "VPid option"
  switch_count :: u64
  children :: "(VPid, VPid list) hmap"
  saved_fork_lr :: "u64 option"
  exit_codes :: "(VPid, c_int) hmap"

text \<open>
  The state of one scheduler thread: the executor behind the thread-local pointer
  (\<open>ex_set\<close> tells that the pointer is not null), the coroutine the library reports as
  running, the descriptor tables, and the effects so far.
\<close>

record sys =
  ex_set :: bool
  ex :: Executor
  mco_running :: "handle option"
  fdw :: fd_world
  trace :: "effect list"

definition emit :: "effect list \<Rightarrow> sys \<Rightarrow> sys" where
  "emit es s = s\<lparr>trace := trace s @ es\<rparr>"

section \<open>Creating coroutines\<close>

definition coroutine_new :: "VPid \<Rightarrow> nat \<Rightarrow> handle option \<Rightarrow> Coroutine option" where
  "coroutine_new pid f mco =
     map_option (\<lambda>h.
       \<lparr>cid = pid, ppid = 0, co = h, userdata = \<lparr>ud_exit_code = 0, closure = Some f\<rparr>,
        state = Ready, exit_code = 0, is_fork_child = False, fork_child_pid = 0, c_strings = [],
        mapped_regions = [], pending_signals = [], cwd = None, binary_path = None, io_wait = None,
        stack_alloc = None\<rparr>) mco"

text \<open>
  The initial stack of an ELF process: the words written upwards from the returned stack
  pointer. Memory maps the address of an aligned-free 8-byte store to its word.
\<close>

type_synonym mem = "usize \<Rightarrow> u64 option"

fun write_words :: "usize \<Rightarrow> u64 list \<Rightarrow> mem \<Rightarrow> usize \<times> mem" where
  "write_words sp [] m = (sp, m)"
| "write_words sp (w # ws) m = write_words (sp + 8) ws (m(sp \<mapsto> w))"

fun write_auxv :: "usize \<Rightarrow> (u64 \<times> u64) list \<Rightarrow> mem \<Rightarrow> usize \<times> mem" where
  "write_auxv sp [] m = (sp, m)"
| "write_auxv sp ((kind, val) # as) m = write_auxv (sp + 16) as (m(sp \<mapsto> kind, sp + 8 \<mapsto> val))"

definition elf_data_size :: "usize list \<Rightarrow> usize list \<Rightarrow> (u64 \<times> u64) list \<Rightarrow> usize" where
  "elf_data_size argv envp auxv =
     (let argv_size = (of_nat (length argv) + 1) * 8;
          envp_size = (of_nat (length envp) + 1) * 8;
          auxv_size = of_nat (length auxv) * 16
      in and (8 + argv_size + envp_size + auxv_size + 15) (not 15))"

definition elf_stack ::
  "usize \<Rightarrow> usize \<Rightarrow> usize \<Rightarrow> usize list \<Rightarrow> usize list \<Rightarrow> (u64 \<times> u64) list \<Rightarrow> mem \<Rightarrow> usize \<times> mem" where
  "elf_stack stack_base stack_size argc argv envp auxv m =
     (let stack_top = stack_base + stack_size;
          elf_data_bottom = stack_top - elf_data_size argv envp auxv;
          (sp1, m1) = write_words elf_data_bottom [argc] m;
          (sp2, m2) = write_words sp1 argv m1;
          (sp3, m3) = write_words sp2 [0] m2;
          (sp4, m4) = write_words sp3 envp m3;
          (sp5, m5) = write_words sp4 [0] m4;
          (sp6, m6) = write_auxv sp5 auxv m5
      in (elf_data_bottom, m6))"

text \<open>\<open>mco\<close> answers for the entry point and stack pointer the library is called with.\<close>

definition coroutine_new_elf ::
  "VPid \<Rightarrow> usize \<Rightarrow> usize \<Rightarrow> usize \<Rightarrow> usize \<Rightarrow> usize list \<Rightarrow> usize list \<Rightarrow> (u64 \<times> u64) list \<Rightarrow>
   (usize \<Rightarrow> usize \<Rightarrow> handle option) \<Rightarrow> mem \<Rightarrow> (Coroutine \<times> mem) option" where
  "coroutine_new_elf pid entry stack_base stack_size argc argv envp auxv mco m =
     (let (sp, m') = elf_stack stack_base stack_size argc argv envp auxv m
      in map_option (\<lambda>h.
       (\<lparr>cid = pid, ppid = 0, co = h, userdata = \<lparr>ud_exit_code = 0, closure = None\<rparr>,
         state = Ready, exit_code = 0, is_fork_child = False, fork_child_pid = 0, c_strings = [],
         mapped_regions = [], pending_signals = [], cwd = None, binary_path = None, io_wait = None,
         stack_alloc = Some (stack_base, stack_size)\<rparr>, m')) (mco entry sp))"

definition fork_from :: "VPid \<Rightarrow> Coroutine \<Rightarrow> handle option \<Rightarrow> Coroutine option" where
  "fork_from child_id parent mco =
     map_option (\<lambda>h.
       \<lparr>cid = child_id, ppid = cid parent, co = h, userdata = \<lparr>ud_exit_code = 0, closure = None\<rparr>,
        state = Ready, exit_code = 0, is_fork_child = True, fork_child_pid = 0, c_strings = [],
        mapped_regions = [], pending_signals = [], cwd = cwd parent, binary_path = None,
        io_wait = None, stack_alloc = None\<rparr>) mco"

section \<open>Lifecycle\<close>

definition is_done :: "Coroutine \<Rightarrow> bool" where
  "is_done c \<longleftrightarrow> state c = Done"

definition set_done :: "c_int \<Rightarrow> Coroutine \<Rightarrow> Coroutine" where
  "set_done code c =
     c\<lparr>state := Done, exit_code := code,
       userdata := (userdata c)\<lparr>ud_exit_code := code, closure := None\<rparr>\<rparr>"

text \<open>The destructor, as the sequence of its calls.\<close>

definition coroutine_drop :: "Coroutine \<Rightarrow> effect list" where
  "coroutine_drop c =
     map FreeCString (c_strings c) @
     map (\<lambda>(base, sz). Munmap base sz) (mapped_regions c) @
     (case stack_alloc c of None \<Rightarrow> [] | Some (base, sz) \<Rightarrow> [FreeElfStack base sz]) @
     [DropUserdata (co c), McoDestroy (co c)]"

definition with_vprocs :: "((VPid, Coroutine) hmap \<Rightarrow> (VPid, Coroutine) hmap) \<Rightarrow> sys \<Rightarrow> sys" where
  "with_vprocs f s = s\<lparr>ex := (ex s)\<lparr>vprocs := f (vprocs (ex s))\<rparr>\<rparr>"

definition set_state :: "State \<Rightarrow> VPid \<Rightarrow> sys \<Rightarrow> sys" where
  "set_state st pid s = with_vprocs (hm_modify pid (\<lambda>c. c\<lparr>state := st\<rparr>)) s"

text \<open>
  \<^verbatim>\<open>resume\<close> on the coroutine stored under \<open>pid\<close>: \<open>run\<close> is the effect of the coroutine's code
  up to its next switch and whether the library then reports it dead. The reference is
  held across the call: \<^const>\<open>None\<close> where the entry is gone afterwards.
\<close>

definition resume :: "(handle \<Rightarrow> sys \<Rightarrow> sys \<times> bool) \<Rightarrow> VPid \<Rightarrow> sys \<Rightarrow> sys option" where
  "resume run pid s =
     Option.bind (hm_get (vprocs (ex s)) pid) (\<lambda>c.
       let (s2, dead) = run (co c) (set_state Running pid s)
       in map_option (\<lambda>c2.
            if state c2 \<noteq> Done then set_state (if dead then Done else Ready) pid s2 else s2)
          (hm_get (vprocs (ex s2)) pid))"

text \<open>Putting a coroutine under a process id drops the one it displaces.\<close>

definition insert_vproc :: "VPid \<Rightarrow> Coroutine \<Rightarrow> sys \<Rightarrow> sys" where
  "insert_vproc pid c s =
     with_vprocs (hm_insert pid c)
       (case hm_get (vprocs (ex s)) pid of None \<Rightarrow> s | Some old \<Rightarrow> emit (coroutine_drop old) s)"

end
