(* ===== verification/Executor.thy ===== *)
theory Executor
  imports Coroutine
begin

text \<open>
  The cooperative scheduler of \<^verbatim>\<open>src/src/executor.rs\<close>: spawning and forking virtual
  processes, picking the next one, delivering signals, stepping from inside and from the
  driver, waiting for I/O, exit codes and reaping. \<^const>\<open>None\<close> is a panic or an abort of
  the process. Every function takes the state \<open>sys\<close>; a null executor pointer is
  \<open>ex_set s = False\<close>.
\<close>

definition SIGKILL :: c_int where [simp]: "SIGKILL = 9"
definition SIGTERM :: c_int where [simp]: "SIGTERM = 15"

definition set_current_executor :: "bool \<Rightarrow> sys \<Rightarrow> sys" where
  "set_current_executor nonnull s = s\<lparr>ex_set := nonnull\<rparr>"

definition executor_new :: Executor where
  "executor_new =
     \<lparr>vprocs = [], ready_queue = [], next_pid = 1, current = None, switch_count = 0,
      children = [], saved_fork_lr = None, exit_codes = []\<rparr>"

definition with_queue :: "(VPid list \<Rightarrow> VPid list) \<Rightarrow> sys \<Rightarrow> sys" where
  "with_queue f s = s\<lparr>ex := (ex s)\<lparr>ready_queue := f (ready_queue (ex s))\<rparr>\<rparr>"

definition with_children :: "((VPid, VPid list) hmap \<Rightarrow> (VPid, VPid list) hmap) \<Rightarrow> sys \<Rightarrow> sys" where
  "with_children f s = s\<lparr>ex := (ex s)\<lparr>children := f (children (ex s))\<rparr>\<rparr>"

definition with_exit_codes :: "((VPid, c_int) hmap \<Rightarrow> (VPid, c_int) hmap) \<Rightarrow> sys \<Rightarrow> sys" where
  "with_exit_codes f s = s\<lparr>ex := (ex s)\<lparr>exit_codes := f (exit_codes (ex s))\<rparr>\<rparr>"

definition set_current :: "VPid option \<Rightarrow> sys \<Rightarrow> sys" where
  "set_current c s = s\<lparr>ex := (ex s)\<lparr>current := c\<rparr>\<rparr>"

definition count_switch :: "sys \<Rightarrow> sys" where
  "count_switch s = s\<lparr>ex := (ex s)\<lparr>switch_count := switch_count (ex s) + 1\<rparr>\<rparr>"

definition bump_pid :: "sys \<Rightarrow> VPid \<times> sys" where
  "bump_pid s = (next_pid (ex s), s\<lparr>ex := (ex s)\<lparr>next_pid := next_pid (ex s) + 1\<rparr>\<rparr>)"

section \<open>Spawning\<close>

definition spawn :: "nat \<Rightarrow> handle option \<Rightarrow> sys \<Rightarrow> (VPid \<times> sys) option" where
  "spawn f mco s =
     (let (pid, s1) = bump_pid s
      in map_option (\<lambda>c. (pid, with_queue (\<lambda>q. q @ [pid]) (insert_vproc pid c s1)))
           (coroutine_new pid f mco))"

definition spawn_front :: "nat \<Rightarrow> handle option \<Rightarrow> sys \<Rightarrow> (VPid \<times> sys) option" where
  "spawn_front f mco s =
     (let (pid, s1) = bump_pid s
      in map_option (\<lambda>c. (pid, with_queue (\<lambda>q. pid # q) (insert_vproc pid c s1)))
           (coroutine_new pid f mco))"

definition spawn_elf ::
  "usize \<Rightarrow> usize \<Rightarrow> usize \<Rightarrow> usize \<Rightarrow> usize list \<Rightarrow> usize list \<Rightarrow> (u64 \<times> u64) list \<Rightarrow>
   (usize \<Rightarrow> usize \<Rightarrow> handle option) \<Rightarrow> mem \<Rightarrow> sys \<Rightarrow> (VPid \<times> mem \<times> sys) option" where
  "spawn_elf entry stack_base stack_size argc argv envp auxv mco m s =
     (let (pid, s1) = bump_pid s
      in map_option (\<lambda>(c, m'). (pid, m', with_queue (\<lambda>q. q @ [pid]) (insert_vproc pid c s1)))
           (coroutine_new_elf pid entry stack_base stack_size argc argv envp auxv mco m))"

definition register_c_strings :: "VPid \<Rightarrow> usize list \<Rightarrow> sys \<Rightarrow> sys" where
  "register_c_strings vpid strings s =
     with_vprocs (hm_modify vpid (\<lambda>c. c\<lparr>c_strings := strings\<rparr>)) s"

definition register_mapped_region :: "VPid \<Rightarrow> usize \<Rightarrow> usize \<Rightarrow> sys \<Rightarrow> sys" where
  "register_mapped_region vpid base sz s =
     with_vprocs (hm_modify vpid (\<lambda>c. c\<lparr>mapped_regions := mapped_regions c @ [(base, sz)]\<rparr>)) s"

definition push_child :: "VPid \<Rightarrow> VPid \<Rightarrow> (VPid, VPid list) hmap \<Rightarrow> (VPid, VPid list) hmap" where
  "push_child parent child m =
     hm_insert parent ((case hm_get m parent of None \<Rightarrow> [] | Some kids \<Rightarrow> kids) @ [child]) m"

definition spawn_fork_child :: "VPid \<Rightarrow> handle option \<Rightarrow> sys \<Rightarrow> (VPid \<times> sys) option" where
  "spawn_fork_child parent_pid mco s =
     (let (child_id, s1) = bump_pid s
      in Option.bind (hm_get (vprocs (ex s1)) parent_pid) (\<lambda>parent_co.
         Option.bind (fork_from child_id parent_co mco) (\<lambda>child.
           let s2 = insert_vproc child_id child s1;
               s3 = with_queue (\<lambda>q. q @ [child_id]) s2;
               s4 = with_children (push_child parent_pid child_id) s3;
               s5 = s4\<lparr>fdw := fork_fd_table parent_pid child_id (fdw s4)\<rparr>
           in if hm_contains (vprocs (ex s5)) parent_pid
              then Some (child_id,
                with_vprocs (hm_modify parent_pid (\<lambda>c. c\<lparr>fork_child_pid := child_id\<rparr>)) s5)
              else None)))"

section \<open>Picking and stepping\<close>

fun pick_loop :: "(VPid, Coroutine) hmap \<Rightarrow> VPid list \<Rightarrow> VPid option \<times> VPid list" where
  "pick_loop vs [] = (None, [])"
| "pick_loop vs (pid # q) =
     (case hm_get vs pid of
        Some c \<Rightarrow> if \<not> is_done c then (Some pid, q) else pick_loop vs q
      | None \<Rightarrow> pick_loop vs q)"

definition pick_next :: "sys \<Rightarrow> VPid option \<times> sys" where
  "pick_next s =
     (let (r, q) = pick_loop (vprocs (ex s)) (ready_queue (ex s)) in (r, with_queue (\<lambda>_. q) s))"

fun signal_loop :: "VPid \<Rightarrow> c_int list \<Rightarrow> sys \<Rightarrow> bool \<times> sys" where
  "signal_loop pid [] s = (False, s)"
| "signal_loop pid (sig # sigs) s =
     (if sig = SIGKILL \<or> sig = SIGTERM
      then (True, with_vprocs (hm_modify pid (set_done (128 + sig))) s)
      else signal_loop pid sigs s)"

definition deliver_signals :: "VPid \<Rightarrow> sys \<Rightarrow> bool \<times> sys" where
  "deliver_signals pid s =
     (case hm_get (vprocs (ex s)) pid of
        None \<Rightarrow> (False, s)
      | Some c \<Rightarrow>
          if pending_signals c = [] then (False, s)
          else signal_loop pid (pending_signals c)
                 (with_vprocs (hm_modify pid (\<lambda>c. c\<lparr>pending_signals := []\<rparr>)) s))"

definition requeue_alive :: "VPid option \<Rightarrow> sys \<Rightarrow> sys" where
  "requeue_alive cur s =
     (case cur of
        None \<Rightarrow> s
      | Some pid \<Rightarrow>
          (case hm_get (vprocs (ex s)) pid of
             None \<Rightarrow> s
           | Some c \<Rightarrow> if is_done c then s else with_queue (\<lambda>q. q @ [pid]) s))"

definition step :: "(handle \<Rightarrow> sys \<Rightarrow> sys \<times> bool) \<Rightarrow> sys \<Rightarrow> (bool \<times> sys) option" where
  "step run s =
     (case pick_next s of
        (None, s1) \<Rightarrow> Some (False, s1)
      | (Some next, s1) \<Rightarrow>
          (case deliver_signals next s1 of
             (True, s2) \<Rightarrow>
               Some (True, case current (ex s2) of
                             None \<Rightarrow> s2 | Some cur \<Rightarrow> with_queue (\<lambda>q. q @ [cur]) s2)
           | (False, s2) \<Rightarrow>
               map_option (\<lambda>s4. (True, s4))
                 (resume run next
                   (count_switch (set_current (Some next) (requeue_alive (current (ex s2)) s2))))))"

definition exec_yield :: "(handle \<Rightarrow> sys \<Rightarrow> sys \<times> bool) \<Rightarrow> sys \<Rightarrow> sys option" where
  "exec_yield run s =
     (case current (ex s) of
        None \<Rightarrow> map_option snd (step run s)
      | Some pid \<Rightarrow>
          Option.bind (hm_get (vprocs (ex s)) pid) (\<lambda>c.
            map_option snd (step run
              (if is_done c then s else with_queue (\<lambda>q. q @ [pid]) (set_state Ready pid s)))))"

section \<open>Reaping\<close>

text \<open>
  \<^verbatim>\<open>vprocs.retain\<close> with its effects: for every finished coroutine, in iteration order, its
  descriptor table is removed, the real descriptors it leaves are closed, and the
  coroutine is dropped.
\<close>

fun reap_loop :: "(VPid \<times> Coroutine) list \<Rightarrow> sys \<Rightarrow> (VPid \<times> Coroutine) list \<times> sys" where
  "reap_loop [] s = ([], s)"
| "reap_loop ((pid, c) # vs) s =
     (if is_done c
      then (let (real_fds, w) = remove_table_and_get_fds pid (fdw s);
                s1 = emit (map RealClose real_fds) (s\<lparr>fdw := w\<rparr>)
            in reap_loop vs (emit (coroutine_drop c) s1))
      else (let (kept, s1) = reap_loop vs s in ((pid, c) # kept, s1)))"

definition prune_kids :: "(VPid, Coroutine) hmap \<Rightarrow> (VPid, VPid list) hmap \<Rightarrow> (VPid, VPid list) hmap" where
  "prune_kids vs m =
     filter (\<lambda>(p, kids). kids \<noteq> []) (map (\<lambda>(p, kids). (p, filter (hm_contains vs) kids)) m)"

definition reap_done_coroutines :: "sys \<Rightarrow> sys" where
  "reap_done_coroutines s =
     (let done_pids = map fst (filter (\<lambda>(pid, c). is_done c) (vprocs (ex s)));
          s1 = with_children (fold hm_remove done_pids) s;
          s2 = with_children (prune_kids (vprocs (ex s1))) s1;
          (kept, s3) = reap_loop (vprocs (ex s2)) s2
      in with_vprocs (\<lambda>_. kept) s3)"

section \<open>Exit codes and children\<close>

text \<open>The state in which the coroutine leaves the processor for good.\<close>

definition vproc_exit_with_code :: "c_int \<Rightarrow> sys \<Rightarrow> sys" where
  "vproc_exit_with_code code s =
     (if \<not> ex_set s then s
      else (case current (ex s) of
              None \<Rightarrow> s
            | Some pid \<Rightarrow>
                with_exit_codes (hm_insert pid code)
                  (with_vprocs (hm_modify pid (\<lambda>c. c\<lparr>state := Done, exit_code := code\<rparr>)) s)))"

definition vproc_exit :: "sys \<Rightarrow> sys" where
  "vproc_exit s = vproc_exit_with_code 0 s"

text \<open>
  The trampoline of a closure coroutine: \<open>body f\<close> runs the closure to its end and tells
  whether it panicked. A missing closure aborts.
\<close>

definition mco_trampoline :: "(nat \<Rightarrow> sys \<Rightarrow> sys \<times> bool) \<Rightarrow> VPid \<Rightarrow> sys \<Rightarrow> sys option" where
  "mco_trampoline body pid s =
     Option.bind (hm_get (vprocs (ex s)) pid) (\<lambda>c.
     Option.bind (closure (userdata c)) (\<lambda>f.
       let s1 = with_vprocs (hm_modify pid (\<lambda>c. c\<lparr>userdata := (userdata c)\<lparr>closure := None\<rparr>\<rparr>)) s;
           (s2, panicked) = body f s1
       in Some (vproc_exit_with_code (if panicked then 134 else 0) s2)))"

definition get_exit_code :: "VPid \<Rightarrow> sys \<Rightarrow> c_int option" where
  "get_exit_code pid s =
     (if \<not> ex_set s then None
      else (case hm_get (exit_codes (ex s)) pid of
              Some code \<Rightarrow> Some code
            | None \<Rightarrow> Option.bind (hm_get (vprocs (ex s)) pid)
                (\<lambda>c. if is_done c then Some (exit_code c) else None)))"

definition is_child_of :: "VPid \<Rightarrow> VPid \<Rightarrow> sys \<Rightarrow> bool" where
  "is_child_of parent child s =
     (ex_set s \<and> (case hm_get (children (ex s)) parent of
                    None \<Rightarrow> False | Some kids \<Rightarrow> child \<in> set kids))"

definition reap_child :: "VPid \<Rightarrow> VPid \<Rightarrow> sys \<Rightarrow> sys" where
  "reap_child parent child s =
     (if \<not> ex_set s then s
      else with_children (hm_modify parent (filter (\<lambda>k. k \<noteq> child))) s)"

definition remove_exit_code :: "VPid \<Rightarrow> sys \<Rightarrow> sys" where
  "remove_exit_code pid s = (if \<not> ex_set s then s else with_exit_codes (hm_remove pid) s)"

section \<open>Driving\<close>

definition step_from_driver :: "(handle \<Rightarrow> sys \<Rightarrow> sys \<times> bool) \<Rightarrow> sys \<Rightarrow> sys option" where
  "step_from_driver run s =
     (case pick_next s of
        (None, s1) \<Rightarrow> Some s1
      | (Some next, s1) \<Rightarrow>
          map_option (set_current None)
            (resume run next (count_switch (set_current (Some next) (snd (deliver_signals next s1))))))"

text \<open>
  \<^verbatim>\<open>raw_dup3\<close> of \<^verbatim>\<open>ffi.rs\<close>: whether its result is not negative, and the system call it makes, if
  any. \<open>dup3_ok\<close> is the kernel's answer.
\<close>

definition raw_dup3 :: "(c_int \<Rightarrow> c_int \<Rightarrow> bool) \<Rightarrow> c_int \<Rightarrow> c_int \<Rightarrow> sys \<Rightarrow> bool \<times> sys" where
  "raw_dup3 dup3_ok old_fd new_fd s =
     (if sint old_fd < 0 \<or> old_fd = new_fd then (True, s)
      else (dup3_ok old_fd new_fd, emit [Dup3 old_fd new_fd] s))"

text \<open>Installing three real descriptors as 0, 1 and 2; a failure aborts the process.\<close>

definition install_fds ::
  "(c_int \<Rightarrow> c_int \<Rightarrow> bool) \<Rightarrow> c_int \<times> c_int \<times> c_int \<Rightarrow> sys \<Rightarrow> sys option" where
  "install_fds dup3_ok f s =
     (let (f0, f1, f2) = f;
          (r0, s0) = raw_dup3 dup3_ok f0 0 s
      in if \<not> r0 then None
         else (let (r1, s1) = raw_dup3 dup3_ok f1 1 s0
               in if \<not> r1 then None
                  else (let (r2, s2) = raw_dup3 dup3_ok f2 2 s1
                        in if \<not> r2 then None else Some s2)))"

definition step_from_driver_with_fd_swap ::
  "(c_int \<Rightarrow> c_int \<Rightarrow> bool) \<Rightarrow> c_int \<times> c_int \<times> c_int \<Rightarrow> (handle \<Rightarrow> sys \<Rightarrow> sys \<times> bool) \<Rightarrow> sys \<Rightarrow> sys option" where
  "step_from_driver_with_fd_swap dup3_ok saved_fds run s =
     (case pick_next s of
        (None, s1) \<Rightarrow> Some s1
      | (Some next, s1) \<Rightarrow>
          (let s2 = snd (deliver_signals next s1);
               real = get_real_fds next (fdw s2)
           in Option.bind (case real of None \<Rightarrow> Some s2 | Some f \<Rightarrow> install_fds dup3_ok f s2) (\<lambda>s3.
              Option.bind (resume run next (count_switch (set_current (Some next) s3))) (\<lambda>s4.
              let s5 = set_current None s4
              in case real of None \<Rightarrow> Some s5 | Some f \<Rightarrow> install_fds dup3_ok saved_fds s5))))"

text \<open>
  Yielding. Inside a coroutine the state returned is the one at the switch; outside, the
  driver steps.
\<close>

definition do_yield :: "(handle \<Rightarrow> sys \<Rightarrow> sys \<times> bool) \<Rightarrow> sys \<Rightarrow> sys option" where
  "do_yield run s =
     (if \<not> ex_set s then Some s
      else if mco_running s \<noteq> None then Some (requeue_alive (current (ex s)) s)
      else step_from_driver run s)"

definition yield_for_io :: "(c_int \<times> u16) list \<Rightarrow> c_int \<Rightarrow> nat \<Rightarrow> sys \<Rightarrow> sys" where
  "yield_for_io io timeout_ms now s =
     (let dl = (if sint timeout_ms < 0 then None else Some (now + unat timeout_ms))
      in if mco_running s = None then s
         else (case current (ex s) of
                 None \<Rightarrow> s
               | Some pid \<Rightarrow>
                   with_vprocs (hm_modify pid (\<lambda>c.
                     if is_done c then c else c\<lparr>io_wait := Some \<lparr>io_fds = io, deadline = dl\<rparr>\<rparr>)) s))"

section \<open>Waiting for I/O\<close>

record pollfd =
  pfd :: c_int
  events :: u16
  revents :: u16

definition collect_io_waits :: "sys \<Rightarrow> pollfd list \<times> VPid list" where
  "collect_io_waits s =
     (let waits = concat (map (\<lambda>(pid, c). case io_wait c of
                            None \<Rightarrow> []
                          | Some w \<Rightarrow> map (\<lambda>(fd, ev). (\<lparr>pfd = fd, events = ev, revents = 0\<rparr>, pid)) (io_fds w))
                        (vprocs (ex s)))
      in (map fst waits, map snd waits))"

text \<open>\<^verbatim>\<open>pid_map[i]\<close> panics when the map is shorter than the polled descriptors.\<close>

fun ready_by_fd :: "pollfd list \<Rightarrow> VPid list \<Rightarrow> VPid list \<Rightarrow> VPid list option" where
  "ready_by_fd [] pids acc = Some acc"
| "ready_by_fd (p # ps) pids acc =
     (if revents p \<noteq> 0
      then (case pids of
              [] \<Rightarrow> None
            | pid # rest \<Rightarrow> ready_by_fd ps rest (if pid \<in> set acc then acc else acc @ [pid]))
      else ready_by_fd ps (tl pids) acc)"

definition expired :: "nat \<Rightarrow> Coroutine \<Rightarrow> bool" where
  "expired now c \<longleftrightarrow> (case io_wait c of
     None \<Rightarrow> False
   | Some w \<Rightarrow> (case deadline w of None \<Rightarrow> False | Some d \<Rightarrow> d \<le> now))"

definition ready_by_deadline :: "nat \<Rightarrow> (VPid \<times> Coroutine) list \<Rightarrow> VPid list \<Rightarrow> VPid list" where
  "ready_by_deadline now vs acc =
     fold (\<lambda>(pid, c) acc. if expired now c \<and> pid \<notin> set acc then acc @ [pid] else acc) vs acc"

definition wake_one :: "VPid \<Rightarrow> sys \<Rightarrow> sys" where
  "wake_one pid s =
     with_queue (\<lambda>q. if pid \<in> set q then q else q @ [pid])
       (with_vprocs (hm_modify pid (\<lambda>c. c\<lparr>io_wait := None\<rparr>)) s)"

definition wake_io_ready :: "pollfd list \<Rightarrow> VPid list \<Rightarrow> nat \<Rightarrow> sys \<Rightarrow> sys option" where
  "wake_io_ready pollfds pid_map now s =
     map_option (\<lambda>acc. fold wake_one (ready_by_deadline now (vprocs (ex s)) acc) s)
       (ready_by_fd pollfds pid_map [])"

end
