(* ===== verification/Preload.thy ===== *)
theory Preload
  imports Executor Elf
begin

unbundle bit_operations_syntax

text \<open>
  The libc interposition layer of \<^verbatim>\<open>src/src/preload.rs\<close>: path resolution, process, signal,
  descriptor, file and multiplexing calls. The real libc, found at run time with
  \<^verbatim>\<open>dlsym\<close>, is the parameter \<open>L\<close>: a record of the answers of its functions. The loop of a call
  that may switch to another coroutine is modelled by its body, one round at a time:
  \<open>Return\<close> is the result, \<open>Yield\<close> calls \<^verbatim>\<open>do_yield\<close> and \<open>WaitIo\<close> calls \<^verbatim>\<open>yield_for_io\<close>, after which
  the next round starts; \<open>Exits\<close> ends the virtual process and \<open>RealExit\<close> the real one.
  \<open>until_return\<close> runs the rounds; what libc answers and what the other coroutines do may
  differ from round to round.

  A path argument is the byte string before its null byte; \<open>errno\<close> records what this layer
  itself stores there.
\<close>

section \<open>State and the real libc\<close>

record libc =
  l_close :: "c_int \<Rightarrow> c_int"
  l_dup :: "c_int \<Rightarrow> c_int"
  l_dup2 :: "c_int \<Rightarrow> c_int \<Rightarrow> c_int"
  l_kill :: "c_int \<Rightarrow> c_int \<Rightarrow> c_int"
  l_getpid :: c_int
  l_getppid :: c_int
  l_getpgid :: "c_int \<Rightarrow> c_int"
  l_setpgid :: "c_int \<Rightarrow> c_int \<Rightarrow> c_int"
  l_setsid :: c_int
  l_getpgrp :: c_int
  l_tcsetpgrp :: "c_int \<Rightarrow> c_int \<Rightarrow> c_int"
  l_tcgetpgrp :: "c_int \<Rightarrow> c_int"
  l_raise :: "c_int \<Rightarrow> c_int"
  l_fork :: c_int
  l_wait4 :: "c_int \<Rightarrow> c_int \<Rightarrow> c_int \<times> c_int option"
  l_chdir :: "rstr \<Rightarrow> c_int"
  l_getcwd :: "nat \<Rightarrow> rstr option"
  l_open :: "rstr \<Rightarrow> c_int \<Rightarrow> c_int \<Rightarrow> c_int"
  l_openat :: "c_int \<Rightarrow> rstr \<Rightarrow> c_int \<Rightarrow> c_int \<Rightarrow> c_int"
  l_creat :: "rstr \<Rightarrow> c_int \<Rightarrow> c_int"
  l_fstat :: "c_int \<Rightarrow> c_int"
  l_lseek :: "c_int \<Rightarrow> u64 \<Rightarrow> c_int \<Rightarrow> u64"
  l_poll :: "pollfd list \<Rightarrow> c_int \<Rightarrow> c_int \<times> pollfd list"
  l_pipe :: "c_int \<times> c_int \<times> c_int"
  l_pipe2 :: "c_int \<Rightarrow> c_int \<times> c_int \<times> c_int"
  l_read :: "c_int \<Rightarrow> nat \<Rightarrow> int \<times> u8 list"
  l_write :: "c_int \<Rightarrow> u8 list \<Rightarrow> int"

record pst =
  psys :: sys
  venv_one :: bool
  vflag :: bool
  REAL_FORK_CHILD :: bool
  errno :: c_int

datatype 'a round = Return 'a | Yield | WaitIo "(c_int \<times> u16) list" c_int | Exits c_int | RealExit c_int

definition EINVAL :: c_int where [simp]: "EINVAL = 22"
definition EPIPE :: c_int where [simp]: "EPIPE = 32"
definition ESPIPE :: c_int where [simp]: "ESPIPE = 29"
definition ERANGE :: c_int where [simp]: "ERANGE = 34"
definition SIGPIPE :: c_int where [simp]: "SIGPIPE = 13"
definition WNOHANG :: c_int where [simp]: "WNOHANG = 1"
definition O_CLOEXEC :: c_int where [simp]: "O_CLOEXEC = 0x80000"
definition POLLIN :: u16 where [simp]: "POLLIN = 1"
definition POLLPRI :: u16 where [simp]: "POLLPRI = 2"
definition POLLOUT :: u16 where [simp]: "POLLOUT = 4"
definition POLLERR :: u16 where [simp]: "POLLERR = 8"
definition POLLHUP :: u16 where [simp]: "POLLHUP = 16"

text \<open>
  The loop of a call that switches. \<open>sc_others i\<close> is what the other coroutines and the
  driver do to the state between the \<open>i\<close>-th switch and the moment this one is resumed,
  \<open>sc_run\<close> what a resumed coroutine does (for a call made outside any coroutine, where
  \<^verbatim>\<open>do_yield\<close> steps the scheduler itself) and \<open>sc_clock\<close> the time of the switch. \<^const>\<open>None\<close> is a
  panic, or that the rounds given are used up.
\<close>

record schedule =
  sc_run :: "handle \<Rightarrow> sys \<Rightarrow> sys \<times> bool"
  sc_others :: "nat \<Rightarrow> sys \<Rightarrow> sys"
  sc_clock :: "nat \<Rightarrow> nat"

definition switch_out :: "schedule \<Rightarrow> nat \<Rightarrow> 'a round \<Rightarrow> pst \<Rightarrow> pst option" where
  "switch_out S i r p =
     (case r of
        WaitIo io timeout \<Rightarrow> Some (p\<lparr>psys := sc_others S i (yield_for_io io timeout (sc_clock S i) (psys p))\<rparr>)
      | _ \<Rightarrow> map_option (\<lambda>s. p\<lparr>psys := sc_others S i s\<rparr>) (do_yield (sc_run S) (psys p)))"

definition switches :: "'a round \<Rightarrow> bool" where
  "switches r = (case r of Yield \<Rightarrow> True | WaitIo io timeout \<Rightarrow> True | _ \<Rightarrow> False)"

fun until_return ::
  "schedule \<Rightarrow> (nat \<Rightarrow> pst \<Rightarrow> ('a round \<times> pst) option) \<Rightarrow> nat \<Rightarrow> nat \<Rightarrow> pst \<Rightarrow> ('a round \<times> pst) option" where
  "until_return S f 0 i p = None"
| "until_return S f (Suc n) i p =
     Option.bind (f i p) (\<lambda>(r, p').
       if switches r then Option.bind (switch_out S i r p') (until_return S f n (Suc i)) else Some (r, p'))"

definition fail :: "c_int \<Rightarrow> pst \<Rightarrow> c_int \<times> pst" where
  "fail e p = (- 1, p\<lparr>errno := e\<rparr>)"

text \<open>
  \<^verbatim>\<open>enabled\<close>: the flag is latched once the environment variable is seen (\<open>venv_one\<close>).
\<close>

definition enabled :: "pst \<Rightarrow> bool \<times> pst" where
  "enabled p = (let on = (vflag p \<or> venv_one p) in (on, p\<lparr>vflag := on\<rparr>))"

definition bypass :: "pst \<Rightarrow> bool \<times> pst" where
  "bypass p = (let (on, p') = enabled p in (\<not> on \<or> REAL_FORK_CHILD p', p'))"

definition current_vpid :: "pst \<Rightarrow> VPid option" where
  "current_vpid p = (if ex_set (psys p) then current (ex (psys p)) else None)"

definition with_sys :: "(sys \<Rightarrow> sys) \<Rightarrow> pst \<Rightarrow> pst" where
  "with_sys f p = p\<lparr>psys := f (psys p)\<rparr>"

definition table_of :: "VPid \<Rightarrow> pst \<Rightarrow> vfd_table option" where
  "table_of vpid p = get_table vpid (fdw (psys p))"

definition set_table :: "VPid \<Rightarrow> store \<times> vfd_table \<Rightarrow> pst \<Rightarrow> pst" where
  "set_table vpid st p = with_sys (\<lambda>s. s\<lparr>fdw := put_table vpid st (fdw s)\<rparr>) p"

definition fd_entry :: "VPid \<Rightarrow> c_int \<Rightarrow> pst \<Rightarrow> vfd option" where
  "fd_entry vpid fd p = Option.bind (table_of vpid p) (\<lambda>t. vt_get t fd)"

definition real_close :: "libc \<Rightarrow> c_int \<Rightarrow> pst \<Rightarrow> c_int \<times> pst" where
  "real_close L fd p = (l_close L fd, with_sys (emit [RealClose fd]) p)"

section \<open>Paths\<close>

fun split_slash :: "rstr \<Rightarrow> rstr list" where
  "split_slash [] = [[]]"
| "split_slash (b # bs) =
     (if b = 47 then [] # split_slash bs
      else (case split_slash bs of [] \<Rightarrow> [[b]] | w # ws \<Rightarrow> (b # w) # ws))"

fun join_slash :: "rstr list \<Rightarrow> rstr" where
  "join_slash [] = []"
| "join_slash [w] = w"
| "join_slash (w # v # ws) = w @ 47 # join_slash (v # ws)"

text \<open>One component of the path applied to the parts so far.\<close>

definition path_step :: "rstr \<Rightarrow> rstr list \<Rightarrow> rstr list" where
  "path_step component parts =
     (if component = [] \<or> component = [46] then parts
      else if component = [46, 46] then butlast parts
      else parts @ [component])"

definition resolve_path :: "rstr \<Rightarrow> rstr \<Rightarrow> rstr" where
  "resolve_path cwd_path path =
     (if path \<noteq> [] \<and> hd path = 47 then path
      else (let parts = fold path_step (split_slash path) (filter (\<lambda>w. w \<noteq> []) (split_slash cwd_path))
            in if parts = [] then [47] else 47 # join_slash parts))"

definition get_cwd :: "pst \<Rightarrow> rstr option" where
  "get_cwd p = Option.bind (current_vpid p) (\<lambda>vpid.
     Option.bind (hm_get (vprocs (ex (psys p))) vpid) cwd)"

text \<open>\<^verbatim>\<open>std::str::from_utf8\<close> succeeds exactly when the lossy conversion changes nothing.\<close>

definition process_cwd :: "libc \<Rightarrow> rstr" where
  "process_cwd L =
     (case l_getcwd L 4096 of
        None \<Rightarrow> [47]
      | Some s \<Rightarrow> if utf8_lossy s = s then s else [47])"

definition chdir :: "libc \<Rightarrow> rstr \<Rightarrow> pst \<Rightarrow> c_int \<times> pst" where
  "chdir L path p =
     (let (by, p) = bypass p
      in if by then (l_chdir L path, p)
         else (case current_vpid p of
                 None \<Rightarrow> (l_chdir L path, p)
               | Some vpid \<Rightarrow>
                   (case hm_get (vprocs (ex (psys p))) vpid of
                      None \<Rightarrow> (l_chdir L path, p)
                    | Some c \<Rightarrow>
                        (let resolved = resolve_path (case cwd c of Some d \<Rightarrow> d | None \<Rightarrow> process_cwd L) (utf8_lossy path)
                         in if 0 \<in> set resolved then fail EINVAL p
                            else (let ret = l_chdir L resolved
                                  in (ret, if ret = 0
                                           then with_sys (with_vprocs (hm_modify vpid (\<lambda>c. c\<lparr>cwd := Some resolved\<rparr>))) p
                                           else p))))))"

text \<open>\<^verbatim>\<open>getcwd\<close>: the string written to a buffer of the given size, or null.\<close>

definition getcwd :: "libc \<Rightarrow> nat \<Rightarrow> pst \<Rightarrow> rstr option \<times> pst" where
  "getcwd L sz p =
     (let (by, p) = bypass p
      in if by then (l_getcwd L sz, p)
         else (case current_vpid p of
                 None \<Rightarrow> (l_getcwd L sz, p)
               | Some vpid \<Rightarrow>
                   (case Option.bind (hm_get (vprocs (ex (psys p))) vpid) cwd of
                      None \<Rightarrow> (l_getcwd L sz, p)
                    | Some d \<Rightarrow> if sz < length d + 1 then (None, p\<lparr>errno := ERANGE\<rparr>) else (Some d, p))))"

section \<open>Processes and signals\<close>

definition exit_call :: "c_int \<Rightarrow> pst \<Rightarrow> unit round \<times> pst" where
  "exit_call code p =
     (let (by, p) = bypass p
      in if by then (RealExit code, p)
         else if current_vpid p \<noteq> None then (Exits code, with_sys (vproc_exit_with_code code) p)
         else (RealExit code, p))"

definition getpid :: "libc \<Rightarrow> pst \<Rightarrow> c_int \<times> pst" where
  "getpid L p =
     (let (on, p) = enabled p
      in if \<not> on then (l_getpid L, p)
         else (case current_vpid p of Some v \<Rightarrow> (v, p) | None \<Rightarrow> (l_getpid L, p)))"

definition getppid :: "libc \<Rightarrow> pst \<Rightarrow> c_int \<times> pst" where
  "getppid L p =
     (let (on, p) = enabled p
      in if \<not> on \<or> \<not> ex_set (psys p) then (l_getppid L, p)
         else (case current (ex (psys p)) of
                 Some pid \<Rightarrow> (case hm_get (vprocs (ex (psys p))) pid of Some c \<Rightarrow> (ppid c, p) | None \<Rightarrow> (0, p))
               | None \<Rightarrow> (l_getppid L, p)))"

definition fork_call :: "libc \<Rightarrow> pst \<Rightarrow> c_int \<times> pst" where
  "fork_call L p =
     (let (on, p) = enabled p
      in if \<not> on then (l_fork L, p)
         else (l_fork L, if l_fork L = 0 then p\<lparr>REAL_FORK_CHILD := True\<rparr> else p))"

text \<open>
  \<^verbatim>\<open>raw_wait4\<close>: \<open>l_wait4\<close> is the answer of \<^verbatim>\<open>libc::syscall\<close> with the status it stores, if any. The
  results below are the returned pid and the status written, if any.
\<close>

definition raw_wait4 :: "libc \<Rightarrow> c_int \<Rightarrow> c_int \<Rightarrow> pst \<Rightarrow> (c_int \<times> c_int option) \<times> pst" where
  "raw_wait4 L pid options p =
     (let (ret, status) = l_wait4 L pid options
      in if sint ret < 0 then ((- 1, None), p\<lparr>errno := - ret\<rparr>) else ((ret, status), p))"

definition is_virtual_pid :: "c_int \<Rightarrow> pst \<Rightarrow> bool" where
  "is_virtual_pid pid p \<longleftrightarrow> ex_set (psys p) \<and> hm_contains (vprocs (ex (psys p))) pid"

definition wait_status :: "c_int \<Rightarrow> c_int" where
  "wait_status code = push_bit 8 (code AND 0xff)"

definition wait_virtual :: "c_int \<Rightarrow> pst \<Rightarrow> (c_int \<times> c_int option) round" where
  "wait_virtual pid p =
     (case get_exit_code pid (psys p) of
        Some code \<Rightarrow> Return (pid, Some (wait_status code))
      | None \<Rightarrow> if is_virtual_pid pid p then Yield else Return (- 1, None))"

definition wait_real :: "libc \<Rightarrow> c_int \<Rightarrow> pst \<Rightarrow> (c_int \<times> c_int option) round \<times> pst" where
  "wait_real L pid p =
     (let (ret, p) = raw_wait4 L pid WNOHANG p
      in if 0 < sint (fst ret) then (Return ret, p)
         else if sint (fst ret) < 0 then (Return (- 1, None), p)
         else (Yield, p))"

definition waitpid ::
  "schedule \<Rightarrow> (nat \<Rightarrow> libc) \<Rightarrow> nat \<Rightarrow> c_int \<Rightarrow> c_int \<Rightarrow> pst \<Rightarrow> ((c_int \<times> c_int option) round \<times> pst) option" where
  "waitpid S L rounds pid options p =
     (let (by, p) = bypass p;
          direct = (let (ret, p) = raw_wait4 (L 0) pid options p in Some (Return ret, p))
      in if by then direct
         else if is_virtual_pid pid p then until_return S (\<lambda>i p. Some (wait_virtual pid p, p)) rounds 0 p
         else if options AND WNOHANG \<noteq> 0 then direct
         else until_return S (\<lambda>i p. Some (wait_real (L i) pid p)) rounds 0 p)"

definition wait4 :: "libc \<Rightarrow> c_int \<Rightarrow> c_int \<Rightarrow> pst \<Rightarrow> (c_int \<times> c_int option) \<times> pst" where
  "wait4 L pid options p = raw_wait4 L pid options p"

definition kill :: "libc \<Rightarrow> c_int \<Rightarrow> c_int \<Rightarrow> pst \<Rightarrow> c_int \<times> pst" where
  "kill L pid sig p =
     (let (on, p) = enabled p
      in if \<not> on then (l_kill L pid sig, p)
         else if 0 < sint pid \<and> is_virtual_pid pid p
         then (0, with_sys (with_vprocs (hm_modify pid (\<lambda>c. c\<lparr>pending_signals := pending_signals c @ [sig]\<rparr>))) p)
         else (l_kill L pid sig, p))"

definition raise_call :: "libc \<Rightarrow> c_int \<Rightarrow> pst \<Rightarrow> c_int round \<times> pst" where
  "raise_call L sig p =
     (let (on, p) = enabled p
      in case (if on then current_vpid p else None) of
           None \<Rightarrow> (Return (l_raise L sig), p)
         | Some vpid \<Rightarrow>
             (if \<not> hm_contains (vprocs (ex (psys p))) vpid then (Return 0, p)
              else if sig = SIGKILL \<or> sig = SIGTERM
              then (Exits (128 + sig), with_sys (vproc_exit_with_code (128 + sig)) p)
              else (Return 0, with_sys (with_vprocs
                      (hm_modify vpid (\<lambda>c. c\<lparr>pending_signals := pending_signals c @ [sig]\<rparr>))) p)))"

definition getpgid :: "libc \<Rightarrow> c_int \<Rightarrow> pst \<Rightarrow> c_int \<times> pst" where
  "getpgid L pid p =
     (let (on, p) = enabled p
      in if \<not> on then (l_getpgid L pid, p)
         else if 0 < sint pid \<and> is_virtual_pid pid p then (pid, p)
         else (case (if pid = 0 then current_vpid p else None) of
                 Some v \<Rightarrow> (v, p) | None \<Rightarrow> (l_getpgid L pid, p)))"

definition setpgid :: "libc \<Rightarrow> c_int \<Rightarrow> c_int \<Rightarrow> pst \<Rightarrow> c_int \<times> pst" where
  "setpgid L pid pgid p =
     (let (on, p) = enabled p
      in if \<not> on then (l_setpgid L pid pgid, p)
         else if 0 < sint pid \<and> is_virtual_pid pid p then (0, p)
         else if pid = 0 \<and> current_vpid p \<noteq> None then (0, p)
         else (l_setpgid L pid pgid, p))"

definition setsid :: "libc \<Rightarrow> pst \<Rightarrow> c_int \<times> pst" where
  "setsid L p = (let (on, p) = enabled p
     in case (if on then current_vpid p else None) of Some v \<Rightarrow> (v, p) | None \<Rightarrow> (l_setsid L, p))"

definition getpgrp :: "libc \<Rightarrow> pst \<Rightarrow> c_int \<times> pst" where
  "getpgrp L p = (let (on, p) = enabled p
     in case (if on then current_vpid p else None) of Some v \<Rightarrow> (v, p) | None \<Rightarrow> (l_getpgrp L, p))"

definition tcsetpgrp :: "libc \<Rightarrow> c_int \<Rightarrow> c_int \<Rightarrow> pst \<Rightarrow> c_int \<times> pst" where
  "tcsetpgrp L fd pgid p = (let (on, p) = enabled p
     in case (if on then current_vpid p else None) of
          Some v \<Rightarrow> if fd_entry v fd p \<noteq> None then (0, p) else (l_tcsetpgrp L fd pgid, p)
        | None \<Rightarrow> (l_tcsetpgrp L fd pgid, p))"

definition tcgetpgrp :: "libc \<Rightarrow> c_int \<Rightarrow> pst \<Rightarrow> c_int \<times> pst" where
  "tcgetpgrp L fd p = (let (on, p) = enabled p
     in case (if on then current_vpid p else None) of
          Some v \<Rightarrow> if fd_entry v fd p \<noteq> None then (v, p) else (l_tcgetpgrp L fd, p)
        | None \<Rightarrow> (l_tcgetpgrp L fd, p))"

end
