(* ===== verification/Vexec.thy ===== *)
theory Vexec
  imports Vexec_Mem Preload
begin

unbundle bit_operations_syntax

text \<open>
  Starting programs, from \<^verbatim>\<open>src/src/vexec.rs\<close>: the cache of loaded binaries, the three ways a
  program is loaded, and the \<^verbatim>\<open>execve\<close> of \<^verbatim>\<open>src/src/preload.rs\<close> on top of them. File system, dynamic
  linker, allocator, kernel and context library answer through the parameter \<open>W\<close>. A failed
  operation returns its error together with the state it leaves; \<^const>\<open>Panic\<close> is a panic or
  an access to memory that faults.
\<close>

section \<open>State and environment\<close>

record BinaryCacheEntry =
  main_addr :: usize
  dl_handle :: usize
  saved_writable :: "WritableSegment list"
  active_users :: u32

text \<open>
  The state: the runtime, the address space, the words of program stacks, the C strings
  allocated, the cache, whether the two functions of libc are hooked, and the handles given
  to \<^verbatim>\<open>dlclose\<close>.
\<close>

record vst =
  vpst :: pst
  vas :: aspace
  vwords :: mem
  cstrings :: "usize \<Rightarrow> rstr option"
  BINARY_CACHE :: "(rstr, BinaryCacheEntry) hmap"
  exit_hooked :: bool
  execve_hooked :: bool
  dlclosed :: "usize list"

text \<open>
  The environment. \<open>w_dlopen\<close> gives the handle (0 for null) and the memory with the object
  mapped; \<open>w_objects\<close> is what \<^verbatim>\<open>dl_iterate_phdr\<close> reports; \<open>w_alloc\<close> is where the allocator puts a
  string; \<open>w_main\<close> numbers the closure that calls a \<^verbatim>\<open>main\<close> function.
\<close>

record vworld =
  w_kernel :: kernel
  w_libc :: libc
  w_read :: "rstr \<Rightarrow> u8 list option"
  w_canonicalize :: "rstr \<Rightarrow> rstr option"
  w_dlopen :: "rstr \<Rightarrow> aspace \<Rightarrow> usize \<times> aspace"
  w_dlsym :: "usize \<Rightarrow> string \<Rightarrow> usize"
  w_dlnext :: "string \<Rightarrow> usize"
  w_objects :: "(rstr option \<times> usize) list"
  w_alloc :: "(usize \<Rightarrow> rstr option) \<Rightarrow> rstr \<Rightarrow> usize"
  w_place :: "usize option"
  w_page :: usize
  w_auxv :: "u8 list option"
  w_random :: u64
  w_mco :: "usize \<Rightarrow> usize \<Rightarrow> handle option"
  w_mco_new :: "handle option"
  w_main :: "usize \<Rightarrow> nat"
  w_ours :: "string \<Rightarrow> usize"
  w_execve :: "rstr \<Rightarrow> c_int"

datatype vexec_error =
    CannotRead rstr
  | ParseErr elf_error
  | LoadErr load_error
  | NotAarch64Binary
  | DynamicallyLinked
  | StackFailed
  | CannotCanonicalize rstr
  | InvalidPath
  | NulInPath
  | DlopenFailed rstr
  | NoMain rstr
  | NotFoundAfterDlopen rstr
  | NoReloadedBase

section \<open>Steps\<close>

text \<open>The question-mark operator on a state.\<close>

fun vbind :: "('e, 'a) rres \<times> 's \<Rightarrow> ('a \<Rightarrow> 's \<Rightarrow> ('e, 'b) rres \<times> 's) \<Rightarrow> ('e, 'b) rres \<times> 's" where
  "vbind (Ok x, s) f = f x s"
| "vbind (Err e, s) f = (Err e, s)"
| "vbind (Panic, s) f = (Panic, s)"

fun map_err :: "('e \<Rightarrow> 'f) \<Rightarrow> ('e, 'a) rres \<Rightarrow> ('f, 'a) rres" where
  "map_err g (Ok x) = Ok x"
| "map_err g (Err e) = Err (g e)"
| "map_err g Panic = Panic"

definition ok_or :: "'e \<Rightarrow> 'a option \<Rightarrow> ('e, 'a) rres" where
  "ok_or e x = (case x of None \<Rightarrow> Err e | Some y \<Rightarrow> Ok y)"

text \<open>A change of memory; a fault ends the process.\<close>

definition on_memory :: "(aspace \<Rightarrow> aspace option) \<Rightarrow> vst \<Rightarrow> (vexec_error, unit) rres \<times> vst" where
  "on_memory f v = (case f (vas v) of None \<Rightarrow> (Panic, v) | Some a \<Rightarrow> (Ok (), v\<lparr>vas := a\<rparr>))"

definition with_rt :: "(sys \<Rightarrow> sys) \<Rightarrow> vst \<Rightarrow> vst" where
  "with_rt f v = v\<lparr>vpst := with_sys f (vpst v)\<rparr>"

definition vsys :: "vst \<Rightarrow> sys" where
  "vsys v = psys (vpst v)"

definition valid_utf8 :: "rstr \<Rightarrow> bool" where
  "valid_utf8 s \<longleftrightarrow> utf8_lossy s = s"

section \<open>The cache of binaries\<close>

definition dlclose :: "usize \<Rightarrow> vst \<Rightarrow> vst" where
  "dlclose h v = (if h = 0 then v else v\<lparr>dlclosed := dlclosed v @ [h]\<rparr>)"

definition unload_binary :: "vworld \<Rightarrow> rstr \<Rightarrow> vst \<Rightarrow> bool \<times> vst" where
  "unload_binary W path v =
     (let real_path = (case w_canonicalize W path of
            Some p \<Rightarrow> if valid_utf8 p then Some p else None
          | None \<Rightarrow> Some path)
      in case real_path of
           None \<Rightarrow> (False, v)
         | Some p \<Rightarrow>
             (case hm_get (BINARY_CACHE v) p of
                Some e \<Rightarrow> (True, dlclose (dl_handle e) (v\<lparr>BINARY_CACHE := hm_remove p (BINARY_CACHE v)\<rparr>))
              | None \<Rightarrow> (False, v)))"

definition unload_all_binaries :: "vst \<Rightarrow> vst" where
  "unload_all_binaries v =
     fold (\<lambda>e. dlclose (dl_handle e)) (hm_values (BINARY_CACHE v)) (v\<lparr>BINARY_CACHE := []\<rparr>)"

definition cached_binary_count :: "vst \<Rightarrow> nat" where
  "cached_binary_count v = length (BINARY_CACHE v)"

definition release_binaries :: "rstr list \<Rightarrow> vst \<Rightarrow> vst" where
  "release_binaries paths v =
     v\<lparr>BINARY_CACHE := fold (\<lambda>p. hm_modify p (\<lambda>e. e\<lparr>active_users := active_users e - 1\<rparr>)) paths (BINARY_CACHE v)\<rparr>"

definition track_binary_user :: "VPid \<Rightarrow> rstr \<Rightarrow> vst \<Rightarrow> vst" where
  "track_binary_user vpid path v =
     (let v1 = with_rt (with_vprocs (hm_modify vpid (\<lambda>c. c\<lparr>binary_path := Some path\<rparr>))) v
      in v1\<lparr>BINARY_CACHE := hm_modify path (\<lambda>e. e\<lparr>active_users := active_users e + 1\<rparr>) (BINARY_CACHE v1)\<rparr>)"

section \<open>Parts of starting a program\<close>

text \<open>A string with a null byte inside panics. The pointers are both used and registered.\<close>

fun build_c_strings :: "vworld \<Rightarrow> rstr list \<Rightarrow> vst \<Rightarrow> (vexec_error, usize list) rres \<times> vst" where
  "build_c_strings W [] v = (Ok [], v)"
| "build_c_strings W (s # ss) v =
     (if 0 \<in> set s then (Panic, v)
      else (let r = w_alloc W (cstrings v) s
            in vbind (build_c_strings W ss (v\<lparr>cstrings := (cstrings v)(r \<mapsto> s)\<rparr>)) (\<lambda>rs v. (Ok (r # rs), v))))"

definition register_elf_c_strings :: "VPid \<Rightarrow> usize list \<Rightarrow> vst \<Rightarrow> vst" where
  "register_elf_c_strings vpid strings v = with_rt (register_c_strings vpid strings) v"

definition dl_iterate_callback :: "rstr \<Rightarrow> rstr option \<times> usize \<Rightarrow> bool" where
  "dl_iterate_callback search info \<longleftrightarrow> fst info = Some search"

definition find_loaded_base :: "vworld \<Rightarrow> rstr \<Rightarrow> usize option" where
  "find_loaded_base W path =
     (let real_path = (case w_canonicalize W path of
            Some p \<Rightarrow> if valid_utf8 p then p else path
          | None \<Rightarrow> path)
      in if 0 \<in> set real_path then None
         else map_option snd (List.find (dl_iterate_callback real_path) (w_objects W)))"

definition hook_libc_exit :: "vworld \<Rightarrow> vst \<Rightarrow> (vexec_error, unit) rres \<times> vst" where
  "hook_libc_exit W v =
     (if exit_hooked v then (Ok (), v)
      else (let v1 = v\<lparr>exit_hooked := True\<rparr>; original = w_dlnext W ''exit''
            in if original = 0 then (Ok (), v1)
               else on_memory (\<lambda>a. map_option snd (write_inline_hook (w_kernel W) original (w_ours W ''exit'') a)) v1))"

definition hook_libc_execve :: "vworld \<Rightarrow> vst \<Rightarrow> (vexec_error, unit) rres \<times> vst" where
  "hook_libc_execve W v =
     (if execve_hooked v then (Ok (), v)
      else (let v1 = v\<lparr>execve_hooked := True\<rparr>; original = w_dlnext W ''execve''
            in if original = 0 then (Ok (), v1)
               else on_memory (\<lambda>a. map_option snd (write_inline_hook (w_kernel W) original (w_ours W ''execve'') a)) v1))"

text \<open>The stack of the new program.\<close>

definition exec_stack :: "vworld \<Rightarrow> vst \<Rightarrow> (vexec_error, usize) rres \<times> vst" where
  "exec_stack W v =
     (let (r, a) = alloc_elf_stack (w_kernel W) (w_page W) (w_place W) ELF_STACK_SIZE (vas v)
      in (ok_or StackFailed r, v\<lparr>vas := a\<rparr>))"

text \<open>
  \<^verbatim>\<open>spawn_elf\<close> through the executor pointer: a null pointer faults, a refusal of the context
  library panics.
\<close>

definition exec_spawn ::
  "vworld \<Rightarrow> usize \<Rightarrow> usize \<Rightarrow> usize list \<Rightarrow> usize list \<Rightarrow> (u64 \<times> u64) list \<Rightarrow> vst \<Rightarrow> (vexec_error, VPid) rres \<times> vst" where
  "exec_spawn W entry_addr stack_base argv_c envp_c auxv v =
     (if \<not> ex_set (vsys v) then (Panic, v)
      else (case spawn_elf entry_addr stack_base ELF_STACK_SIZE (of_nat (length argv_c)) argv_c envp_c auxv
                   (w_mco W) (vwords v) (vsys v) of
              None \<Rightarrow> (Panic, v)
            | Some (vpid, m, s) \<Rightarrow> (Ok vpid, (with_rt (\<lambda>_. s) v)\<lparr>vwords := m\<rparr>)))"

text \<open>Descriptors of the new program: those of the caller, then close on exec.\<close>

definition inherit_fds :: "vworld \<Rightarrow> VPid option \<Rightarrow> VPid \<Rightarrow> vst \<Rightarrow> vst" where
  "inherit_fds W current_pid vpid v =
     (let v1 = (case current_pid of
            Some pid \<Rightarrow> with_rt (\<lambda>s. s\<lparr>fdw := fork_fd_table pid vpid (fdw s)\<rparr>) v
          | None \<Rightarrow> v)
      in case get_table vpid (fdw (vsys v1)) of
           None \<Rightarrow> v1
         | Some child_table \<Rightarrow>
             (let (real_fds, t) = close_cloexec child_table;
                  v2 = with_rt (\<lambda>s. s\<lparr>fdw := put_table vpid (wstore (fdw s), t) (fdw s)\<rparr>) v1
              in v2\<lparr>vpst := fold (\<lambda>rfd p. snd (real_close (w_libc W) rfd p)) real_fds (vpst v2)\<rparr>))"

text \<open>
  The common end of both branches of \<^verbatim>\<open>virtual_execve_via_entry\<close>, from the image of the
  loaded object to the new process.
\<close>

definition start_program ::
  "vworld \<Rightarrow> rstr \<Rightarrow> usize \<Rightarrow> Ehdr \<Rightarrow> usize list \<Rightarrow> usize list \<Rightarrow> VPid option \<Rightarrow> vst \<Rightarrow> (vexec_error, VPid) rres \<times> vst" where
  "start_program W real_path bs hdr argv_c envp_c current_pid v =
     (let entry_addr = bs + e_entry hdr;
          image = \<lparr>base = bs, total_size = 0, entry = entry_addr, phdr_addr = bs + e_phoff hdr,
                   phnum = e_phnum hdr, phentsize = e_phentsize hdr, interp_path = None\<rparr>;
          auxv = build_auxv (w_auxv W) (w_random W) image 0
      in vbind (exec_stack W v) (\<lambda>stack_base v.
         vbind (exec_spawn W entry_addr stack_base argv_c envp_c auxv (with_rt (set_current_executor (ex_set (vsys v))) v)) (\<lambda>vpid v.
           (Ok vpid, inherit_fds W current_pid vpid
                       (track_binary_user vpid real_path (register_elf_c_strings vpid (argv_c @ envp_c) v))))))"

section \<open>Loading\<close>

definition virtual_execve_static ::
  "vworld \<Rightarrow> rstr \<Rightarrow> rstr list \<Rightarrow> rstr list \<Rightarrow> vst \<Rightarrow> (vexec_error, VPid) rres \<times> vst" where
  "virtual_execve_static W path argv envp v =
     vbind (ok_or (CannotRead path) (w_read W path), v) (\<lambda>data v.
     vbind (map_err ParseErr (parse_header data), v) (\<lambda>hdr v.
       if e_machine hdr \<noteq> EM_AARCH64 then (Err NotAarch64Binary, v)
       else
     vbind (map_err ParseErr (program_headers data hdr), v) (\<lambda>phdrs v.
     vbind (map_err ParseErr (interpreter_path data phdrs), v) (\<lambda>interp v.
       if interp \<noteq> None then (Err DynamicallyLinked, v)
       else (let (r, a) = load_pie (w_kernel W) data (vas v)
             in
     vbind (map_err LoadErr r, v\<lparr>vas := a\<rparr>) (\<lambda>image v.
     vbind (build_c_strings W argv v) (\<lambda>argv_c v.
     vbind (build_c_strings W envp v) (\<lambda>envp_c v.
     vbind (exec_stack W v) (\<lambda>stack_base v.
     vbind (exec_spawn W (entry image) stack_base argv_c envp_c (build_auxv (w_auxv W) (w_random W) image 0) v) (\<lambda>vpid v.
       (Ok vpid, with_rt (register_mapped_region vpid (base image) (total_size image))
                   (register_elf_c_strings vpid (argv_c @ envp_c) v))))))))))))"

definition virtual_execve_dynamic ::
  "vworld \<Rightarrow> rstr \<Rightarrow> rstr list \<Rightarrow> rstr list \<Rightarrow> vst \<Rightarrow> (vexec_error, VPid) rres \<times> vst" where
  "virtual_execve_dynamic W path argv envp v =
     (if 0 \<in> set path then (Err NulInPath, v)
      else (let (h, a) = w_dlopen W path (vas v)
            in if h = 0 then (Err (DlopenFailed path), v)
               else (let v1 = v\<lparr>vas := a\<rparr>; main_sym = w_dlsym W h ''main''
                     in if main_sym = 0 then (Err (NoMain path), dlclose h v1)
                        else
     vbind (build_c_strings W argv v1) (\<lambda>argv_c v.
     vbind (build_c_strings W envp v) (\<lambda>envp_c v.
       if \<not> ex_set (vsys v) then (Panic, v)
       else (case spawn (w_main W main_sym) (w_mco_new W) (vsys v) of
               None \<Rightarrow> (Panic, v)
             | Some (vpid, s) \<Rightarrow> (Ok vpid, with_rt (\<lambda>_. register_c_strings vpid (argv_c @ envp_c) s) v)))))))"

text \<open>
  The code of a coroutine that calls \<^verbatim>\<open>main\<close> directly: \<open>main\<close> is the effect of the program and
  its result, which becomes the exit code. The loaders below no longer use it.
\<close>

definition main_coroutine :: "(sys \<Rightarrow> sys \<times> c_int) \<Rightarrow> sys \<Rightarrow> sys" where
  "main_coroutine main s = (let (s', result) = main s in vproc_exit_with_code result s')"

definition spawn_main_coroutine :: "vworld \<Rightarrow> usize \<Rightarrow> usize list \<Rightarrow> vst \<Rightarrow> (vexec_error, VPid) rres \<times> vst" where
  "spawn_main_coroutine W main strings v =
     (if \<not> ex_set (vsys v) then (Panic, v)
      else (case spawn (w_main W main) (w_mco_new W) (vsys v) of
              None \<Rightarrow> (Panic, v)
            | Some (vpid, s) \<Rightarrow> (Ok vpid, with_rt (\<lambda>_. register_c_strings vpid strings s) v)))"

text \<open>A binary that is in the cache.\<close>

definition via_entry_cached ::
  "vworld \<Rightarrow> rstr \<Rightarrow> rstr \<Rightarrow> usize list \<Rightarrow> usize list \<Rightarrow> VPid option \<Rightarrow> WritableSegment list \<Rightarrow> vst \<Rightarrow>
   (vexec_error, VPid) rres \<times> vst" where
  "via_entry_cached W path real_path argv_c envp_c current_pid saved v =
     vbind (on_memory (restore_writable_segments (w_kernel W) saved) v) (\<lambda>_ v.
     vbind (ok_or (CannotRead path) (w_read W real_path), v) (\<lambda>re_data v.
     vbind (map_err ParseErr (parse_header re_data), v) (\<lambda>re_hdr v.
     vbind (map_err ParseErr (program_headers re_data re_hdr), v) (\<lambda>re_phdrs v.
     vbind (ok_or NoReloadedBase (find_loaded_base W path), v) (\<lambda>re_base v.
     vbind (on_memory (patch_got_for_loaded_binary (w_kernel W) (w_ours W) re_base re_phdrs) v) (\<lambda>_ v.
       start_program W real_path re_base re_hdr argv_c envp_c current_pid v))))))"

text \<open>\<^verbatim>\<open>main\<close> from the symbol table, or from the start code.\<close>

definition main_of :: "vworld \<Rightarrow> usize \<Rightarrow> usize \<Rightarrow> vst \<Rightarrow> (vexec_error, usize) rres \<times> vst" where
  "main_of W h entry_addr v =
     (let main_sym = w_dlsym W h ''main''
      in if main_sym \<noteq> 0 then (Ok main_sym, v)
         else (case extract_main_addr (vas v) entry_addr of
                 None \<Rightarrow> (Panic, v)
               | Some extracted \<Rightarrow> (Ok (case extracted of None \<Rightarrow> 0 | Some m \<Rightarrow> m), v)))"

definition save_binary ::
  "rstr \<Rightarrow> usize \<Rightarrow> usize \<Rightarrow> usize \<Rightarrow> Phdr list \<Rightarrow> vst \<Rightarrow> (vexec_error, unit) rres \<times> vst" where
  "save_binary real_path main h bs phdrs v =
     (case save_writable_segments bs phdrs (vas v) of
        None \<Rightarrow> (Panic, v)
      | Some saved \<Rightarrow>
          (Ok (), v\<lparr>BINARY_CACHE := hm_insert real_path
             \<lparr>main_addr = main, dl_handle = h, saved_writable = saved, active_users = 0\<rparr> (BINARY_CACHE v)\<rparr>))"

text \<open>A binary that is loaded for the first time; its handle is closed on an error before it is cached.\<close>

definition via_entry_first ::
  "vworld \<Rightarrow> rstr \<Rightarrow> rstr \<Rightarrow> usize list \<Rightarrow> usize list \<Rightarrow> VPid option \<Rightarrow> vst \<Rightarrow> (vexec_error, VPid) rres \<times> vst" where
  "via_entry_first W path real_path argv_c envp_c current_pid v =
     vbind (ok_or (CannotRead path) (w_read W real_path), v) (\<lambda>data v.
     vbind (map_err ParseErr (parse_header data), v) (\<lambda>hdr v.
     vbind (map_err ParseErr (program_headers data hdr), v) (\<lambda>phdrs v.
       if 0 \<in> set real_path then (Err NulInPath, v)
       else (let (h, a) = w_dlopen W real_path (vas v)
             in if h = 0 then (Err (DlopenFailed path), v)
                else (let v = v\<lparr>vas := a\<rparr>
                      in case find_loaded_base W path of
                           None \<Rightarrow> (Err (NotFoundAfterDlopen path), dlclose h v)
                         | Some bs \<Rightarrow>
     vbind (main_of W h (bs + e_entry hdr) v) (\<lambda>main v.
     vbind (on_memory (clear_init_arrays bs phdrs) v) (\<lambda>_ v.
     vbind (hook_libc_exit W v) (\<lambda>_ v.
     vbind (hook_libc_execve W v) (\<lambda>_ v.
     vbind (on_memory (patch_got_for_loaded_binary (w_kernel W) (w_ours W) bs phdrs) v) (\<lambda>_ v.
     vbind (save_binary real_path main h bs phdrs v) (\<lambda>_ v.
       start_program W real_path bs hdr argv_c envp_c current_pid v)))))))))))"

definition virtual_execve_via_entry ::
  "vworld \<Rightarrow> rstr \<Rightarrow> rstr list \<Rightarrow> rstr list \<Rightarrow> vst \<Rightarrow> (vexec_error, VPid) rres \<times> vst" where
  "virtual_execve_via_entry W path argv envp v =
     vbind (ok_or (CannotCanonicalize path) (w_canonicalize W path), v) (\<lambda>real_path v.
       if \<not> valid_utf8 real_path then (Err InvalidPath, v)
       else
     vbind (build_c_strings W argv v) (\<lambda>argv_c v.
     vbind (build_c_strings W envp v) (\<lambda>envp_c v.
       if \<not> ex_set (vsys v) then (Panic, v)
       else (let current_pid = current (ex (vsys v))
             in case hm_get (BINARY_CACHE v) real_path of
                  Some e \<Rightarrow> via_entry_cached W path real_path argv_c envp_c current_pid (saved_writable e) v
                | None \<Rightarrow> via_entry_first W path real_path argv_c envp_c current_pid v))))"

definition virtual_execve ::
  "vworld \<Rightarrow> rstr \<Rightarrow> rstr list \<Rightarrow> rstr list \<Rightarrow> vst \<Rightarrow> (vexec_error, VPid) rres \<times> vst" where
  "virtual_execve W path argv envp v =
     vbind (ok_or (CannotRead path) (w_read W path), v) (\<lambda>data v.
     vbind (map_err ParseErr (parse_header data), v) (\<lambda>hdr v.
     vbind (map_err ParseErr (program_headers data hdr), v) (\<lambda>phdrs v.
     vbind (map_err ParseErr (interpreter_path data phdrs), v) (\<lambda>interp v.
       if interp \<noteq> None
       then (case virtual_execve_via_entry W path argv envp v of
               (Err e, v1) \<Rightarrow> virtual_execve_dynamic W path argv envp v1
             | r \<Rightarrow> r)
       else virtual_execve_static W path argv envp v))))"

section \<open>The execve call\<close>

definition ENOEXEC :: c_int where [simp]: "ENOEXEC = 8"

definition WIFEXITED :: "c_int \<Rightarrow> bool" where "WIFEXITED st \<longleftrightarrow> st AND 0x7f = 0"
definition WEXITSTATUS :: "c_int \<Rightarrow> c_int" where "WEXITSTATUS st = drop_bit 8 st AND 0xff"
definition WTERMSIG :: "c_int \<Rightarrow> c_int" where "WTERMSIG st = st AND 0x7f"
definition WIFSIGNALED :: "c_int \<Rightarrow> bool" where
  "WIFSIGNALED st \<longleftrightarrow> 2 \<le> sint (ucast ((st AND 0x7f) + 1) :: 8 word)"

definition exit_code_of :: "c_int \<Rightarrow> c_int" where
  "exit_code_of st =
     (if WIFEXITED st then WEXITSTATUS st else if WIFSIGNALED st then 128 + WTERMSIG st else 1)"

text \<open>An array of C strings, \<^const>\<open>None\<close> for a null pointer.\<close>

definition c_array_to_vec :: "rstr list option \<Rightarrow> rstr list" where
  "c_array_to_vec arr = (case arr of None \<Rightarrow> [] | Some ss \<Rightarrow> map utf8_lossy ss)"

text \<open>The system call: it returns only when it fails.\<close>

definition raw_execve :: "vworld \<Rightarrow> rstr \<Rightarrow> vst \<Rightarrow> c_int \<times> vst" where
  "raw_execve W path v =
     (let ret = w_execve W path
      in if sint ret < 0 then (- 1, v\<lparr>vpst := (vpst v)\<lparr>errno := - ret\<rparr>\<rparr>) else (ret, v))"

text \<open>
  Ending the calling process: the code after it is unreachable, so that returning is a
  panic (\<^const>\<open>None\<close>).
\<close>

definition finish :: "c_int \<Rightarrow> vst \<Rightarrow> (c_int round \<times> vst) option" where
  "finish code v =
     (if current (ex (vsys v)) = None \<or> mco_running (vsys v) = None then None
      else Some (Exits code, with_rt (vproc_exit_with_code code) v))"

text \<open>One round of waiting for the real child of the fallback; a failing wait counts as status 0.\<close>

definition exec_wait_round :: "libc \<Rightarrow> c_int \<Rightarrow> pst \<Rightarrow> c_int round \<times> pst" where
  "exec_wait_round L pid p =
     (let (ret, p) = raw_wait4 L pid WNOHANG p
      in if 0 < sint (fst ret) then (Return (case snd ret of None \<Rightarrow> 0 | Some st \<Rightarrow> st), p)
         else if sint (fst ret) < 0 then (Return 0, p)
         else (Yield, p))"

definition exec_fallback ::
  "schedule \<Rightarrow> (nat \<Rightarrow> libc) \<Rightarrow> nat \<Rightarrow> vworld \<Rightarrow> rstr \<Rightarrow> vst \<Rightarrow> (c_int round \<times> vst) option" where
  "exec_fallback S L rounds W path v =
     (let pid = l_fork (w_libc W)
      in if sint pid < 0 then Some (Return (- 1), v\<lparr>vpst := (vpst v)\<lparr>errno := ENOEXEC\<rparr>\<rparr>)
         else if pid = 0
         then Some (RealExit (if sint (w_execve W path) < 0 then 126 else 0),
                    v\<lparr>vpst := (vpst v)\<lparr>REAL_FORK_CHILD := True\<rparr>\<rparr>)
         else Option.bind (until_return S (\<lambda>i p. Some (exec_wait_round (L i) pid p)) rounds 0 (vpst v)) (\<lambda>(r, p).
                case r of Return st \<Rightarrow> finish (exit_code_of st) (v\<lparr>vpst := p\<rparr>) | _ \<Rightarrow> None))"

definition execve_call ::
  "schedule \<Rightarrow> (nat \<Rightarrow> libc) \<Rightarrow> nat \<Rightarrow> vworld \<Rightarrow> rstr \<Rightarrow> rstr list option \<Rightarrow> rstr list option \<Rightarrow> vst \<Rightarrow>
   (c_int round \<times> vst) option" where
  "execve_call S L rounds W path argv envp v =
     (let (by, p) = bypass (vpst v); v = v\<lparr>vpst := p\<rparr>
      in if by \<or> \<not> ex_set (vsys v) then (let (ret, v) = raw_execve W path v in Some (Return ret, v))
         else (case virtual_execve W (utf8_lossy path) (c_array_to_vec argv) (c_array_to_vec envp) v of
                 (Ok _, v) \<Rightarrow> finish 0 v
               | (Panic, v) \<Rightarrow> None
               | (Err e, v) \<Rightarrow> exec_fallback S L rounds W (utf8_lossy path) v))"

end
