(* ===== verification/Preload_Fd.thy ===== *)
theory Preload_Fd
  imports Preload
begin

unbundle bit_operations_syntax

text \<open>
  The descriptor calls of \<^verbatim>\<open>src/src/preload.rs\<close>: opening, closing and duplicating, status and
  seeking, reading and writing, and multiplexing with \<^verbatim>\<open>poll\<close> and \<^verbatim>\<open>select\<close>. Where a descriptor
  is allocated the outer option is that of the allocator: \<^const>\<open>None\<close> when its loop never ends.
\<close>

section \<open>Opening\<close>

text \<open>The path the real call gets; \<^const>\<open>None\<close> is \<^verbatim>\<open>EINVAL\<close> for a null byte.\<close>

definition open_path :: "u8 list \<Rightarrow> pst \<Rightarrow> u8 list option" where
  "open_path path p =
     (case get_cwd p of
        None \<Rightarrow> Some path
      | Some d \<Rightarrow>
          (let path_str = utf8_lossy path
           in if path_str \<noteq> [] \<and> hd path_str = 47 then Some path
              else (let r = resolve_path d path_str in if 0 \<in> set r then None else Some r)))"

text \<open>\<^verbatim>\<open>get_or_create_table(vpid).insert_file(real_fd, cloexec)\<close>.\<close>

definition adopt_file :: "VPid \<Rightarrow> c_int \<Rightarrow> bool \<Rightarrow> pst \<Rightarrow> (c_int \<times> pst) option" where
  "adopt_file vpid rfd ce p =
     (let (t, w) = get_or_create_table vpid (fdw (psys p));
          p1 = with_sys (\<lambda>s. s\<lparr>fdw := w\<rparr>) p
      in map_option (\<lambda>(fd, st', t'). (fd, set_table vpid (st', t') p1)) (vt_insert_file rfd ce (wstore w) t))"

definition open_call :: "libc \<Rightarrow> u8 list \<Rightarrow> c_int \<Rightarrow> c_int \<Rightarrow> pst \<Rightarrow> (c_int \<times> pst) option" where
  "open_call L path flags mode p =
     (let (by, p) = bypass p
      in case (if by then None else current_vpid p) of
           None \<Rightarrow> Some (l_open L path flags mode, p)
         | Some vpid \<Rightarrow>
             (case open_path path p of
                None \<Rightarrow> Some (fail EINVAL p)
              | Some q \<Rightarrow>
                  (let rfd = l_open L q flags mode
                   in if sint rfd < 0 then Some (rfd, p)
                      else adopt_file vpid rfd (flags AND O_CLOEXEC \<noteq> 0) p)))"

definition AT_FDCWD :: c_int where
  "AT_FDCWD = - 100"

definition openat :: "libc \<Rightarrow> c_int \<Rightarrow> u8 list \<Rightarrow> c_int \<Rightarrow> c_int \<Rightarrow> pst \<Rightarrow> (c_int \<times> pst) option" where
  "openat L dirfd path flags mode p =
     (let (by, p) = bypass p
      in case (if by then None else current_vpid p) of
           None \<Rightarrow> Some (l_openat L dirfd path flags mode, p)
         | Some vpid \<Rightarrow>
             (case (if dirfd = AT_FDCWD then open_path path p else Some path) of
                None \<Rightarrow> Some (fail EINVAL p)
              | Some q \<Rightarrow>
                  (let rfd = l_openat L dirfd q flags mode
                   in if sint rfd < 0 then Some (rfd, p)
                      else adopt_file vpid rfd (flags AND O_CLOEXEC \<noteq> 0) p)))"

definition creat :: "libc \<Rightarrow> u8 list \<Rightarrow> c_int \<Rightarrow> pst \<Rightarrow> (c_int \<times> pst) option" where
  "creat L path mode p =
     (let (by, p) = bypass p
      in case (if by then None else current_vpid p) of
           None \<Rightarrow> Some (l_creat L path mode, p)
         | Some vpid \<Rightarrow>
             (let rfd = l_creat L path mode
              in if sint rfd < 0 then Some (rfd, p) else adopt_file vpid rfd False p))"

definition pipe_call :: "libc \<Rightarrow> pst \<Rightarrow> (c_int \<times> c_int \<times> c_int) \<times> pst" where
  "pipe_call L p = (let (on, p) = enabled p in if \<not> on then (l_pipe L, p) else (l_pipe L, p))"

definition pipe2_call :: "libc \<Rightarrow> c_int \<Rightarrow> pst \<Rightarrow> (c_int \<times> c_int \<times> c_int) \<times> pst" where
  "pipe2_call L flags p =
     (let (on, p) = enabled p in if \<not> on then (l_pipe2 L flags, p) else (l_pipe2 L flags, p))"

section \<open>Closing and duplicating\<close>

text \<open>The descriptor table of the running virtual process, and the operation on it.\<close>

definition own_table :: "pst \<Rightarrow> (VPid \<times> vfd_table) option" where
  "own_table p = Option.bind (current_vpid p) (\<lambda>vpid. map_option (\<lambda>t. (vpid, t)) (table_of vpid p))"

definition the_store :: "pst \<Rightarrow> store" where
  "the_store p = wstore (fdw (psys p))"

definition close_own :: "libc \<Rightarrow> c_int \<Rightarrow> VPid \<Rightarrow> vfd_table \<Rightarrow> pst \<Rightarrow> c_int \<times> pst" where
  "close_own L fd vpid t p =
     (case vt_get t fd of
        Some (Real r) \<Rightarrow> (0, set_table vpid (snd (vt_close fd (the_store p) t)) p)
      | Some (File a f) \<Rightarrow>
          (let (c, t') = close_file_fd fd t; p1 = set_table vpid (the_store p, t') p
           in (0, case c of None \<Rightarrow> p1 | Some rfd \<Rightarrow> snd (real_close L rfd p1)))
      | Some _ \<Rightarrow>
          (let (r, st') = vt_close fd (the_store p) t; p1 = set_table vpid st' p
           in case r of Ok _ \<Rightarrow> (0, p1) | _ \<Rightarrow> fail EBADF p1)
      | None \<Rightarrow> real_close L fd p)"

definition close_call :: "libc \<Rightarrow> c_int \<Rightarrow> pst \<Rightarrow> c_int \<times> pst" where
  "close_call L fd p =
     (let (by, p) = bypass p
      in if by then real_close L fd p
         else if sint fd < 0 then fail EBADF p
         else (case own_table p of
                 None \<Rightarrow> real_close L fd p
               | Some (vpid, t) \<Rightarrow> close_own L fd vpid t p))"

text \<open>A new file entry for a real descriptor, shared by nobody.\<close>

definition new_file :: "c_int \<Rightarrow> store \<Rightarrow> vfd \<times> store" where
  "new_file rfd st =
     (File (next_arc st) \<lparr>real_fd = rfd, cloexec = False\<rparr>, st\<lparr>next_arc := Suc (next_arc st)\<rparr>)"

text \<open>The result of a table operation as the return value and \<^verbatim>\<open>errno\<close> of a call.\<close>

definition or_ebadf :: "VPid \<Rightarrow> (c_int, u32) rres \<times> store \<times> vfd_table \<Rightarrow> pst \<Rightarrow> c_int \<times> pst" where
  "or_ebadf vpid res p =
     (let (r, st') = res; p1 = set_table vpid st' p
      in case r of Ok fd \<Rightarrow> (fd, p1) | _ \<Rightarrow> fail EBADF p1)"

definition dup_own :: "libc \<Rightarrow> c_int \<Rightarrow> VPid \<Rightarrow> vfd_table \<Rightarrow> pst \<Rightarrow> (c_int \<times> pst) option" where
  "dup_own L old_fd vpid t p =
     (case Option.bind (vt_get t old_fd) backing_fd of
        Some rfd \<Rightarrow>
          (let new_real = l_dup L rfd
           in if sint new_real < 0 then Some (fail EBADF p)
              else (let (v, st') = new_file new_real (the_store p)
                    in map_option (\<lambda>(fd, t'). (fd, set_table vpid (st', t') p)) (vt_insert v t)))
      | None \<Rightarrow> map_option (\<lambda>res. or_ebadf vpid res p) (vt_dup old_fd (the_store p) t))"

definition dup_call :: "libc \<Rightarrow> c_int \<Rightarrow> pst \<Rightarrow> (c_int \<times> pst) option" where
  "dup_call L old_fd p =
     (let (by, p) = bypass p
      in case (if by then None else own_table p) of
           None \<Rightarrow> Some (l_dup L old_fd, p)
         | Some (vpid, t) \<Rightarrow> dup_own L old_fd vpid t p)"

definition dup2_own :: "libc \<Rightarrow> c_int \<Rightarrow> c_int \<Rightarrow> VPid \<Rightarrow> vfd_table \<Rightarrow> pst \<Rightarrow> c_int \<times> pst" where
  "dup2_own L old_fd new_fd vpid t p =
     (case Option.bind (vt_get t old_fd) backing_fd of
        Some rfd \<Rightarrow>
          (let r = l_dup2 L rfd new_fd; p1 = with_sys (emit [RealDup2 rfd new_fd]) p
           in if sint r < 0 then fail EBADF p1
              else (let (v, st') = new_file new_fd (the_store p1)
                    in (new_fd, set_table vpid (vt_insert_at new_fd v st' t) p1)))
      | None \<Rightarrow> or_ebadf vpid (vt_dup2 old_fd new_fd (the_store p) t) p)"

definition dup2_call :: "libc \<Rightarrow> c_int \<Rightarrow> c_int \<Rightarrow> pst \<Rightarrow> c_int \<times> pst" where
  "dup2_call L old_fd new_fd p =
     (let (by, p) = bypass p
      in case (if by then None else own_table p) of
           None \<Rightarrow> (l_dup2 L old_fd new_fd, with_sys (emit [RealDup2 old_fd new_fd]) p)
         | Some (vpid, t) \<Rightarrow> dup2_own L old_fd new_fd vpid t p)"

section \<open>Status and seeking\<close>

text \<open>The real descriptor a status call uses, or the error it reports.\<close>

definition stat_target :: "c_int \<Rightarrow> pst \<Rightarrow> (c_int, c_int) rres" where
  "stat_target fd p =
     (case own_table p of
        None \<Rightarrow> Ok fd
      | Some (vpid, t) \<Rightarrow>
          (case vt_get t fd of
             None \<Rightarrow> Err EBADF
           | Some v \<Rightarrow> (case backing_fd v of Some rfd \<Rightarrow> Ok rfd | None \<Rightarrow> Err ESPIPE)))"

definition fstat_call :: "libc \<Rightarrow> c_int \<Rightarrow> pst \<Rightarrow> c_int \<times> pst" where
  "fstat_call L fd p =
     (let (by, p) = bypass p
      in case (if by then Ok fd else stat_target fd p) of
           Ok rfd \<Rightarrow> (l_fstat L rfd, p) | Err e \<Rightarrow> fail e p | Panic \<Rightarrow> fail 0 p)"

definition lseek_call :: "libc \<Rightarrow> c_int \<Rightarrow> u64 \<Rightarrow> c_int \<Rightarrow> pst \<Rightarrow> u64 \<times> pst" where
  "lseek_call L fd off whence p =
     (let (by, p) = bypass p
      in case (if by then Ok fd else stat_target fd p) of
           Ok rfd \<Rightarrow> (l_lseek L rfd off whence, p)
         | Err e \<Rightarrow> (- 1, p\<lparr>errno := e\<rparr>)
         | Panic \<Rightarrow> (- 1, p))"

section \<open>Reading and writing\<close>

text \<open>Which loop a read or write enters, decided once at its start.\<close>

datatype io_path = Direct | BadFd | RealLoop c_int | PipeLoop VPid

fun is_pipe_end :: "vfd \<Rightarrow> bool" where
  "is_pipe_end (PipeRead a) = True"
| "is_pipe_end (PipeWrite a) = True"
| "is_pipe_end (Real r) = False"
| "is_pipe_end (File a f) = False"

definition io_entry :: "c_int \<Rightarrow> pst \<Rightarrow> io_path \<times> pst" where
  "io_entry fd p =
     (let (by, p) = bypass p
      in (if by then Direct
          else if sint fd < 0 then BadFd
          else (case current_vpid p of
                  None \<Rightarrow> Direct
                | Some vpid \<Rightarrow>
                    (case fd_entry vpid fd p of
                       None \<Rightarrow> RealLoop fd
                     | Some v \<Rightarrow> if is_pipe_end v then PipeLoop vpid
                                 else RealLoop (case backing_fd v of Some r \<Rightarrow> r | None \<Rightarrow> fd)))
          , p))"

text \<open>
  A read fills the front of the destination; \<open>real_read\<close> and \<open>real_write\<close> are the libc calls.
\<close>

definition real_read :: "libc \<Rightarrow> c_int \<Rightarrow> u8 list \<Rightarrow> int \<times> u8 list" where
  "real_read L fd dst = (let (n, bs) = l_read L fd (length dst) in (n, take (length dst) bs @ drop (length bs) dst))"

definition read_real_round :: "libc \<Rightarrow> c_int \<Rightarrow> u8 list \<Rightarrow> (int \<times> u8 list) round" where
  "read_real_round L rfd dst =
     (let (ready, pfds) = l_poll L [\<lparr>pfd = rfd, events = POLLIN, revents = 0\<rparr>] 0
      in if 0 < sint ready then Return (real_read L rfd dst)
         else if sint ready < 0 then Return (- 1, dst)
         else WaitIo [(rfd, POLLIN)] (- 1))"

text \<open>Storing a pipe buffer back behind its shared reference.\<close>

definition set_pipe :: "arc \<Rightarrow> pipe_buffer \<Rightarrow> pst \<Rightarrow> pst" where
  "set_pipe a b p = with_sys (\<lambda>s. s\<lparr>fdw := (fdw s)\<lparr>wstore := (wstore (fdw s))
     \<lparr>pipes := (pipes (wstore (fdw s)))(a \<mapsto> b)\<rparr>\<rparr>\<rparr>) p"

definition pipe_at :: "arc \<Rightarrow> pst \<Rightarrow> pipe_buffer option" where
  "pipe_at a p = pipes (the_store p) a"

definition read_pipe_round ::
  "VPid \<Rightarrow> c_int \<Rightarrow> u8 list \<Rightarrow> pst \<Rightarrow> ((int \<times> u8 list) round \<times> pst) option" where
  "read_pipe_round vpid fd dst p =
     (case fd_entry vpid fd p of
        Some (PipeRead a) \<Rightarrow>
          Option.bind (pipe_at a p) (\<lambda>b.
          Option.bind (read_from b dst) (\<lambda>(n, dst', b').
            Some (if 0 \<le> n then Return (n, dst') else Yield, set_pipe a b' p)))
      | _ \<Rightarrow> Some (Return (- 1, dst), p\<lparr>errno := EBADF\<rparr>))"

definition read_call ::
  "schedule \<Rightarrow> (nat \<Rightarrow> libc) \<Rightarrow> nat \<Rightarrow> c_int \<Rightarrow> u8 list \<Rightarrow> pst \<Rightarrow> ((int \<times> u8 list) round \<times> pst) option" where
  "read_call S L rounds fd dst p =
     (let (path, p) = io_entry fd p
      in case path of
           Direct \<Rightarrow> Some (Return (real_read (L 0) fd dst), p)
         | BadFd \<Rightarrow> Some (Return (- 1, dst), p\<lparr>errno := EBADF\<rparr>)
         | RealLoop rfd \<Rightarrow> until_return S (\<lambda>i p. Some (read_real_round (L i) rfd dst, p)) rounds 0 p
         | PipeLoop vpid \<Rightarrow> until_return S (\<lambda>i. read_pipe_round vpid fd dst) rounds 0 p)"

definition write_real_round :: "libc \<Rightarrow> c_int \<Rightarrow> u8 list \<Rightarrow> int round" where
  "write_real_round L rfd src =
     (let (ready, pfds) = l_poll L [\<lparr>pfd = rfd, events = POLLOUT, revents = 0\<rparr>] 0
      in if 0 < sint ready then Return (l_write L rfd src)
         else if sint ready < 0 then Return (- 1)
         else WaitIo [(rfd, POLLOUT)] (- 1))"

text \<open>A write to a closed pipe ends the virtual process as \<^verbatim>\<open>SIGPIPE\<close> would.\<close>

definition write_pipe_round ::
  "VPid \<Rightarrow> c_int \<Rightarrow> u8 list \<Rightarrow> pst \<Rightarrow> (int round \<times> pst) option" where
  "write_pipe_round vpid fd src p =
     (case fd_entry vpid fd p of
        Some (PipeWrite a) \<Rightarrow>
          Option.bind (pipe_at a p) (\<lambda>b.
          Option.bind (write_to b src) (\<lambda>(n, b').
            let p1 = set_pipe a b' p
            in Some (if 0 \<le> n then (Return n, p1)
                     else if is_closed b'
                     then (Exits (128 + SIGPIPE),
                           with_sys (vproc_exit_with_code (128 + SIGPIPE)) (p1\<lparr>errno := EPIPE\<rparr>))
                     else (Yield, p1))))
      | _ \<Rightarrow> Some (Return (- 1), p\<lparr>errno := EBADF\<rparr>))"

definition write_call ::
  "schedule \<Rightarrow> (nat \<Rightarrow> libc) \<Rightarrow> nat \<Rightarrow> c_int \<Rightarrow> u8 list \<Rightarrow> pst \<Rightarrow> (int round \<times> pst) option" where
  "write_call S L rounds fd src p =
     (let (path, p) = io_entry fd p
      in case path of
           Direct \<Rightarrow> Some (Return (l_write (L 0) fd src), p)
         | BadFd \<Rightarrow> Some (Return (- 1), p\<lparr>errno := EBADF\<rparr>)
         | RealLoop rfd \<Rightarrow> until_return S (\<lambda>i p. Some (write_real_round (L i) rfd src, p)) rounds 0 p
         | PipeLoop vpid \<Rightarrow> until_return S (\<lambda>i. write_pipe_round vpid fd src) rounds 0 p)"

section \<open>Multiplexing\<close>

text \<open>
  One descriptor of \<^verbatim>\<open>poll\<close>: the entry with its events reported, and the real descriptors to
  wait for. \<open>poll_real\<close> asks the kernel about a single real descriptor.
\<close>

definition poll_real :: "libc \<Rightarrow> c_int \<Rightarrow> pollfd \<Rightarrow> pollfd \<times> (c_int \<times> u16) list" where
  "poll_real L rfd f =
     (let (ready, checks) = l_poll L [\<lparr>pfd = rfd, events = events f, revents = 0\<rparr>] 0
      in if 0 < sint ready
         then (f\<lparr>revents := (case checks of [] \<Rightarrow> 0 | check # _ \<Rightarrow> revents check)\<rparr>, [])
         else (f\<lparr>revents := 0\<rparr>, [(rfd, events f)]))"

definition poll_pipe_read :: "pipe_buffer \<Rightarrow> u16 \<Rightarrow> u16" where
  "poll_pipe_read b ev =
     (if ev AND POLLIN \<noteq> 0 \<and> (\<not> is_empty b \<or> is_closed b)
      then POLLIN OR (if is_closed b then POLLHUP else 0) else 0)"

definition poll_pipe_write :: "pipe_buffer \<Rightarrow> u16 \<Rightarrow> u16" where
  "poll_pipe_write b ev =
     (if ev AND POLLOUT \<noteq> 0
      then (if \<not> is_full b then POLLOUT else 0) OR (if is_closed b then POLLERR else 0) else 0)"

definition poll_one :: "libc \<Rightarrow> VPid \<Rightarrow> pst \<Rightarrow> pollfd \<Rightarrow> (pollfd \<times> (c_int \<times> u16) list) option" where
  "poll_one L vpid p f =
     (case fd_entry vpid (pfd f) p of
        Some (PipeRead a) \<Rightarrow>
          map_option (\<lambda>b. (f\<lparr>revents := poll_pipe_read b (events f)\<rparr>, [])) (pipe_at a p)
      | Some (PipeWrite a) \<Rightarrow>
          map_option (\<lambda>b. (f\<lparr>revents := poll_pipe_write b (events f)\<rparr>, [])) (pipe_at a p)
      | Some (Real r) \<Rightarrow> Some (poll_real L r f)
      | Some (File a file) \<Rightarrow> Some (poll_real L (real_fd file) f)
      | None \<Rightarrow> Some (poll_real L (pfd f) f))"

fun poll_scan ::
  "libc \<Rightarrow> VPid \<Rightarrow> pst \<Rightarrow> pollfd list \<Rightarrow> (pollfd list \<times> (c_int \<times> u16) list) option" where
  "poll_scan L vpid p [] = Some ([], [])"
| "poll_scan L vpid p (f # fs) =
     Option.bind (poll_one L vpid p f) (\<lambda>(f', w).
       map_option (\<lambda>(fs', ws). (f' # fs', w @ ws)) (poll_scan L vpid p fs))"

definition poll_round ::
  "libc \<Rightarrow> VPid \<Rightarrow> pollfd list \<Rightarrow> c_int \<Rightarrow> pst \<Rightarrow> ((c_int \<times> pollfd list) round \<times> pst) option" where
  "poll_round L vpid pfds timeout p =
     map_option (\<lambda>(pfds', wait_fds).
         let count = length (filter (\<lambda>f. revents f \<noteq> 0) pfds')
         in (if 0 < count then Return (of_nat count, pfds')
             else if timeout = 0 then Return (0, pfds')
             else WaitIo wait_fds timeout, p))
       (poll_scan L vpid p pfds)"

definition poll_call ::
  "schedule \<Rightarrow> (nat \<Rightarrow> libc) \<Rightarrow> nat \<Rightarrow> pollfd list \<Rightarrow> c_int \<Rightarrow> pst \<Rightarrow> ((c_int \<times> pollfd list) round \<times> pst) option" where
  "poll_call S L rounds pfds timeout p =
     (let (by, p) = bypass p
      in case (if by then None else current_vpid p) of
           None \<Rightarrow> Some (Return (l_poll (L 0) pfds timeout), p)
         | Some vpid \<Rightarrow>
             if pfds = [] then Some (Return (l_poll (L 0) pfds timeout), p)
             else until_return S (\<lambda>i. poll_round (L i) vpid pfds timeout) rounds 0 p)"

text \<open>
  \<^verbatim>\<open>select\<close>. An \<^verbatim>\<open>fd_set\<close> is its 1024 bits; \<^const>\<open>None\<close> is a null pointer.
\<close>

type_synonym fd_set = "1024 word"

definition FD_SETSIZE :: c_int where
  "FD_SETSIZE = 1024"

definition FD_ISSET :: "c_int \<Rightarrow> fd_set \<Rightarrow> bool" where
  "FD_ISSET fd s = bit s (unat fd)"

definition FD_SET :: "c_int \<Rightarrow> fd_set \<Rightarrow> fd_set" where
  "FD_SET fd s = Bit_Operations.set_bit (unat fd) s"

record timeval =
  tv_sec :: u64
  tv_usec :: u64

definition in_set :: "c_int \<Rightarrow> fd_set option \<Rightarrow> bool" where
  "in_set fd s = (case s of None \<Rightarrow> False | Some s \<Rightarrow> FD_ISSET fd s)"

text \<open>Division of \<^verbatim>\<open>i64\<close> rounds towards zero; the cast keeps the low 32 bits.\<close>

definition select_timeout :: "timeval option \<Rightarrow> c_int" where
  "select_timeout timeout =
     (case timeout of
        None \<Rightarrow> - 1
      | Some tv \<Rightarrow> word_of_int (sint (tv_sec tv) * 1000 + sgn (sint (tv_usec tv)) * (\<bar>sint (tv_usec tv)\<bar> div 1000)))"

definition select_events :: "fd_set option \<Rightarrow> fd_set option \<Rightarrow> fd_set option \<Rightarrow> c_int \<Rightarrow> u16" where
  "select_events rs ws es fd =
     (if in_set fd rs then POLLIN else 0) OR (if in_set fd ws then POLLOUT else 0) OR
     (if in_set fd es then POLLPRI else 0)"

definition select_pollfds :: "c_int \<Rightarrow> fd_set option \<Rightarrow> fd_set option \<Rightarrow> fd_set option \<Rightarrow> pollfd list" where
  "select_pollfds nfds rs ws es =
     concat (map (\<lambda>i. let fd = of_nat i; ev = select_events rs ws es fd
                      in if ev \<noteq> 0 then [\<lparr>pfd = fd, events = ev, revents = 0\<rparr>] else [])
                 [0..<nat (min (sint nfds) (sint FD_SETSIZE))])"

definition select_result :: "u16 \<Rightarrow> c_int \<Rightarrow> pollfd list \<Rightarrow> fd_set option \<Rightarrow> fd_set option" where
  "select_result ev_bit ret pfds s =
     map_option (\<lambda>_. if 0 < sint ret
        then fold (\<lambda>f acc. if sint (pfd f) < sint FD_SETSIZE \<and> revents f AND ev_bit \<noteq> 0
                           then FD_SET (pfd f) acc else acc) pfds 0
        else 0) s"

definition select_call ::
  "schedule \<Rightarrow> (nat \<Rightarrow> libc) \<Rightarrow> nat \<Rightarrow> (c_int \<times> fd_set option \<times> fd_set option \<times> fd_set option) \<Rightarrow>
   c_int \<Rightarrow> fd_set option \<Rightarrow> fd_set option \<Rightarrow> fd_set option \<Rightarrow> timeval option \<Rightarrow> pst \<Rightarrow>
   ((c_int \<times> fd_set option \<times> fd_set option \<times> fd_set option) round \<times> pst) option" where
  "select_call S L rounds real_select nfds rs ws es timeout p =
     (let (by, p) = bypass p
      in if by \<or> current_vpid p = None then Some (Return real_select, p)
         else Option.bind (poll_call S L rounds (select_pollfds nfds rs ws es) (select_timeout timeout) p)
                (\<lambda>(r, p'). case r of
                   Return (ret, pfds) \<Rightarrow>
                     Some (Return (ret, select_result POLLIN ret pfds rs, select_result POLLOUT ret pfds ws,
                                   select_result POLLPRI ret pfds es), p')
                 | Exits code \<Rightarrow> Some (Exits code, p')
                 | RealExit code \<Rightarrow> Some (RealExit code, p')
                 | _ \<Rightarrow> None))"

end
