(* ===== verification/Ffi.thy ===== *)
theory Ffi
  imports Vexec Preload_Fd
begin

text \<open>
  The calls of the C interface \<^verbatim>\<open>src/src/ffi.rs\<close> that act on the calling virtual process or on
  the descriptor tables, and the wrappers of \<^verbatim>\<open>src/src/lib.rs\<close>. As in \<open>Preload\<close>, \<open>L\<close> answers for
  the real libc; \<^const>\<open>None\<close> is a panic, a null pointer that is followed, or an allocator
  loop that does not end.
\<close>

section \<open>Wrappers of the crate\<close>

definition lib_spawn :: "nat \<Rightarrow> handle option \<Rightarrow> sys \<Rightarrow> (VPid \<times> sys) option" where
  "lib_spawn f mco s = (if ex_set s then spawn f mco s else None)"

definition lib_spawn_front :: "nat \<Rightarrow> handle option \<Rightarrow> sys \<Rightarrow> (VPid \<times> sys) option" where
  "lib_spawn_front f mco s = (if ex_set s then spawn_front f mco s else None)"

definition lib_yield :: "(handle \<Rightarrow> sys \<Rightarrow> sys \<times> bool) \<Rightarrow> sys \<Rightarrow> sys option" where
  "lib_yield run s = do_yield run s"

definition lib_switch_count :: "sys \<Rightarrow> u64 option" where
  "lib_switch_count s = (if ex_set s then Some (switch_count (ex s)) else None)"

definition lib_exit :: "c_int \<Rightarrow> sys \<Rightarrow> sys" where
  "lib_exit code s = vproc_exit_with_code code s"

definition lib_get_exit_code :: "VPid \<Rightarrow> sys \<Rightarrow> c_int option" where
  "lib_get_exit_code pid s = get_exit_code pid s"

definition lib_unload_binary :: "vworld \<Rightarrow> rstr \<Rightarrow> vst \<Rightarrow> bool \<times> vst" where
  "lib_unload_binary W path v = unload_binary W path v"

definition lib_unload_all_binaries :: "vst \<Rightarrow> vst" where
  "lib_unload_all_binaries v = unload_all_binaries v"

definition lib_cached_binary_count :: "vst \<Rightarrow> nat" where
  "lib_cached_binary_count v = cached_binary_count v"

definition cleanup_fd_tables :: "fd_world \<Rightarrow> fd_world" where
  "cleanup_fd_tables w = cleanup w"

section \<open>The calling process\<close>

definition vproc_ffi_current_vpid :: "sys \<Rightarrow> u32" where
  "vproc_ffi_current_vpid s =
     (if \<not> ex_set s then 0 else (case current (ex s) of None \<Rightarrow> 0 | Some v \<Rightarrow> v))"

definition vproc_ffi_exit :: "c_int \<Rightarrow> pst \<Rightarrow> unit round \<times> pst" where
  "vproc_ffi_exit code p =
     (let in_coroutine = (ex_set (psys p) \<and> current (ex (psys p)) \<noteq> None)
      in if in_coroutine then (Exits code, with_sys (vproc_exit_with_code code) p) else (RealExit code, p))"

definition vproc_ffi_yield :: "(handle \<Rightarrow> sys \<Rightarrow> sys \<times> bool) \<Rightarrow> sys \<Rightarrow> sys option" where
  "vproc_ffi_yield run s = do_yield run s"

definition vproc_ffi_get_exit_code :: "u32 \<Rightarrow> sys \<Rightarrow> c_int" where
  "vproc_ffi_get_exit_code vpid s = (case get_exit_code vpid s of None \<Rightarrow> - 1 | Some code \<Rightarrow> code)"

definition vproc_ffi_getpid :: "libc \<Rightarrow> sys \<Rightarrow> u32" where
  "vproc_ffi_getpid L s =
     (if \<not> ex_set s then l_getpid L
      else (case current (ex s) of Some pid \<Rightarrow> pid | None \<Rightarrow> l_getpid L))"

definition vproc_ffi_getppid :: "libc \<Rightarrow> sys \<Rightarrow> u32" where
  "vproc_ffi_getppid L s =
     (if \<not> ex_set s then l_getppid L
      else (case current (ex s) of
              Some pid \<Rightarrow> (case hm_get (vprocs (ex s)) pid of Some c \<Rightarrow> ppid c | None \<Rightarrow> 0)
            | None \<Rightarrow> l_getppid L))"

text \<open>\<^verbatim>\<open>vproc_ffi_execve\<close> returns when the program could not be started, or outside a coroutine.\<close>

definition vproc_ffi_execve ::
  "vworld \<Rightarrow> rstr \<Rightarrow> rstr list option \<Rightarrow> rstr list option \<Rightarrow> vst \<Rightarrow> (c_int round \<times> vst) option" where
  "vproc_ffi_execve W path argv envp v =
     (case virtual_execve W (utf8_lossy path) (c_array_to_vec argv) (c_array_to_vec envp) v of
        (Ok _, v) \<Rightarrow>
          Some (if current (ex (vsys v)) = None \<or> mco_running (vsys v) = None then Return (- 1) else Exits 0,
                with_rt (vproc_exit_with_code 0) v)
      | (Panic, v) \<Rightarrow> None
      | (Err e, v) \<Rightarrow> Some (Return (- 1), v\<lparr>vpst := (vpst v)\<lparr>errno := ENOEXEC\<rparr>\<rparr>))"

section \<open>Virtual fork\<close>

text \<open>
  The first two phases: a fork child that enters the call returns at once; a parent saves
  its return address \<open>lr\<close>, puts the coroutine \<open>f\<close>, which will copy its stack, at the front of the queue
  and yields.
\<close>

definition fork_begin :: "u64 \<Rightarrow> nat \<Rightarrow> handle option \<Rightarrow> sys \<Rightarrow> (u32 round \<times> sys) option" where
  "fork_begin lr f mco s =
     (if \<not> ex_set s then None
      else (case current (ex s) of
              None \<Rightarrow> None
            | Some pid \<Rightarrow>
                Option.bind (hm_get (vprocs (ex s)) pid) (\<lambda>c.
                  if is_fork_child c
                  then Some (Return 0, with_vprocs (hm_modify pid (\<lambda>c. c\<lparr>is_fork_child := False\<rparr>)) s)
                  else map_option (\<lambda>(h, s). (Yield, s))
                         (lib_spawn_front f mco (s\<lparr>ex := (ex s)\<lparr>saved_fork_lr := Some lr\<rparr>\<rparr>)))))"

text \<open>What the coroutine \<open>f\<close> does: \<open>mco\<close> answers for the copy of the context.\<close>

definition fork_helper :: "VPid \<Rightarrow> handle option \<Rightarrow> sys \<Rightarrow> sys option" where
  "fork_helper parent_pid mco s = (if ex_set s then map_option snd (spawn_fork_child parent_pid mco s) else None)"

text \<open>The last phase, where the parent and later its child, whose stack is a copy, go on.\<close>

definition fork_resume :: "sys \<Rightarrow> (u32 \<times> sys) option" where
  "fork_resume s =
     (if \<not> ex_set s then None
      else (let s1 = s\<lparr>ex := (ex s)\<lparr>saved_fork_lr := None\<rparr>\<rparr>
            in Option.bind (current (ex s1)) (\<lambda>pid.
               Option.bind (hm_get (vprocs (ex s1)) pid) (\<lambda>c.
                 Some (if is_fork_child c
                       then (0, with_vprocs (hm_modify pid (\<lambda>c. c\<lparr>is_fork_child := False\<rparr>)) s1)
                       else (fork_child_pid c, s1))))))"

definition vproc_ffi_fork ::
  "(handle \<Rightarrow> sys \<Rightarrow> sys \<times> bool) \<Rightarrow> (sys \<Rightarrow> sys) \<Rightarrow> u64 \<Rightarrow> nat \<Rightarrow> handle option \<Rightarrow> sys \<Rightarrow> (u32 \<times> sys) option" where
  "vproc_ffi_fork run others lr f mco s =
     Option.bind (fork_begin lr f mco s) (\<lambda>(r, s1).
       case r of
         Return x \<Rightarrow> Some (x, s1)
       | _ \<Rightarrow> Option.bind (do_yield run s1) (\<lambda>s2. fork_resume (others s2)))"

section \<open>Descriptors\<close>

definition put_pipe :: "arc \<Rightarrow> pipe_buffer \<Rightarrow> fd_world \<Rightarrow> fd_world" where
  "put_pipe a b w = w\<lparr>wstore := (wstore w)\<lparr>pipes := (pipes (wstore w))(a \<mapsto> b)\<rparr>\<rparr>"

definition fd_at :: "u32 \<Rightarrow> c_int \<Rightarrow> fd_world \<Rightarrow> vfd option" where
  "fd_at vpid fd w = Option.bind (get_table vpid w) (\<lambda>t. vt_get t fd)"

text \<open>The return value, then the two descriptors written to the array.\<close>

definition vproc_ffi_pipe :: "u32 \<Rightarrow> fd_world \<Rightarrow> (c_int \<times> (c_int \<times> c_int) \<times> fd_world) option" where
  "vproc_ffi_pipe vpid w =
     (let (t, w1) = get_or_create_table vpid w
      in map_option (\<lambda>(rfd, wfd, st', t'). (0, (rfd, wfd), put_table vpid (st', t') w1)) (create_pipe (wstore w1) t))"

definition vproc_ffi_is_virtual_fd :: "u32 \<Rightarrow> c_int \<Rightarrow> fd_world \<Rightarrow> c_int" where
  "vproc_ffi_is_virtual_fd vpid fd w =
     (case fd_at vpid fd w of None \<Rightarrow> 0 | Some (Real r) \<Rightarrow> 0 | Some _ \<Rightarrow> 1)"

definition vproc_ffi_read :: "u32 \<Rightarrow> c_int \<Rightarrow> u8 list \<Rightarrow> fd_world \<Rightarrow> (int \<times> u8 list \<times> fd_world) option" where
  "vproc_ffi_read vpid fd dst w =
     (case fd_at vpid fd w of
        Some (PipeRead a) \<Rightarrow>
          Option.bind (pipes (wstore w) a) (\<lambda>b.
          map_option (\<lambda>(n, dst', b'). (n, dst', put_pipe a b' w)) (read_from b dst))
      | _ \<Rightarrow> Some (- 1, dst, w))"

definition vproc_ffi_write :: "u32 \<Rightarrow> c_int \<Rightarrow> u8 list \<Rightarrow> fd_world \<Rightarrow> (int \<times> fd_world) option" where
  "vproc_ffi_write vpid fd src w =
     (case fd_at vpid fd w of
        Some (PipeWrite a) \<Rightarrow>
          Option.bind (pipes (wstore w) a) (\<lambda>b. map_option (\<lambda>(n, b'). (n, put_pipe a b' w)) (write_to b src))
      | _ \<Rightarrow> Some (- 1, w))"

definition vproc_ffi_pipe_is_closed :: "u32 \<Rightarrow> c_int \<Rightarrow> fd_world \<Rightarrow> c_int" where
  "vproc_ffi_pipe_is_closed vpid fd w =
     (case fd_at vpid fd w of
        Some (PipeWrite a) \<Rightarrow> (case pipes (wstore w) a of Some b \<Rightarrow> if is_closed b then 1 else 0 | None \<Rightarrow> 0)
      | _ \<Rightarrow> 0)"

text \<open>With the real descriptors it closes.\<close>

definition vproc_ffi_close :: "u32 \<Rightarrow> c_int \<Rightarrow> fd_world \<Rightarrow> c_int \<times> c_int list \<times> fd_world" where
  "vproc_ffi_close vpid fd w =
     (case get_table vpid w of
        None \<Rightarrow> (- 1, [], w)
      | Some t \<Rightarrow>
          (case vt_get t fd of
             Some (File a f) \<Rightarrow>
               (let (c, t') = close_file_fd fd t
                in (0, case c of None \<Rightarrow> [] | Some rfd \<Rightarrow> [rfd], put_table vpid (wstore w, t') w))
           | _ \<Rightarrow>
               (let (r, st') = vt_close fd (wstore w) t
                in (case r of Ok _ \<Rightarrow> 0 | _ \<Rightarrow> - 1, [], put_table vpid st' w))))"

definition vproc_ffi_dup :: "u32 \<Rightarrow> c_int \<Rightarrow> fd_world \<Rightarrow> (c_int \<times> fd_world) option" where
  "vproc_ffi_dup vpid old_fd w =
     (case get_table vpid w of
        None \<Rightarrow> Some (- 1, w)
      | Some t \<Rightarrow>
          map_option (\<lambda>(r, st'). (case r of Ok fd \<Rightarrow> fd | _ \<Rightarrow> - 1, put_table vpid st' w)) (vt_dup old_fd (wstore w) t))"

definition vproc_ffi_dup2 :: "u32 \<Rightarrow> c_int \<Rightarrow> c_int \<Rightarrow> fd_world \<Rightarrow> c_int \<times> fd_world" where
  "vproc_ffi_dup2 vpid old_fd new_fd w =
     (case get_table vpid w of
        None \<Rightarrow> (- 1, w)
      | Some t \<Rightarrow>
          (let (r, st') = vt_dup2 old_fd new_fd (wstore w) t
           in (case r of Ok fd \<Rightarrow> fd | _ \<Rightarrow> - 1, put_table vpid st' w)))"

text \<open>The bytes written to a buffer of \<open>sz\<close> bytes, with their null byte; \<^const>\<open>None\<close> is -1.\<close>

definition vproc_ffi_get_cwd :: "u32 \<Rightarrow> nat \<Rightarrow> sys \<Rightarrow> u8 list option" where
  "vproc_ffi_get_cwd vpid sz s =
     (if \<not> ex_set s then None
      else (case hm_get (vprocs (ex s)) vpid of
              None \<Rightarrow> None
            | Some c \<Rightarrow>
                (case cwd c of
                   None \<Rightarrow> None
                 | Some d \<Rightarrow> if sz < length d + 1 then None else Some (d @ [0]))))"

end
