(* ===== verification/Session.thy ===== *)
theory Session
  imports Ffi
begin

text \<open>
  The sessions of \<^verbatim>\<open>src/src/ffi.rs\<close>: the session table, the driver thread of a session and the
  calls by which other threads create processes and wait for their end.

  A session object (\<^verbatim>\<open>Arc<Mutex<Session>>\<close>) and a result cell (\<^verbatim>\<open>Arc<(Mutex<Option<_>>, Condvar)>\<close>)
  are known by numbers. A driver and a call are programs of small steps: a step is what a
  thread does between two points at which other threads can act, holding the session's
  mutex; the phases of a driver and of a call are its program counters. A step of a call that finds
  the mutex it needs taken waits, and \<open>n\<close> bounds the steps of a call that are looked at; the calls that
  take a mutex once, for a moment, are one step, made when they have it. What lies outside the
  crate is a parameter: \<open>W\<close> for the environment of an execve, \<open>L\<close> for libc, \<open>run\<close> for the code of
  the coroutines, \<open>ok3\<close> for the kernel's answer to \<^verbatim>\<open>dup3\<close>. \<^const>\<open>None\<close> is a panic or an abort.
  Sleeping, the timer slack, the signal mask of the driver thread and the debug marker
  \<^verbatim>\<open>VPROC_CREATE_PROGRESS\<close> have no place in the state.
\<close>

section \<open>State\<close>

record SpawnRequest =
  req_path :: rstr
  req_argv :: "rstr list"
  req_envp :: "rstr list"
  stdin_fd :: c_int
  stdout_fd :: c_int
  stderr_fd :: c_int
  req_result :: nat

record Waiter =
  wait_vpid :: u32
  wait_result :: nat

record Session =
  sess_id :: u32
  executor :: Executor
  spawn_queue :: "SpawnRequest list"
  waiters :: "Waiter list"
  saved_fds :: "c_int \<times> c_int \<times> c_int"
  probe_result :: "c_int option"
  shutdown :: bool

text \<open>
  Where a driver thread is: before its setup, at the top of its loop, in \<^verbatim>\<open>poll\<close> with the
  session unlocked, at the test of the inner loop, asleep on the condition variable, or
  returned.
\<close>

datatype phase = Starting | Iterate | Polling "pollfd list" "VPid list" | Deciding | Sleeping | Ended

text \<open>
  \<open>shared\<close> is what all threads of the process share: descriptor tables, memory, cached
  binaries. Its executor is the one of the thread that acts.
\<close>

record host =
  SESSIONS :: "(u32, nat) hmap"
  NEXT_SESSION_ID :: u32
  DEFAULT_SESSION :: "u32 option"
  objs :: "nat \<Rightarrow> Session option"
  drivers :: "nat \<Rightarrow> phase option"
  next_obj :: nat
  spawn_cells :: "nat \<Rightarrow> u32 option"
  wait_cells :: "nat \<Rightarrow> c_int option"
  next_cell :: nat
  shared :: vst

definition put_session :: "nat \<Rightarrow> Session \<Rightarrow> host \<Rightarrow> host" where
  "put_session i S h = h\<lparr>objs := (objs h)(i \<mapsto> S)\<rparr>"

definition put_phase :: "nat \<Rightarrow> phase \<Rightarrow> host \<Rightarrow> host" where
  "put_phase i ph h = h\<lparr>drivers := (drivers h)(i \<mapsto> ph)\<rparr>"

text \<open>\<^verbatim>\<open>wake.notify_all()\<close>: a driver asleep goes back to its test; any other is not affected.\<close>

definition notify_all :: "nat \<Rightarrow> host \<Rightarrow> host" where
  "notify_all i h = (if drivers h i = Some Sleeping then put_phase i Deciding h else h)"

section \<open>Creating and destroying sessions\<close>

definition session_new :: "u32 \<Rightarrow> Session" where
  "session_new sid =
     \<lparr>sess_id = sid, executor = executor_new, spawn_queue = [], waiters = [], saved_fds = (- 1, - 1, - 1),
      probe_result = None, shutdown = False\<rparr>"

definition vproc_ffi_create_session :: "bool \<Rightarrow> host \<Rightarrow> (u32 \<times> host) option" where
  "vproc_ffi_create_session thread_ok h =
     (let session_id = NEXT_SESSION_ID h;
          h1 = h\<lparr>NEXT_SESSION_ID := session_id + 1, next_obj := Suc (next_obj h)\<rparr>;
          h2 = put_phase (next_obj h) Starting (put_session (next_obj h) (session_new session_id) h1)
      in if thread_ok
         then Some (session_id, h2\<lparr>SESSIONS := hm_insert session_id (next_obj h) (SESSIONS h2)\<rparr>) else None)"

definition vproc_ffi_destroy_session :: "u32 \<Rightarrow> host \<Rightarrow> host" where
  "vproc_ffi_destroy_session session_id h =
     (case hm_get (SESSIONS h) session_id of
        None \<Rightarrow> h
      | Some i \<Rightarrow>
          (let h1 = h\<lparr>SESSIONS := hm_remove session_id (SESSIONS h)\<rparr>
           in h1\<lparr>objs := (objs h1)(i := map_option (\<lambda>S. S\<lparr>shutdown := True\<rparr>) (objs h1 i))\<rparr>))"

text \<open>The lazily created default session.\<close>

definition ensure_default_session :: "bool \<Rightarrow> host \<Rightarrow> (u32 \<times> host) option" where
  "ensure_default_session thread_ok h =
     (case DEFAULT_SESSION h of
        Some sid \<Rightarrow> Some (sid, h)
      | None \<Rightarrow> map_option (\<lambda>(sid, h1). (sid, h1\<lparr>DEFAULT_SESSION := Some sid\<rparr>)) (vproc_ffi_create_session thread_ok h))"

section \<open>The driver thread\<close>

text \<open>The setup: \<open>dup\<close> is the answer of \<^verbatim>\<open>dup\<close> for the three standard descriptors.\<close>

definition driver_start :: "(c_int \<Rightarrow> c_int) \<Rightarrow> Session \<Rightarrow> Session" where
  "driver_start dup S =
     (let keep = (\<lambda>fd. if 0 \<le> sint (dup fd) then dup fd else fd)
      in S\<lparr>saved_fds := (keep 0, keep 1, keep 2), probe_result := Some 0\<rparr>)"

text \<open>The thread-local executor pointer set to the session's executor; the driver is in no coroutine.\<close>

definition enter :: "Session \<Rightarrow> vst \<Rightarrow> vst" where
  "enter S v = with_rt (\<lambda>s. s\<lparr>ex_set := True, ex := executor S, mco_running := None\<rparr>) v"

definition with_fdw :: "(fd_world \<Rightarrow> fd_world) \<Rightarrow> vst \<Rightarrow> vst" where
  "with_fdw f v = with_rt (\<lambda>s. s\<lparr>fdw := f (fdw s)\<rparr>) v"

text \<open>The spawn requests taken from the queue; the environment may answer each one differently.\<close>

fun serve_requests ::
  "(nat \<Rightarrow> vworld) \<Rightarrow> SpawnRequest list \<Rightarrow> vst \<Rightarrow> (nat \<Rightarrow> u32 option) \<Rightarrow> (vst \<times> (nat \<Rightarrow> u32 option)) option" where
  "serve_requests W [] v cells = Some (v, cells)"
| "serve_requests W (req # reqs) v cells =
     (case virtual_execve_via_entry (W 0) (req_path req) (req_argv req) (req_envp req) v of
        (Ok vpid, v1) \<Rightarrow>
          serve_requests (\<lambda>i. W (Suc i)) reqs
            (with_fdw (create_table_with_fds vpid (stdin_fd req) (stdout_fd req) (stderr_fd req)) v1)
            (cells(req_result req \<mapsto> vpid))
      | (Err e, v1) \<Rightarrow> serve_requests (\<lambda>i. W (Suc i)) reqs v1 (cells(req_result req \<mapsto> 0))
      | (Panic, v1) \<Rightarrow> None)"

text \<open>\<^verbatim>\<open>waiters.retain\<close>: who waits for a process that has ended gets its code and leaves.\<close>

fun check_waiters :: "sys \<Rightarrow> Waiter list \<Rightarrow> (nat \<Rightarrow> c_int option) \<Rightarrow> Waiter list \<times> (nat \<Rightarrow> c_int option)" where
  "check_waiters s [] cells = ([], cells)"
| "check_waiters s (w # ws) cells =
     (case get_exit_code (wait_vpid w) s of
        Some code \<Rightarrow> check_waiters s ws (cells(wait_result w \<mapsto> code))
      | None \<Rightarrow> (let (kept, cells') = check_waiters s ws cells in (w # kept, cells')))"

text \<open>What an iteration of the main loop leaves behind.\<close>

record turn =
  t_phase :: phase
  t_session :: Session
  t_shared :: vst
  t_spawn :: "nat \<Rightarrow> u32 option"
  t_wait :: "nat \<Rightarrow> c_int option"

definition driver_shutdown :: "Session \<Rightarrow> vst \<Rightarrow> Session \<times> vst" where
  "driver_shutdown S v =
     (let v1 = with_fdw cleanup (with_rt reap_done_coroutines (enter S v))
      in (S\<lparr>executor := ex (vsys v1)\<rparr>, v1))"

definition driver_turn ::
  "(nat \<Rightarrow> vworld) \<Rightarrow> (c_int \<Rightarrow> c_int \<Rightarrow> bool) \<Rightarrow> (handle \<Rightarrow> sys \<Rightarrow> sys \<times> bool) \<Rightarrow>
   Session \<Rightarrow> vst \<Rightarrow> (nat \<Rightarrow> u32 option) \<Rightarrow> (nat \<Rightarrow> c_int option) \<Rightarrow> turn option" where
  "driver_turn W ok3 run S v sc wc =
     Option.bind (serve_requests W (spawn_queue S) (enter S v) sc) (\<lambda>(v1, sc1).
     Option.bind (step_from_driver_with_fd_swap ok3 (saved_fds S) run (vsys v1)) (\<lambda>s2.
       let (ws, wc1) = check_waiters s2 (waiters S) wc;
           s3 = reap_done_coroutines s2;
           (pollfds, pid_map) = collect_io_waits s3
       in Some \<lparr>t_phase = (if pollfds = [] then Deciding else Polling pollfds pid_map),
                t_session = S\<lparr>executor := ex s3, spawn_queue := [], waiters := ws\<rparr>,
                t_shared = with_rt (\<lambda>_. s3) v1, t_spawn = sc1, t_wait = wc1\<rparr>))"

definition driver_iterate ::
  "(nat \<Rightarrow> vworld) \<Rightarrow> (c_int \<Rightarrow> c_int \<Rightarrow> bool) \<Rightarrow> (handle \<Rightarrow> sys \<Rightarrow> sys \<times> bool) \<Rightarrow> nat \<Rightarrow> Session \<Rightarrow> host \<Rightarrow> host option" where
  "driver_iterate W ok3 run i S h =
     (if shutdown S
      then (let (S1, v) = driver_shutdown S (shared h)
            in Some (put_phase i Ended (put_session i S1 (h\<lparr>shared := v\<rparr>))))
      else map_option (\<lambda>t. put_phase i (t_phase t) (put_session i (t_session t)
               (h\<lparr>shared := t_shared t, spawn_cells := t_spawn t, wait_cells := t_wait t\<rparr>)))
             (driver_turn W ok3 run S (shared h) (spawn_cells h) (wait_cells h)))"

text \<open>After \<^verbatim>\<open>poll\<close>: an error leaves the processes waiting, a timeout is treated as an answer.\<close>

definition driver_wake ::
  "libc \<Rightarrow> nat \<Rightarrow> pollfd list \<Rightarrow> VPid list \<Rightarrow> Session \<Rightarrow> vst \<Rightarrow> (Session \<times> vst) option" where
  "driver_wake L now pollfds pid_map S v =
     (let (ready, answered) = l_poll L pollfds 50; v1 = enter S v
      in if 0 \<le> sint ready
         then map_option (\<lambda>s. (S\<lparr>executor := ex s\<rparr>, with_rt (\<lambda>_. s) v1)) (wake_io_ready answered pid_map now (vsys v1))
         else Some (S, v1))"

text \<open>The test of the inner loop: whether the driver goes to sleep.\<close>

definition has_ready :: "Executor \<Rightarrow> bool" where
  "has_ready e = (\<not> list_all (\<lambda>(pid, c). is_done c \<or> io_wait c \<noteq> None) (vprocs e))"

definition has_work :: "Session \<Rightarrow> bool" where
  "has_work S = (spawn_queue S \<noteq> [] \<or> waiters S \<noteq> [] \<or> has_ready (executor S))"

definition driver_decide :: "Session \<Rightarrow> phase" where
  "driver_decide S = (if has_work S \<or> shutdown S then Iterate else Sleeping)"

text \<open>One step of the driver of session object \<open>i\<close>; a sleeping or finished driver does nothing by itself.\<close>

record env =
  e_world :: "nat \<Rightarrow> vworld"
  e_dup3 :: "c_int \<Rightarrow> c_int \<Rightarrow> bool"
  e_run :: "handle \<Rightarrow> sys \<Rightarrow> sys \<times> bool"
  e_libc :: libc
  e_now :: nat

definition run_session_driver :: "env \<Rightarrow> nat \<Rightarrow> host \<Rightarrow> host option" where
  "run_session_driver E i h =
     Option.bind (objs h i) (\<lambda>S.
     Option.bind (drivers h i) (\<lambda>ph.
       case ph of
         Starting \<Rightarrow> Some (put_phase i Iterate (put_session i (driver_start (l_dup (e_libc E)) S) h))
       | Iterate \<Rightarrow> driver_iterate (e_world E) (e_dup3 E) (e_run E) i S h
       | Polling pollfds pid_map \<Rightarrow>
           map_option (\<lambda>(S1, v). put_phase i Deciding (put_session i S1 (h\<lparr>shared := v\<rparr>)))
             (driver_wake (e_libc E) (e_now E) pollfds pid_map S (shared h))
       | Deciding \<Rightarrow> Some (put_phase i (driver_decide S) h)
       | Sleeping \<Rightarrow> Some h
       | Ended \<Rightarrow> Some h))"

section \<open>Creating a process\<close>

datatype create_pc = CLookup | CTryLock nat nat | CPush nat | CNotify nat | CAwait nat | CDone u32

text \<open>
  \<open>free\<close> tells whether the mutex the step asks for is free: that of the session table, of the session,
  which its driver holds while it runs a coroutine, of the request queue or of the result cell.
  \<^verbatim>\<open>lock\<close> waits for it, so that the call makes no progress; \<^verbatim>\<open>try_lock\<close> gives up at once and is
  repeated a hundred times.
\<close>

fun create_step :: "bool \<Rightarrow> u32 \<Rightarrow> SpawnRequest \<Rightarrow> create_pc \<Rightarrow> host \<Rightarrow> create_pc \<times> host" where
  "create_step free session_id req CLookup h =
     (if \<not> free then (CLookup, h)
      else (case hm_get (SESSIONS h) session_id of None \<Rightarrow> (CDone 0, h) | Some i \<Rightarrow> (CTryLock i 0, h)))"
| "create_step free session_id req (CTryLock i n) h =
     (if free then (CPush i, h) else if Suc n < 100 then (CTryLock i (Suc n), h) else (CDone 0, h))"
| "create_step free session_id req (CPush i) h =
     (if \<not> free then (CPush i, h)
      else (CNotify i, h\<lparr>objs := (objs h)(i := map_option (\<lambda>S. S\<lparr>spawn_queue := spawn_queue S @ [req]\<rparr>) (objs h i))\<rparr>))"
| "create_step free session_id req (CNotify i) h =
     (if \<not> free then (CNotify i, h) else (CAwait 0, notify_all i h))"
| "create_step free session_id req (CAwait attempts) h =
     (if \<not> free then (CAwait attempts, h)
      else (case spawn_cells h (req_result req) of
              Some vpid \<Rightarrow> (CDone vpid, h)
            | None \<Rightarrow> if 1000 < Suc attempts then (CDone 0, h) else (CAwait (Suc attempts), h)))"
| "create_step free session_id req (CDone vpid) h = (CDone vpid, h)"

definition fresh_cell :: "host \<Rightarrow> nat \<times> host" where
  "fresh_cell h = (next_cell h, h\<lparr>next_cell := Suc (next_cell h),
     spawn_cells := (spawn_cells h)(next_cell h := None), wait_cells := (wait_cells h)(next_cell h := None)\<rparr>)"

text \<open>
  The first \<open>n\<close> steps of a call from its \<open>k\<close>-th step on, with what the other threads do before each
  of them and whether it finds the mutex free.
\<close>

fun create_run ::
  "(nat \<Rightarrow> host \<Rightarrow> host) \<Rightarrow> (nat \<Rightarrow> bool) \<Rightarrow> u32 \<Rightarrow> SpawnRequest \<Rightarrow> nat \<Rightarrow> nat \<Rightarrow> create_pc \<Rightarrow> host \<Rightarrow> create_pc \<times> host" where
  "create_run others free session_id req 0 k pc h = (pc, h)"
| "create_run others free session_id req (Suc n) k pc h =
     (case pc of
        CDone vpid \<Rightarrow> (CDone vpid, h)
      | _ \<Rightarrow> (let (pc', h') = create_step (free k) session_id req pc (others k h)
              in create_run others free session_id req n (Suc k) pc' h'))"

definition vproc_ffi_create_process ::
  "nat \<Rightarrow> (nat \<Rightarrow> host \<Rightarrow> host) \<Rightarrow> (nat \<Rightarrow> bool) \<Rightarrow> u32 \<Rightarrow> rstr \<Rightarrow> rstr list option \<Rightarrow> rstr list option \<Rightarrow>
   c_int \<Rightarrow> c_int \<Rightarrow> c_int \<Rightarrow> host \<Rightarrow> create_pc \<times> host" where
  "vproc_ffi_create_process n others free session_id path argv envp i o' e h =
     (let (cell, h1) = fresh_cell h;
          req = \<lparr>req_path = utf8_lossy path, req_argv = c_array_to_vec argv, req_envp = c_array_to_vec envp,
                 stdin_fd = i, stdout_fd = o', stderr_fd = e, req_result = cell\<rparr>
      in create_run others free session_id req n 0 CLookup h1)"

definition vproc_ffi_create_process_default ::
  "bool \<Rightarrow> nat \<Rightarrow> (nat \<Rightarrow> host \<Rightarrow> host) \<Rightarrow> (nat \<Rightarrow> bool) \<Rightarrow> rstr \<Rightarrow> rstr list option \<Rightarrow> rstr list option \<Rightarrow>
   c_int \<Rightarrow> c_int \<Rightarrow> c_int \<Rightarrow> host \<Rightarrow> (create_pc \<times> host) option" where
  "vproc_ffi_create_process_default thread_ok n others free path argv envp i o' e h =
     map_option (\<lambda>(sid, h1). vproc_ffi_create_process n others free sid path argv envp i o' e h1)
       (ensure_default_session thread_ok h)"

section \<open>Waiting for a process\<close>

datatype wait_pc = WLookup | WCheck nat | WRecheck nat | WAwait nat | WDone c_int

definition known_code :: "u32 \<Rightarrow> Executor \<Rightarrow> c_int option" where
  "known_code vpid e =
     (case hm_get (exit_codes e) vpid of
        Some code \<Rightarrow> Some code
      | None \<Rightarrow> Option.bind (hm_get (vprocs e) vpid) (\<lambda>co. if is_done co then Some (exit_code co) else None))"

definition code_in :: "nat \<Rightarrow> u32 \<Rightarrow> host \<Rightarrow> c_int option" where
  "code_in i vpid h = Option.bind (objs h i) (\<lambda>S. known_code vpid (executor S))"

definition push_waiter :: "nat \<Rightarrow> Waiter \<Rightarrow> host \<Rightarrow> host" where
  "push_waiter i w h = h\<lparr>objs := (objs h)(i := map_option (\<lambda>S. S\<lparr>waiters := waiters S @ [w]\<rparr>) (objs h i))\<rparr>"

text \<open>All locks of this call are blocking ones; \<open>free\<close> is as for \<^const>\<open>create_step\<close>.\<close>

fun wait_step :: "bool \<Rightarrow> u32 \<Rightarrow> u32 \<Rightarrow> nat \<Rightarrow> wait_pc \<Rightarrow> host \<Rightarrow> wait_pc \<times> host" where
  "wait_step free session_id vpid cell WLookup h =
     (if \<not> free then (WLookup, h)
      else (case hm_get (SESSIONS h) session_id of None \<Rightarrow> (WDone (- 1), h) | Some i \<Rightarrow> (WCheck i, h)))"
| "wait_step free session_id vpid cell (WCheck i) h =
     (if \<not> free then (WCheck i, h)
      else (case code_in i vpid h of Some code \<Rightarrow> (WDone code, h) | None \<Rightarrow> (WRecheck i, h)))"
| "wait_step free session_id vpid cell (WRecheck i) h =
     (if \<not> free then (WRecheck i, h)
      else (case code_in i vpid h of
              Some code \<Rightarrow> (WDone code, h)
            | None \<Rightarrow> (WAwait 0, notify_all i (push_waiter i \<lparr>wait_vpid = vpid, wait_result = cell\<rparr> h))))"
| "wait_step free session_id vpid cell (WAwait n) h =
     (if n < 30000
      then (if \<not> free then (WAwait n, h)
            else (case wait_cells h cell of Some code \<Rightarrow> (WDone code, h) | None \<Rightarrow> (WAwait (Suc n), h)))
      else (WDone (- 1), h))"
| "wait_step free session_id vpid cell (WDone code) h = (WDone code, h)"

fun wait_run ::
  "(nat \<Rightarrow> host \<Rightarrow> host) \<Rightarrow> (nat \<Rightarrow> bool) \<Rightarrow> u32 \<Rightarrow> u32 \<Rightarrow> nat \<Rightarrow> nat \<Rightarrow> nat \<Rightarrow> wait_pc \<Rightarrow> host \<Rightarrow> wait_pc \<times> host" where
  "wait_run others free session_id vpid cell 0 k pc h = (pc, h)"
| "wait_run others free session_id vpid cell (Suc n) k pc h =
     (case pc of
        WDone code \<Rightarrow> (WDone code, h)
      | _ \<Rightarrow> (let (pc', h') = wait_step (free k) session_id vpid cell pc (others k h)
              in wait_run others free session_id vpid cell n (Suc k) pc' h'))"

definition vproc_ffi_run_until_exit ::
  "nat \<Rightarrow> (nat \<Rightarrow> host \<Rightarrow> host) \<Rightarrow> (nat \<Rightarrow> bool) \<Rightarrow> u32 \<Rightarrow> u32 \<Rightarrow> host \<Rightarrow> wait_pc \<times> host" where
  "vproc_ffi_run_until_exit n others free session_id vpid h =
     (let (cell, h1) = fresh_cell h in wait_run others free session_id vpid cell n 0 WLookup h1)"

definition vproc_ffi_run_until_exit_default ::
  "bool \<Rightarrow> nat \<Rightarrow> (nat \<Rightarrow> host \<Rightarrow> host) \<Rightarrow> (nat \<Rightarrow> bool) \<Rightarrow> u32 \<Rightarrow> host \<Rightarrow> (wait_pc \<times> host) option" where
  "vproc_ffi_run_until_exit_default thread_ok n others free vpid h =
     map_option (\<lambda>(sid, h1). vproc_ffi_run_until_exit n others free sid vpid h1) (ensure_default_session thread_ok h)"

section \<open>Queries\<close>

definition vproc_ffi_vpid_exists :: "u32 \<Rightarrow> u32 \<Rightarrow> host \<Rightarrow> c_int" where
  "vproc_ffi_vpid_exists session_id vpid h =
     (case Option.bind (hm_get (SESSIONS h) session_id) (objs h) of
        Some S \<Rightarrow>
          if hm_contains (vprocs (executor S)) vpid \<or> hm_contains (exit_codes (executor S)) vpid then 1 else 0
      | None \<Rightarrow> 0)"

definition vproc_ffi_vpid_exists_default :: "bool \<Rightarrow> u32 \<Rightarrow> host \<Rightarrow> (c_int \<times> host) option" where
  "vproc_ffi_vpid_exists_default thread_ok vpid h =
     map_option (\<lambda>(sid, h1). (vproc_ffi_vpid_exists sid vpid h1, h1)) (ensure_default_session thread_ok h)"

text \<open>The probe: fifty looks at the result of the new session's driver.\<close>

fun probe_loop :: "(nat \<Rightarrow> host \<Rightarrow> host) \<Rightarrow> nat \<Rightarrow> nat \<Rightarrow> nat \<Rightarrow> host \<Rightarrow> c_int \<times> host" where
  "probe_loop others i 0 k h = (- 1, h)"
| "probe_loop others i (Suc n) k h =
     (let h1 = others k h
      in case Option.bind (objs h1 i) probe_result of
           Some r \<Rightarrow> (r, h1)
         | None \<Rightarrow> probe_loop others i n (Suc k) h1)"

definition vproc_ffi_probe :: "bool \<Rightarrow> (nat \<Rightarrow> host \<Rightarrow> host) \<Rightarrow> host \<Rightarrow> (c_int \<times> host) option" where
  "vproc_ffi_probe thread_ok others h =
     map_option (\<lambda>(sid, h1).
       if sid = 0 then (- 1, h1)
       else (case hm_get (SESSIONS h1) sid of
               None \<Rightarrow> (- 1, h1)
             | Some i \<Rightarrow> probe_loop others i 50 0 h1))
       (vproc_ffi_create_session thread_ok h)"

definition vproc_ffi_version :: "u8 list" where
  "vproc_ffi_version = [48, 46, 52, 46, 53, 0]"

end
