(* ===== verification/Vexec_Mem_Laws.thy ===== *)
theory Vexec_Mem_Laws
  imports Vexec_Mem
begin

unbundle bit_operations_syntax

text \<open>
  Properties of the memory operations of \<^verbatim>\<open>src/src/vexec.rs\<close>: the stack has its guard, a
  snapshot restores exactly the writable segments, the decoder of the start code is right
  exactly for targets within 2 GiB, and what patching leaves behind.
\<close>

section \<open>Reading and mapping\<close>

lemma peek_spec:
  "peek a x n = Some bs \<Longrightarrow> length bs = n \<and> (\<forall>i < n. mbyte a (x + of_nat i) = Some (bs ! i))"
proof (induction n arbitrary: x bs)
  case (Suc n)
  then obtain cs where cs: "peek a (x + 1) n = Some cs" "bs = the (mbyte a x) # cs" "readable a x"
    by (auto split: if_splits)
  have IH: "length cs = n" "\<forall>i < n. mbyte a (x + 1 + of_nat i) = Some (cs ! i)" using Suc.IH [OF cs(1)] by auto
  have "mbyte a (x + of_nat i) = Some (bs ! i)" if "i < Suc n" for i
  proof (cases i)
    case 0
    then show ?thesis using cs by (auto simp: readable_def)
  next
    case (Suc j)
    then show ?thesis using IH(2) cs(2) that by (simp add: add.assoc)
  qed
  then show ?case using IH(1) cs(2) by simp
qed simp

lemma in_range_offset: "in_range addr sz x \<longleftrightarrow> (\<exists>i < unat sz. x = addr + of_nat i)"
proof
  assume "in_range addr sz x"
  moreover have "x = addr + of_nat (unat (x - addr))" by simp
  ultimately show "\<exists>i < unat sz. x = addr + of_nat i" unfolding in_range_def by blast
next
  assume "\<exists>i < unat sz. x = addr + of_nat i"
  then obtain i where i: "i < unat sz" "x = addr + of_nat i" by blast
  then have "unat (of_nat i :: usize) \<le> i" by (simp add: unat_of_nat)
  then show "in_range addr sz x" using i by (simp add: in_range_def)
qed

lemma mprotect_grant [simp]:
  "mprotect_ok k addr sz \<Longrightarrow> mprotect_mte_aware k addr sz prot a =
     Some (a\<lparr>mprot := (\<lambda>x. if in_range addr sz x then prot else mprot a x)\<rparr>)"
  by (simp add: mprotect_mte_aware_def mprotect_def)

lemma try_mprotect_mbyte [simp]: "mbyte (try_mprotect k addr sz prot a) = mbyte a"
  by (simp add: try_mprotect_def mprotect_mte_aware_def mprotect_def)

lemma try_mprotect_grant:
  "mprotect_ok k addr sz \<Longrightarrow> mprot (try_mprotect k addr sz prot a) = (\<lambda>x. if in_range addr sz x then prot else mprot a x)"
  by (simp add: try_mprotect_def)

lemma unat_sub_wrap: "unat y < unat p \<Longrightarrow> unat (y - p) = unat y + 2 ^ 64 - unat p" for y p :: usize
  by (simp add: unat_sub_if_size word_size)

section \<open>Stacks\<close>

text \<open>
  C31. A program stack is guarded and is given back whole: the allocated stack consists of
  zeroed bytes that can be written, every byte of the page below it is inaccessible, so
  that an overflow faults, nothing outside is touched, and freeing the stack returns
  exactly the memory that was mapped for it.
\<close>

theorem elf_stack_guarded:
  assumes "alloc_elf_stack k page (Some bs) sz a = (Some st, a')"
    and "unat page + unat sz < 2 ^ 64" and "range_free bs (page + sz) a"
  shows "st = bs + page \<and> (in_range st sz x \<longrightarrow> writable a' x \<and> mbyte a' x = Some 0) \<and>
    (in_range bs page x \<longrightarrow> \<not> readable a' x \<and> \<not> writable a' x) \<and>
    (\<not> in_range bs (page + sz) x \<longrightarrow> mbyte a' x = mbyte a x \<and> mprot a' x = mprot a x) \<and>
    mbyte (free_elf_stack page st sz a') x = mbyte a x"
proof -
  let ?t = "page + sz"
  have tot: "unat ?t = unat page + unat sz" using assms(2) by (simp add: unat_word_ariths)
  have st: "st = bs + page" and ok: "?t \<noteq> 0" "mmap_ok k bs ?t" "sz \<noteq> 0" "mmap_ok k st sz"
    using assms(1) by (auto simp: alloc_elf_stack_def Let_def mmap_fixed_def split: if_splits)
  have mb: "mbyte a' y = (if in_range st sz y \<or> in_range bs ?t y then Some 0 else mbyte a y)"
    and mp: "mprot a' y = (if in_range st sz y then 3 else if in_range bs ?t y then 0 else mprot a y)" for y
    using assms(1) st ok by (auto simp: alloc_elf_stack_def Let_def mmap_fixed_def)
  have outer: "in_range bs ?t x" if "in_range bs page x"
    using that tot by (simp add: in_range_def)
  have inner: "in_range bs ?t x" if r: "in_range st sz x"
  proof -
    obtain i where i: "i < unat sz" "x = st + of_nat i" using r by (auto simp: in_range_offset)
    then have "x = bs + of_nat (unat page + i)" by (simp add: st add.assoc)
    then show ?thesis using i(1) tot by (metis in_range_offset add_less_cancel_left)
  qed
  have apart: "\<not> in_range st sz x" if "in_range bs page x"
  proof -
    have "x - st = (x - bs) - page" by (simp add: st)
    moreover have "unat (x - bs) < unat page" using that by (simp add: in_range_def)
    ultimately have "unat (x - st) = unat (x - bs) + 2 ^ 64 - unat page" using unat_sub_wrap by metis
    then show ?thesis using that assms(2) by (simp add: in_range_def)
  qed
  have "mbyte a x = None" if "in_range bs ?t x"
    using that assms(3) by (auto simp: range_free_def list_all_iff in_range_offset)
  then show ?thesis
    using st inner apart outer
    by (auto simp: mb mp writable_def readable_def free_elf_stack_def munmap_def)
qed

theorem elf_stack_guarded_witness:
  "\<exists>a'. alloc_elf_stack kernel_yes 4096 (Some 0x10000) 8192 aspace_init = (Some 0x11000, a') \<and>
    writable a' 0x11000 \<and> \<not> writable a' 0x10fff \<and>
    mbyte (free_elf_stack 4096 0x11000 8192 a') 0x11000 = None"
proof -
  obtain st a' where al: "alloc_elf_stack kernel_yes 4096 (Some 0x10000) 8192 aspace_init = (Some st, a')"
    by (auto simp: alloc_elf_stack_def mmap_fixed_def kernel_yes_def)
  have free: "range_free 0x10000 (4096 + 8192) aspace_init"
    by (simp add: range_free_def aspace_init_def list_all_iff)
  show ?thesis
    using al elf_stack_guarded [OF al _ free, of "0x11000"] elf_stack_guarded [OF al _ free, of "0x10fff"]
    by (auto simp: in_range_def aspace_init_def)
qed

section \<open>Snapshots\<close>

definition in_seg :: "WritableSegment \<Rightarrow> usize \<Rightarrow> bool" where
  "in_seg seg x \<longleftrightarrow> unat (x - ws_addr seg) < length (ws_data seg)"

text \<open>A segment whose pages do not wrap around the end of the address space.\<close>

definition seg_fits :: "WritableSegment \<Rightarrow> bool" where
  "seg_fits seg \<longleftrightarrow> unat (ws_addr seg) + length (ws_data seg) + 4096 \<le> 2 ^ 64"

lemma page_not_fff: "x AND NOT 0xfff = page_align_down x" for x :: usize
  by (simp add: page_align_down_def PAGE_SIZE_def)

lemma seg_pages:
  assumes "seg_fits seg" and "in_seg seg x"
  shows "in_range (ws_addr seg AND NOT 0xfff)
    (((ws_addr seg + of_nat (length (ws_data seg)) + 0xfff) AND NOT 0xfff) - (ws_addr seg AND NOT 0xfff)) x"
proof -
  let ?A = "unat (ws_addr seg)" and ?n = "length (ws_data seg)"
  let ?lo = "page_align_down (ws_addr seg)" and ?up = "page_align_down (ws_addr seg + of_nat ?n + 0xfff)"
  have fits: "?A + ?n + 4096 \<le> 2 ^ 64" using assms(1) by (simp add: seg_fits_def)
  have up: "unat (ws_addr seg + of_nat ?n + 0xfff) = ?A + ?n + 4095"
    using fits by (simp add: unat_word_ariths unat_of_nat)
  have d: "unat ?lo \<le> ?A" "?A < unat ?lo + 4096" using page_down_le [of "ws_addr seg"] by auto
  have u: "?A + ?n + 4095 < unat ?up + 4096" using page_down_le(2) [of "ws_addr seg + of_nat ?n + 0xfff"] up by simp
  define d where "d = x - ws_addr seg"
  have dn: "unat d < ?n" using assms(2) by (simp add: in_seg_def d_def)
  then have "unat (ws_addr seg + d) = ?A + unat d" using fits by (simp add: unat_word_ariths)
  moreover have "x = ws_addr seg + d" by (simp add: d_def)
  ultimately have x: "unat x = ?A + unat d" by simp
  have "unat ?lo \<le> unat x" "unat x < unat ?up" using d u x dn by linarith+
  then show ?thesis unfolding page_not_fff in_range_def by (simp add: unat_sub_if_size)
qed

lemma restore_one_effect:
  assumes "\<forall>addr sz. mprotect_ok k addr sz" and "seg_fits seg" and "\<forall>x. in_seg seg x \<longrightarrow> mbyte a x \<noteq> None"
  shows "\<exists>a'. restore_one k seg a = Some a' \<and>
    mbyte a' = (\<lambda>x. if in_seg seg x then Some (ws_data seg ! unat (x - ws_addr seg)) else mbyte a x)"
proof (cases "ws_data seg = []")
  case True
  then show ?thesis by (auto simp: restore_one_def in_seg_def)
next
  case False
  let ?n = "length (ws_data seg)" and ?lo = "ws_addr seg AND NOT 0xfff"
  let ?sz = "((ws_addr seg + of_nat ?n + 0xfff) AND NOT 0xfff) - ?lo"
  define a1 where "a1 = a\<lparr>mprot := (\<lambda>x. if in_range ?lo ?sz x then PROT_READ OR PROT_WRITE else mprot a x)\<rparr>"
  have "mbyte a1 = mbyte a" by (simp add: a1_def)
  have grant: "mprotect_mte_aware k ?lo ?sz (PROT_READ OR PROT_WRITE) a = Some a1"
    using assms(1) by (simp add: mprotect_mte_aware_def mprotect_def a1_def del: PROT_READ_def PROT_WRITE_def)
  have small: "?n < 2 ^ 64" using assms(2) by (simp add: seg_fits_def)
  then have nz: "(of_nat ?n :: usize) \<noteq> 0" using False by (simp add: of_nat_eq_0_iff take_bit_nat_eq_self word_of_nat_eq_0_iff nat_dvd_not_less)
  have "in_seg seg (ws_addr seg + of_nat i)" if "i < ?n" for i
    using that small by (simp add: in_seg_def unat_of_nat)
  then have "\<forall>i < ?n. writable a1 (ws_addr seg + of_nat i)"
    using assms(3) seg_pages [OF assms(2)] by (simp add: writable_def a1_def)
  then obtain a2 where a2: "copy_bytes (ws_addr seg) (ws_data seg) a1 = Some a2" using copy_bytes_total by blast
  then have "mbyte a2 = (\<lambda>x. if in_seg seg x then Some (ws_data seg ! unat (x - ws_addr seg)) else mbyte a x)"
    using copy_bytes_effect [OF a2 small] \<open>mbyte a1 = mbyte a\<close> by (simp add: in_seg_def fun_eq_iff)
  moreover have "restore_one k seg a = Some (try_mprotect k ?lo ?sz (restore_prot (orig_flags seg)) a2)"
    using nz a2 grant by (simp add: restore_one_def Let_def del: PROT_READ_def PROT_WRITE_def)
  ultimately show ?thesis by simp
qed

lemma restore_segments_effect:
  assumes "\<forall>addr sz. mprotect_ok k addr sz" and "\<forall>seg \<in> set segs. seg_fits seg"
    and "\<forall>seg \<in> set segs. \<forall>x. in_seg seg x \<longrightarrow> m x = Some (ws_data seg ! unat (x - ws_addr seg))"
    and "\<forall>x. m x \<noteq> None \<longrightarrow> mbyte a x \<noteq> None"
  shows "\<exists>a'. restore_writable_segments k segs a = Some a' \<and>
    mbyte a' = (\<lambda>x. if \<exists>seg \<in> set segs. in_seg seg x then m x else mbyte a x)"
  using assms
proof (induction segs arbitrary: a)
  case (Cons seg segs)
  obtain a1 where a1: "restore_one k seg a = Some a1"
    "mbyte a1 = (\<lambda>x. if in_seg seg x then Some (ws_data seg ! unat (x - ws_addr seg)) else mbyte a x)"
    using restore_one_effect [of k seg a] Cons.prems by auto
  then have m1: "mbyte a1 x = (if in_seg seg x then m x else mbyte a x)" for x using Cons.prems(3) by simp
  then have "\<forall>x. m x \<noteq> None \<longrightarrow> mbyte a1 x \<noteq> None" using Cons.prems(4) by simp
  then obtain a2 where "restore_writable_segments k segs a1 = Some a2"
    "mbyte a2 = (\<lambda>x. if \<exists>seg \<in> set segs. in_seg seg x then m x else mbyte a1 x)"
    using Cons.IH [of a1] Cons.prems(1-3) by auto
  then show ?case using a1(1) m1 by auto
qed simp

definition in_writable :: "usize \<Rightarrow> Phdr list \<Rightarrow> usize \<Rightarrow> bool" where
  "in_writable bs phdrs x \<longleftrightarrow> (\<exists>p \<in> set phdrs. p_type p = PT_LOAD \<and> p_flags p AND PF_W \<noteq> 0 \<and>
     in_range (bs + p_vaddr p) (p_memsz p) x)"

text \<open>What a segment of a snapshot says about the memory it was taken from.\<close>

definition seg_of :: "usize \<Rightarrow> Phdr list \<Rightarrow> aspace \<Rightarrow> WritableSegment \<Rightarrow> bool" where
  "seg_of bs phdrs a seg \<longleftrightarrow>
     (\<exists>p \<in> set phdrs. p_type p = PT_LOAD \<and> p_flags p AND PF_W \<noteq> 0 \<and> ws_addr seg = bs + p_vaddr p \<and>
        length (ws_data seg) = unat (p_memsz p)) \<and>
     (\<forall>x. in_seg seg x \<longrightarrow> mbyte a x = Some (ws_data seg ! unat (x - ws_addr seg)))"

lemma peek_segment:
  assumes "peek a y n = Some bs" and "unat (x - y) < n"
  shows "mbyte a x = Some (bs ! unat (x - y))"
proof -
  have "mbyte a (y + of_nat (unat (x - y))) = Some (bs ! unat (x - y))"
    using peek_spec [OF assms(1)] assms(2) by blast
  then show ?thesis by simp
qed

lemma save_segments_of:
  "save_writable_segments bs phdrs a = Some segs \<Longrightarrow> \<forall>seg \<in> set segs. seg_of bs phdrs a seg"
proof (induction phdrs arbitrary: segs)
  case (Cons p phdrs)
  have weaken: "seg_of bs (p # phdrs) a seg" if "seg_of bs phdrs a seg" for seg
    using that by (auto simp: seg_of_def)
  show ?case
  proof (cases "p_type p \<noteq> PT_LOAD \<or> p_flags p AND PF_W = 0 \<or> p_memsz p = 0")
    case True
    then have "save_writable_segments bs phdrs a = Some segs" using Cons.prems by simp
    then show ?thesis using Cons.IH weaken by blast
  next
    case False
    then obtain slice segs' where sl: "peek a (bs + p_vaddr p) (unat (p_memsz p)) = Some slice"
      "save_writable_segments bs phdrs a = Some segs'"
      "segs = \<lparr>ws_addr = bs + p_vaddr p, ws_data = slice, orig_flags = p_flags p\<rparr> # segs'"
      using Cons.prems by (auto simp: bind_eq_Some_conv)
    have "length slice = unat (p_memsz p)" using peek_spec [OF sl(1)] by simp
    then have "seg_of bs (p # phdrs) a \<lparr>ws_addr = bs + p_vaddr p, ws_data = slice, orig_flags = p_flags p\<rparr>"
      using False peek_segment [OF sl(1)] by (simp add: seg_of_def in_seg_def)
    then show ?thesis using Cons.IH [OF sl(2)] weaken sl(3) by simp
  qed
qed simp

lemma save_segments_cover:
  "save_writable_segments bs phdrs a = Some segs \<Longrightarrow> in_writable bs phdrs x \<Longrightarrow> \<exists>seg \<in> set segs. in_seg seg x"
proof (induction phdrs arbitrary: segs)
  case (Cons p phdrs)
  show ?case
  proof (cases "p_type p \<noteq> PT_LOAD \<or> p_flags p AND PF_W = 0 \<or> p_memsz p = 0")
    case True
    then have "save_writable_segments bs phdrs a = Some segs" "in_writable bs phdrs x"
      using Cons.prems by (auto simp: in_writable_def in_range_def)
    then show ?thesis by (rule Cons.IH)
  next
    case False
    then obtain slice segs' where sl: "peek a (bs + p_vaddr p) (unat (p_memsz p)) = Some slice"
      "save_writable_segments bs phdrs a = Some segs'"
      "segs = \<lparr>ws_addr = bs + p_vaddr p, ws_data = slice, orig_flags = p_flags p\<rparr> # segs'"
      using Cons.prems(1) by (auto simp: bind_eq_Some_conv)
    have len: "length slice = unat (p_memsz p)" using peek_spec [OF sl(1)] by simp
    show ?thesis
    proof (cases "in_range (bs + p_vaddr p) (p_memsz p) x")
      case True
      then show ?thesis using sl(3) len by (simp add: in_seg_def in_range_def)
    next
      case False
      then have "in_writable bs phdrs x" using Cons.prems(2) by (auto simp: in_writable_def)
      then show ?thesis using Cons.IH [OF sl(2)] sl(3) by simp
    qed
  qed
qed (simp add: in_writable_def)

text \<open>
  C30. Restoring a snapshot undoes what a program did to its data: from any later memory with
  at least the same mappings, restoring succeeds and gives every byte of the writable load
  segments the value it had when the snapshot was taken, also where segments overlap, and
  leaves every other byte alone. The kernel grants the changes of protection.
\<close>

theorem snapshot_roundtrip:
  assumes "save_writable_segments bs phdrs a = Some segs"
    and "\<forall>p \<in> set phdrs. unat (bs + p_vaddr p) + unat (p_memsz p) + 4096 \<le> 2 ^ 64"
    and "\<forall>addr sz. mprotect_ok k addr sz" and "\<forall>x. mbyte a x \<noteq> None \<longrightarrow> mbyte a' x \<noteq> None"
  shows "\<exists>r. restore_writable_segments k segs a' = Some r \<and>
    mbyte r = (\<lambda>x. if in_writable bs phdrs x then mbyte a x else mbyte a' x)"
proof -
  note seg = save_segments_of [OF assms(1)]
  have "\<forall>seg \<in> set segs. seg_fits seg" using seg assms(2) by (fastforce simp: seg_of_def seg_fits_def)
  moreover have "\<forall>seg \<in> set segs. \<forall>x. in_seg seg x \<longrightarrow> mbyte a x = Some (ws_data seg ! unat (x - ws_addr seg))"
    using seg by (simp add: seg_of_def)
  ultimately obtain r where r: "restore_writable_segments k segs a' = Some r"
    "mbyte r = (\<lambda>x. if \<exists>seg \<in> set segs. in_seg seg x then mbyte a x else mbyte a' x)"
    using restore_segments_effect [OF assms(3) _ _ assms(4)] by blast
  have "in_writable bs phdrs x" if "seg \<in> set segs" "in_seg seg x" for seg x
    using seg that by (fastforce simp: seg_of_def in_writable_def in_seg_def in_range_def)
  then have "(\<exists>seg \<in> set segs. in_seg seg x) \<longleftrightarrow> in_writable bs phdrs x" for x
    using save_segments_cover [OF assms(1)] by blast
  then show ?thesis using r by simp
qed

definition data_phdr :: Phdr where
  "data_phdr = \<lparr>p_type = PT_LOAD, p_flags = PF_R OR PF_W, p_offset = 0, p_vaddr = 0, p_paddr = 0, p_filesz = 2,
     p_memsz = 2, p_align = 0x1000\<rparr>"

definition filled :: "u8 \<Rightarrow> aspace" where
  "filled b = \<lparr>mbyte = (\<lambda>x. if in_range 0x1000 4 x then Some b else None), mprot = (\<lambda>x. 3), next_base = 0\<rparr>"

lemma peek_filled: "peek (filled 5) 0x1000 2 = Some [5, 5]"
proof -
  have "readable (filled 5) 0x1000" "readable (filled 5) 0x1001"
    by (simp_all add: readable_def filled_def in_range_def)
  moreover have "mbyte (filled 5) 0x1000 = Some 5" "mbyte (filled 5) 0x1001 = Some 5"
    by (simp_all add: filled_def in_range_def)
  ultimately have "peek (filled 5) 0x1000 (Suc (Suc 0)) = Some [5, 5]" by simp
  then show ?thesis by (simp add: eval_nat_numeral)
qed

theorem snapshot_roundtrip_witness:
  "\<exists>segs r. save_writable_segments 0x1000 [data_phdr] (filled 5) = Some segs \<and>
    restore_writable_segments kernel_yes segs (filled 9) = Some r \<and>
    mbyte r 0x1001 = Some 5 \<and> mbyte r 0x1002 = Some 9"
proof -
  obtain segs where segs: "save_writable_segments 0x1000 [data_phdr] (filled 5) = Some segs"
    by (simp add: data_phdr_def peek_filled)
  have "\<forall>x. mbyte (filled 5) x \<noteq> None \<longrightarrow> mbyte (filled 9) x \<noteq> None" by (simp add: filled_def)
  then obtain r where "restore_writable_segments kernel_yes segs (filled 9) = Some r"
    "mbyte r = (\<lambda>x. if in_writable 0x1000 [data_phdr] x then mbyte (filled 5) x else mbyte (filled 9) x)"
    using snapshot_roundtrip [OF segs, of kernel_yes "filled 9"] by (auto simp: data_phdr_def kernel_yes_def)
  then show ?thesis using segs by (simp add: in_writable_def data_phdr_def filled_def in_range_def)
qed

section \<open>Decoding\<close>

text \<open>The architecture: the immediate of \<^verbatim>\<open>ADRP\<close> has 21 bits with sign and counts pages.\<close>

definition adrp_target :: "usize \<Rightarrow> u32 \<Rightarrow> usize" where
  "adrp_target pc insn = (pc AND NOT 0xFFF) + push_bit 12 (scast (signed_take_bit 20 (adrp_imm insn)))"

lemma shift_extends: "signed_drop_bit 12 (push_bit 12 w) = signed_take_bit 19 w" for w :: c_int
proof (rule bit_word_eqI)
  fix n assume "n < LENGTH(32)"
  then show "bit (signed_drop_bit 12 (push_bit 12 w)) n = bit (signed_take_bit 19 w) n"
    by (cases "n \<le> 18"; cases "n = 19") (auto simp: bit_simps min_def)
qed

lemma push_scast_inj:
  fixes v w :: c_int
  assumes "push_bit 12 (scast v :: u64) = push_bit 12 (scast w)"
  shows "v = w"
proof (rule bit_word_eqI)
  fix n assume n: "n < LENGTH(32)"
  have "bit (push_bit 12 (scast v :: u64)) (n + 12) = bit (push_bit 12 (scast w :: u64)) (n + 12)" using assms by simp
  then show "bit v n = bit w n" using n by (simp add: bit_simps)
qed

text \<open>
  C32. The decoder of the start code agrees with the architecture exactly for targets within
  2 GiB: \<^verbatim>\<open>decode_adrp\<close> gives the page \<^verbatim>\<open>ADRP\<close> addresses if and only if the two top bits of the
  21-bit immediate are equal, since it extends the sign from bit 19 instead of bit 20.
\<close>

theorem decode_adrp_exact:
  "decode_adrp pc insn = adrp_target pc insn \<longleftrightarrow> (bit (adrp_imm insn) 20 \<longleftrightarrow> bit (adrp_imm insn) 19)"
proof -
  let ?i = "adrp_imm insn"
  have "decode_adrp pc insn = adrp_target pc insn \<longleftrightarrow> signed_take_bit 19 ?i = signed_take_bit 20 ?i"
    using push_scast_inj [of "signed_take_bit 19 ?i" "signed_take_bit 20 ?i"]
    by (auto simp: decode_adrp_def adrp_target_def shift_extends Let_def)
  also have "\<dots> \<longleftrightarrow> (bit ?i 20 \<longleftrightarrow> bit ?i 19)"
  proof
    assume eq: "signed_take_bit 19 ?i = signed_take_bit 20 ?i"
    have "bit (signed_take_bit 19 ?i) 20 = bit (signed_take_bit 20 ?i) 20" by (simp only: eq)
    then show "bit ?i 20 \<longleftrightarrow> bit ?i 19" by (simp add: bit_simps)
  next
    assume eq: "bit ?i 20 \<longleftrightarrow> bit ?i 19"
    show "signed_take_bit 19 ?i = signed_take_bit 20 ?i"
    proof (rule bit_word_eqI)
      fix n assume "n < LENGTH(32)"
      then show "bit (signed_take_bit 19 ?i) n = bit (signed_take_bit 20 ?i) n"
        using eq by (cases "n \<le> 19"; cases "n = 20") (auto simp: bit_simps min_def)
    qed
  qed
  finally show ?thesis .
qed

section \<open>Patching\<close>

lemma fold_try_mprotect:
  assumes "\<forall>addr sz. mprotect_ok k addr sz"
  shows "mprot (fold (\<lambda>page. try_mprotect k page sz prot) pages a) x =
      (if \<exists>page \<in> set pages. in_range page sz x then prot else mprot a x)"
    and "mbyte (fold (\<lambda>page. try_mprotect k page sz prot) pages a) = mbyte a"
  using assms by (induction pages arbitrary: a) (auto simp: try_mprotect_grant)

lemma set_got_pages: "set (got_pages patches) = (\<lambda>(e, t). e AND NOT 0xfff) ` set patches"
  by (simp add: got_pages_def)

text \<open>
  Patching the global offset table leaves the data after it read-only: whenever an entry
  is patched, its page and the whole following page cannot be written afterwards, although
  the following page may hold the program's writable data.
\<close>

theorem got_patch_write_protects_next_page:
  assumes "\<forall>addr sz. mprotect_ok k addr sz" and "patch_pages k patches a = Some a'"
    and "(e, t) \<in> set patches" and "in_range (e AND NOT 0xfff) 0x2000 x"
  shows "\<not> writable a' x"
proof -
  let ?pages = "got_pages patches"
  have ne: "patches \<noteq> []" using assms(3) by auto
  obtain a2 where "a' = fold (\<lambda>page. try_mprotect k page 0x2000 PROT_READ) ?pages a2"
    using assms(2) ne by (auto simp: patch_pages_def Let_def)
  moreover have "e AND NOT 0xfff \<in> set ?pages" using assms(3) by (force simp: set_got_pages)
  ultimately have "mprot a' x = PROT_READ"
    using fold_try_mprotect(1) [OF assms(1), of "0x2000" PROT_READ ?pages a2 x] assms(4) by auto
  then show ?thesis by (simp add: writable_def)
qed

definition two_pages :: aspace where
  "two_pages = \<lparr>mbyte = (\<lambda>x. if in_range 0x1000 0x2000 x then Some 0 else None), mprot = (\<lambda>x. 3), next_base = 0\<rparr>"

theorem got_patch_write_protects_next_page_witness:
  "\<exists>a'. patch_pages kernel_yes [(0x1000, 7)] two_pages = Some a' \<and> writable two_pages 0x2800 \<and> \<not> writable a' 0x2800"
proof -
  have yes: "\<forall>addr sz. mprotect_ok kernel_yes addr sz" by (simp add: kernel_yes_def)
  define a1 where "a1 = try_mprotect kernel_yes 0x1000 0x2000 (PROT_READ OR PROT_WRITE) two_pages"
  have "in_range 0x1000 0x2000 (0x1000 + of_nat i)" if "i < 8" for i
    using that by (auto simp: in_range_offset intro!: exI [of _ i])
  then have "\<forall>i < length (put 8 7). writable a1 (0x1000 + of_nat i)"
    using yes by (simp add: writable_def a1_def try_mprotect_grant) (simp add: two_pages_def)
  then obtain a2 where "poke64 0x1000 7 a1 = Some a2" unfolding poke64_def using copy_bytes_total by blast
  then have run: "\<exists>a'. patch_pages kernel_yes [(0x1000, 7)] two_pages = Some a'"
    by (simp add: patch_pages_def got_pages_def a1_def)
  have "writable two_pages 0x2800" by (simp add: writable_def two_pages_def in_range_def)
  moreover have "\<not> writable a' 0x2800" if "patch_pages kernel_yes [(0x1000, 7)] two_pages = Some a'" for a'
    using got_patch_write_protects_next_page [OF yes that, of "0x1000" 7 "0x2800"] by (simp add: in_range_def)
  ultimately show ?thesis using run by blast
qed

end
