(* ===== verification/Elf_Stack.thy ===== *)
theory Elf_Stack
  imports Loader_Laws Coroutine
begin

text \<open>
  The start state of a loaded program: the stack image \<^verbatim>\<open>Coroutine::new_elf\<close> writes
  (\<^verbatim>\<open>src/src/coroutine.rs\<close>) and the auxiliary vector of \<^verbatim>\<open>src/src/loader.rs\<close>. The image is
  the sequence of words the ABI prescribes, it lies within the stack, and its start is
  aligned when the stack's end is.
\<close>

section \<open>Writing words\<close>

lemma write_words_append:
  "write_words sp (xs @ ys) m = (let (sp', m') = write_words sp xs m in write_words sp' ys m')"
  by (induction xs arbitrary: sp m) auto

lemma write_words_sp: "fst (write_words sp ws m) = sp + 8 * of_nat (length ws)"
  by (induction ws arbitrary: sp m) (auto simp: algebra_simps)

lemma write_auxv_words:
  "write_auxv sp as m = write_words sp (concat (map (\<lambda>(kind, val). [kind, val]) as)) m"
proof (induction as arbitrary: sp m)
  case (Cons a as)
  then show ?case by (cases a) (simp add: add.assoc fun_upd_def)
qed simp

lemma write_words_get:
  assumes "8 * length ws \<le> 2 ^ 64" and "i < length ws"
  shows "snd (write_words sp ws m) (sp + 8 * of_nat i) = Some (ws ! i)"
  using assms
proof (induction ws rule: rev_induct)
  case (snoc w ws)
  let ?n = "length ws"
  have last: "snd (write_words sp (ws @ [w]) m) =
      (snd (write_words sp ws m))(sp + 8 * of_nat ?n \<mapsto> w)"
    using write_words_sp [of sp ws m] by (simp add: write_words_append case_prod_beta Let_def)
  show ?case
  proof (cases "i = ?n")
    case False
    then have i: "i < ?n" using snoc.prems(2) by simp
    have "unat (8 * of_nat i :: usize) = 8 * i" "unat (8 * of_nat ?n :: usize) = 8 * ?n"
      using i snoc.prems(1) by (simp_all add: unat_word_ariths unat_of_nat mod_simps)
    then have "8 * of_nat i \<noteq> (8 * of_nat ?n :: usize)" using i by (metis mult_cancel1 nat_neq_iff zero_neq_numeral)
    then show ?thesis using snoc.IH snoc.prems(1) i by (simp add: last nth_append)
  qed (simp add: last)
qed simp

section \<open>The initial stack\<close>

text \<open>The words of the image, as the ABI orders them.\<close>

definition stack_words :: "usize \<Rightarrow> usize list \<Rightarrow> usize list \<Rightarrow> (u64 \<times> u64) list \<Rightarrow> u64 list" where
  "stack_words argc argv envp auxv =
     [argc] @ argv @ [0] @ envp @ [0] @ concat (map (\<lambda>(kind, val). [kind, val]) auxv)"

lemma length_flat: "length (concat (map (\<lambda>(kind, val). [kind, val]) as)) = 2 * length as"
  by (induction as) auto

lemma length_stack_words:
  "length (stack_words argc argv envp auxv) = 3 + length argv + length envp + 2 * length auxv"
  by (simp add: stack_words_def length_flat)

lemma elf_stack_eq:
  "elf_stack sb ss argc argv envp auxv m =
     (let sp = sb + ss - elf_data_size argv envp auxv
      in (sp, snd (write_words sp (stack_words argc argv envp auxv) m)))"
  by (simp add: elf_stack_def Let_def stack_words_def write_words_append write_auxv_words case_prod_beta)

lemma unat_elf_data_size:
  assumes "8 * length (stack_words argc argv envp auxv) + 15 < 2 ^ 64"
  shows "unat (elf_data_size argv envp auxv) =
    16 * ((8 * length (stack_words argc argv envp auxv) + 15) div 16)"
proof -
  let ?n = "length argv" and ?m = "length envp" and ?k = "length auxv"
  let ?x = "8 + (of_nat ?n + 1) * 8 + (of_nat ?m + 1) * 8 + of_nat ?k * 16 + 15 :: usize"
  have nat: "?x = of_nat (8 * length (stack_words argc argv envp auxv) + 15)"
    by (simp add: length_stack_words algebra_simps)
  have "(15 :: usize) = mask 4" by (simp add: mask_eq_exp_minus_1)
  then have "elf_data_size argv envp auxv = ?x AND NOT (mask 4)" by (simp only: elf_data_size_def Let_def)
  moreover have "unat ?x = 8 * length (stack_words argc argv envp auxv) + 15"
    unfolding nat using assms by (simp add: unat_of_nat del: of_nat_add of_nat_mult)
  ultimately show ?thesis by (simp add: unat_align_down)
qed

text \<open>
  The initial stack of an ELF process: from the stack pointer upwards stand the argument
  count, the arguments, a null, the environment, a null and the auxiliary vector, all
  within the given stack, and the stack pointer is 16-byte aligned when the end of the
  stack is.
\<close>

theorem elf_stack_layout:
  assumes "elf_stack sb ss argc argv envp auxv m = (sp, m')"
    and "unat sb + unat ss < 2 ^ 64"
    and "8 * length (stack_words argc argv envp auxv) + 16 \<le> unat ss"
  shows "(\<forall>i < length (stack_words argc argv envp auxv).
      m' (sp + 8 * of_nat i) = Some (stack_words argc argv envp auxv ! i)) \<and>
    unat sb \<le> unat sp \<and> unat sp + 8 * length (stack_words argc argv envp auxv) \<le> unat sb + unat ss \<and>
    (16 dvd unat sb + unat ss \<longrightarrow> 16 dvd unat sp)"
proof -
  let ?w = "stack_words argc argv envp auxv" and ?d = "elf_data_size argv envp auxv"
  have sz: "unat ?d = 16 * ((8 * length ?w + 15) div 16)" using assms(2,3) by (intro unat_elf_data_size) simp
  then have bnd: "8 * length ?w \<le> unat ?d" "unat ?d < 8 * length ?w + 16"
    using align_nat [of 16 "8 * length ?w + 15"] by simp_all
  have top: "unat (sb + ss) = unat sb + unat ss" using assms(2) by (simp add: unat_word_ariths)
  have sp: "sp = sb + ss - ?d" "m' = snd (write_words sp ?w m)"
    using assms(1) by (auto simp: elf_stack_eq Let_def)
  have usp: "unat sp = unat sb + unat ss - unat ?d"
    unfolding sp(1) using top bnd assms(3) by (subst unat_sub) (auto simp: word_le_nat_alt)
  have "m' (sp + 8 * of_nat i) = Some (?w ! i)" if "i < length ?w" for i
    unfolding sp(2) using assms(2,3) that by (intro write_words_get) simp_all
  moreover have "16 dvd unat sp" if "16 dvd unat sb + unat ss"
    unfolding usp using that sz by (intro dvd_diff_nat) simp_all
  moreover have "unat sb \<le> unat sp" "unat sp + 8 * length ?w \<le> unat sb + unat ss"
    using usp bnd assms(3) by linarith+
  ultimately show ?thesis by blast
qed

theorem elf_stack_layout_witness:
  "\<exists>sp m'. elf_stack 0x10000 0x1000 1 [0x500] [] [(6, 4096), (0, 0)] Map.empty = (sp, m') \<and>
     m' (sp + 8) = Some 0x500 \<and> 16 dvd unat sp"
proof -
  obtain sp m' where run: "elf_stack 0x10000 0x1000 1 [0x500] [] [(6, 4096), (0, 0)] Map.empty = (sp, m')"
    by fastforce
  have w: "stack_words 1 [0x500] [] [(6, 4096), (0, 0)] = [1, 0x500, 0, 0, 6, 4096, 0, 0]"
    by (simp add: stack_words_def)
  have all: "\<forall>i < length (stack_words 1 [0x500] [] [(6, 4096), (0, 0)]).
      m' (sp + 8 * of_nat i) = Some (stack_words 1 [0x500] [] [(6, 4096), (0, 0)] ! i)" "16 dvd unat sp"
    using elf_stack_layout [OF run] by (simp_all add: w)
  have "m' (sp + 8) = Some 0x500" using all(1) [rule_format, of 1] by (simp add: w)
  then show ?thesis using run all(2) by blast
qed

section \<open>The auxiliary vector\<close>

definition enc_auxv :: "(u64 \<times> u64) list \<Rightarrow> u8 list" where
  "enc_auxv as = concat (map (\<lambda>(kind, val). put 8 kind @ put 8 val) as)"

lemma auxv_find_enc:
  "key \<noteq> 0 \<Longrightarrow> auxv_find key (enc_auxv as @ rest) =
     (case find (\<lambda>(kind, val). kind = key \<or> kind = 0) as of
        None \<Rightarrow> auxv_find key rest
      | Some (kind, val) \<Rightarrow> if kind = key then Some val else None)"
proof (induction as)
  case (Cons a as)
  obtain kind val where a: "a = (kind, val)" by fastforce
  have "field 8 0 (put 8 kind @ xs) = kind" "field 8 8 (put 8 kind @ put 8 val @ xs) = val" for xs
    by (rule field_put; simp)+
  then show ?case using Cons by (subst auxv_find.simps) (auto simp: a enc_auxv_def)
qed (simp add: enc_auxv_def)

text \<open>
  The auxiliary vector handed to a program ends with the null entry, which occurs nowhere
  before, announces the image's program headers, entry point and the interpreter's base, and
  passes on the hardware capabilities the host's own vector announces.
\<close>

theorem build_auxv_complete:
  assumes "file = Some (enc_auxv as @ put 8 (0 :: u64) @ put 8 (0 :: u64))"
    and "aux = build_auxv file ra img ib"
  shows "(\<exists>pre. aux = pre @ [(0, 0)] \<and> (\<forall>(kind, val) \<in> set pre. kind \<noteq> 0)) \<and>
    map_of aux 3 = Some (phdr_addr img) \<and> map_of aux 4 = Some (ucast (phentsize img)) \<and>
    map_of aux 5 = Some (ucast (phnum img)) \<and> map_of aux 9 = Some (entry img) \<and>
    map_of aux 7 = Some ib \<and>
    map_of aux 16 = (case find (\<lambda>(kind, val). kind = 16 \<or> kind = 0) as of
      None \<Rightarrow> None | Some (kind, val) \<Rightarrow> if kind = 16 then Some val else None)"
proof -
  let ?hw = "case find (\<lambda>(kind, val). kind = 16 \<or> kind = 0) as of
      None \<Rightarrow> None | Some (kind, val) \<Rightarrow> if kind = 16 then Some val else None"
  have "auxv_find 16 (put 8 (0 :: u64) @ put 8 (0 :: u64)) = None"
    using field_put [of 8 0 "put 8 (0 :: u64) @ put 8 (0 :: u64)" "0 :: u64"]
    by (subst auxv_find.simps) simp
  then have hw: "read_hwcap file = ?hw"
    by (simp add: read_hwcap_def assms(1) auxv_find_enc split: option.split)
  show ?thesis
    by (cases ?hw) (auto simp: assms(2) build_auxv_def hw)
qed

theorem build_auxv_complete_witness:
  "map_of (build_auxv (Some (enc_auxv [(16, 77)] @ put 8 (0 :: u64) @ put 8 (0 :: u64))) 0
     \<lparr>base = 0, total_size = 0, entry = 5, phdr_addr = 64, phnum = 2, phentsize = 56, interp_path = None\<rparr> 9) 16
   = Some 77"
  using build_auxv_complete [of _ "[(16, 77)]" _ 0
      "\<lparr>base = 0, total_size = 0, entry = 5, phdr_addr = 64, phnum = 2, phentsize = 56, interp_path = None\<rparr>" 9]
  by simp

end
