(* ===== verification/Vfd_Posix.thy ===== *)
theory Vfd_Posix
  imports Vfd_World
begin

text \<open>
  How the descriptor tables of \<^verbatim>\<open>src/src/vfd.rs\<close> behave at the edges a shell exercises:
  close on exec, \<^verbatim>\<open>dup2\<close> above the allocation counter and onto itself, closing one end of a
  pipe, and reaping a forked child that shares pipes with its parent. The first property is
  what POSIX asks for; the others state exactly what the code does where it departs from it.
\<close>

section \<open>Close on exec\<close>

text \<open>
  Close on exec removes exactly the descriptors opened with the close-on-exec flag,
  keeps every other descriptor as it is, and hands out for closing exactly the real
  descriptors behind the removed ones.
\<close>

theorem close_cloexec_exact:
  assumes "hm_ok (fds t)" and "file_consistent t"
  shows "vt_get (snd (close_cloexec t)) =
      (\<lambda>k. case vt_get t k of None \<Rightarrow> None | Some v \<Rightarrow> if is_cloexec v then None else Some v) \<and>
    set (fst (close_cloexec t)) = {real_fd f | a f. (\<exists>k. vt_get t k = Some (File a f)) \<and> cloexec f}"
proof -
  define xs where "xs = map fst (filter (\<lambda>(fd, v). is_cloexec v) (fds t))"
  have mem: "k \<in> set xs \<longleftrightarrow> (\<exists>v. vt_get t k = Some v \<and> is_cloexec v)" for k
    using hm_ok_get_iff [OF assms(1)] by (force simp: vt_get_def xs_def)
  have ce: "is_cloexec v \<longleftrightarrow> (\<exists>a f. v = File a f \<and> cloexec f)" for v by (cases v) auto
  have "distinct xs" using assms(1) hm_ok_retain [of "fds t" "\<lambda>_. is_cloexec"]
    by (simp add: hm_ok_def hm_keys_def hm_retain_def xs_def)
  moreover have "\<forall>fd \<in> set xs. \<exists>a f. vt_get t fd = Some (File a f)" by (auto simp: mem ce)
  ultimately have ex: "vt_get (snd (close_cloexec t)) = (\<lambda>k. if k \<in> set xs then None else vt_get t k)"
    "set (fst (close_cloexec t)) = {real_fd f | a f. (\<exists>k \<in> set xs. vt_get t k = Some (File a f)) \<and>
      (\<forall>k g. vt_get t k = Some (File a g) \<longrightarrow> k \<in> set xs)}"
    using close_file_fds_exact [OF assms, of xs] by (simp_all add: close_cloexec_def xs_def)
  have "(\<exists>k \<in> set xs. vt_get t k = Some (File a f)) \<and>
      (\<forall>k g. vt_get t k = Some (File a g) \<longrightarrow> k \<in> set xs) \<longleftrightarrow>
      (\<exists>k. vt_get t k = Some (File a f)) \<and> cloexec f" for a f
    using assms(2) unfolding Bex_def mem ce file_consistent_def
    by (metis option.inject vfd.inject(2))
  then show ?thesis unfolding ex mem by (auto simp: fun_eq_iff split: option.split)
qed

theorem close_cloexec_exact_witness:
  "let t = \<lparr>fds = [(0, Real 0), (3, File 0 \<lparr>real_fd = 40, cloexec = True\<rparr>),
                   (4, File 1 \<lparr>real_fd = 41, cloexec = False\<rparr>)], next_fd = 5\<rparr>
   in vt_get (snd (close_cloexec t)) 3 = None \<and>
      vt_get (snd (close_cloexec t)) 4 = Some (File 1 \<lparr>real_fd = 41, cloexec = False\<rparr>)"
proof -
  define t where "t = \<lparr>fds = [(0, Real 0), (3, File 0 \<lparr>real_fd = 40, cloexec = True\<rparr>),
                   (4, File 1 \<lparr>real_fd = 41, cloexec = False\<rparr>)], next_fd = 5\<rparr>"
  have "hm_ok (fds t)" "file_consistent t"
    by (auto simp: t_def hm_ok_def hm_keys_def file_consistent_def vt_get_def hm_get_def split: if_splits)
  from close_cloexec_exact [OF this] have "vt_get (snd (close_cloexec t)) 3 = None \<and>
      vt_get (snd (close_cloexec t)) 4 = Some (File 1 \<lparr>real_fd = 41, cloexec = False\<rparr>)"
    by (simp add: t_def vt_get_def hm_get_def)
  then show ?thesis unfolding t_def Let_def .
qed

section \<open>Duplicating onto a chosen number\<close>

lemma dup2_above:
  assumes "\<not> hm_contains (fds t) new_fd" and "vt_get t old_fd = Some v"
  shows "vt_dup2 old_fd new_fd st t = (Ok new_fd, st, t\<lparr>fds := hm_insert new_fd v (fds t)\<rparr>)"
  using assms by (simp add: vt_dup2_def vt_get_def)

text \<open>
  Duplicating onto a number in use below the counter makes it refer to the same object,
  and only it; the object it referred to is closed as by close.
\<close>

theorem dup2_replaces:
  assumes "old_fd \<noteq> new_fd" and "vt_get t old_fd = Some v"
  shows "\<exists>st' t'. vt_dup2 old_fd new_fd st t = (Ok new_fd, st', t') \<and>
    vt_get t' = (vt_get t)(new_fd \<mapsto> v) \<and> next_fd t' = next_fd t \<and>
    st' = (if hm_contains (fds t) new_fd then fst (snd (vt_close new_fd st t)) else st)"
proof (cases "hm_contains (fds t) new_fd")
  case True
  obtain r st1 t1 where cl: "vt_close new_fd st t = (r, st1, t1)" by (metis prod.exhaust)
  then have t1: "t1 = vt_remove new_fd t"
    using True by (auto simp: vt_close_def close_pipe_end_def hm_contains_def Let_def
        split: option.splits vfd.splits)
  then have "hm_get (fds t1) old_fd = Some v" using assms by (simp add: vt_remove_def vt_get_def)
  then show ?thesis using True cl t1
    by (auto simp: vt_dup2_def vt_get_def vt_remove_def fun_eq_iff)
next
  case False
  then show ?thesis using dup2_above [OF False assms(2)] by (auto simp: vt_get_def fun_eq_iff)
qed

theorem dup2_replaces_witness:
  "\<exists>st' t'. vt_dup2 2 1 (wstore fd_world_init) vt_new = (Ok 1, st', t') \<and> vt_get t' 1 = Some (Real 2)"
proof -
  have "vt_get vt_new 2 = Some (Real 2)" by (simp add: vt_get_def vt_new_def)
  from dup2_replaces [OF _ this, of 1 "wstore fd_world_init"] show ?thesis by auto
qed

text \<open>
  Duplicating onto the number the allocator would hand out next does not move the
  counter: the next insertion gets the same number again and silently replaces the
  duplicate.
\<close>

theorem dup2_counter_clobber:
  assumes "vt_wf t" and "vt_room 1 t" and "vt_get t old_fd = Some v"
  shows "\<exists>st' t' t''. vt_dup2 old_fd (next_fd t) st t = (Ok (next_fd t), st', t') \<and>
    vt_get t' (next_fd t) = Some v \<and>
    vt_insert u t' = Some (next_fd t, t'') \<and> vt_get t'' (next_fd t) = Some u"
proof -
  let ?t = "t\<lparr>fds := hm_insert (next_fd t) v (fds t)\<rparr>"
  have dup: "vt_dup2 old_fd (next_fd t) st t = (Ok (next_fd t), st, ?t)"
    by (rule dup2_above [OF vt_wf_fresh [OF assms(1)] assms(3)])
  have less: "next_fd t < next_fd t + 1" by (rule next_fd_less_grow [OF assms(2)])
  then have "\<not> hm_contains (fds ?t) (next_fd t + 1)"
    using assms(1) by (auto simp: vt_wf_def dest: order.asym)
  then have "alloc_fd ?t = Some (next_fd t, ?t\<lparr>next_fd := next_fd t + 1\<rparr>)"
    by (simp add: alloc_fd_def Let_def while_option_unfold)
  then show ?thesis using dup by (simp add: vt_insert_def vt_get_def)
qed

theorem dup2_counter_clobber_witness:
  "\<exists>st' t' t''. vt_dup2 0 3 (wstore fd_world_init) vt_new = (Ok 3, st', t') \<and>
     vt_get t' 3 = Some (Real 0) \<and> vt_insert (Real 9) t' = Some (3, t'') \<and> vt_get t'' 3 = Some (Real 9)"
  using dup2_counter_clobber [OF vt_wf_new, of 0 "Real 0" "wstore fd_world_init" "Real 9"]
  by (auto simp: vt_room_def vt_get_def vt_new_def)

text \<open>
  Duplicating an open descriptor onto itself, which POSIX defines to do nothing, closes
  it and reports a bad descriptor.
\<close>

theorem dup2_self_closes:
  assumes "vt_get t fd = Some v"
  shows "fst (vt_dup2 fd fd st t) = Err EBADF \<and> vt_get (snd (snd (vt_dup2 fd fd st t))) fd = None"
proof -
  obtain r st1 t1 where cl: "vt_close fd st t = (r, st1, t1)" by (metis prod.exhaust)
  then have "hm_get (fds t1) fd = None"
    using assms by (cases v) (auto simp: vt_close_def close_pipe_end_def vt_get_def vt_remove_def Let_def)
  moreover have "hm_contains (fds t) fd" using assms by (simp add: vt_get_def hm_contains_def)
  ultimately show ?thesis using cl by (simp add: vt_dup2_def vt_get_def)
qed

theorem dup2_self_closes_witness: "fst (vt_dup2 1 1 (wstore fd_world_init) vt_new) = Err EBADF"
  using dup2_self_closes [of vt_new 1 "Real 1" "wstore fd_world_init"]
  by (simp add: vt_get_def vt_new_def)

section \<open>Pipes shared inside a table and between tables\<close>

text \<open>
  Closing the write end of a new pipe while the same table holds its read end does not
  close the buffer: a reader is told to try again instead of getting end of file.
\<close>

theorem half_close_no_eof:
  assumes "store_ok st" and "tab_ok st t" and "vt_room 2 t"
    and "create_pipe st t = Some (rfd, wfd, st', t')" and "vt_close wfd st' t' = (r, st'', t'')"
  shows "r = Ok () \<and> vt_get t'' wfd = None \<and>
    (\<exists>a p. vt_get t'' rfd = Some (PipeRead a) \<and> pipes st'' a = Some p \<and>
       read_from p dst = Some (- 1, dst, p))"
proof -
  have r1: "vt_room 1 t" using assms(3) by (rule vt_room_mono) simp
  have less: "next_fd t < next_fd t + 1" by (rule next_fd_less_grow [OF r1])
  have eq: "rfd = next_fd t" "wfd = next_fd t + 1"
    "st' = st\<lparr>pipes := (pipes st)(next_arc st \<mapsto> pipe_new), next_arc := Suc (next_arc st)\<rparr>"
    "t' = t\<lparr>next_fd := next_fd t + 1 + 1,
        fds := hm_insert (next_fd t + 1) (PipeWrite (next_arc st))
                 (hm_insert (next_fd t) (PipeRead (next_arc st)) (fds t))\<rparr>"
    using create_pipe_eq [of t st] assms(2,3,4) by (auto simp: tab_ok_def)
  have "hm_get (fds t') wfd = Some (PipeWrite (next_arc st))" by (simp add: eq)
  have "PipeRead (next_arc st) \<in> set (hm_values (fds (vt_remove wfd t')))"
  proof -
    have "hm_get (fds (vt_remove wfd t')) rfd = Some (PipeRead (next_arc st))"
      using less by (simp add: eq vt_remove_def)
    then show ?thesis by (force simp: hm_values_def dest: hm_get_Some_mem)
  qed
  then have "list_ex (refs_pipe (next_arc st)) (hm_values (fds (vt_remove wfd t')))"
    unfolding list_ex_iff by (metis refs_pipe.simps(1))
  then have "vt_close wfd st' t' = (Ok (), st', vt_remove wfd t')"
    using \<open>hm_get (fds t') wfd = Some (PipeWrite (next_arc st))\<close>
    by (simp add: vt_close_def close_pipe_end_def Let_def)
  moreover have "read_from pipe_new dst = Some (- 1, dst, pipe_new)" by (simp add: read_from_def)
  ultimately show ?thesis using assms(5) less by (auto simp: eq vt_remove_def vt_get_def)
qed

theorem half_close_no_eof_witness:
  "\<exists>st' t' st'' t'' a p. create_pipe (wstore fd_world_init) vt_new = Some (3, 4, st', t') \<and>
     vt_close 4 st' t' = (Ok (), st'', t'') \<and> vt_get t'' 3 = Some (PipeRead a) \<and>
     pipes st'' a = Some p \<and> read_from p [0, 0] = Some (- 1, [0, 0], p)"
proof -
  let ?st = "wstore fd_world_init"
  have pre: "store_ok ?st" "tab_ok ?st vt_new" "vt_room 2 vt_new" "next_fd vt_new = 3"
    using world_okD(1) [OF world_ok_init] tab_ok_new by (auto simp: vt_room_def vt_new_def)
  obtain st' t' where cr: "create_pipe ?st vt_new = Some (3, 4, st', t')"
    using create_pipe_eq [OF vt_wf_new pre(3), of ?st] pre(4) by simp
  obtain r st'' t'' where cl: "vt_close 4 st' t' = (r, st'', t'')" by (metis prod.exhaust)
  from half_close_no_eof [OF pre(1-3) cr cl, of "[0, 0]"] cr cl show ?thesis by blast
qed

text \<open>
  C40. Reaping a child forked from a parent closes every pipe buffer the parent itself still
  holds, because the destructor of the child's table closes the shared buffers: after it,
  the parent's writes to those pipes fail.
\<close>

theorem reaped_child_closes_parent_pipes:
  assumes "world_ok w" and "get_table p w = Some t" and "get_table c w = None" and "p \<noteq> c"
    and "vt_get t k = Some (PipeWrite a)" and "pipes (wstore w) a = Some b"
  shows "\<exists>b'. get_table p (remove_table c (fork_fd_table p c w)) = Some t \<and>
    pipes (wstore (remove_table c (fork_fd_table p c w))) a = Some b' \<and>
    closed b' \<and> write_to b' src = Some (- 1, b')"
proof -
  have ok: "hm_ok (fds t)" using world_okD(3) [OF assms(1,2)] by (simp add: tab_ok_def vt_wf_def)
  then have fork: "fork_fd_table p c w = w\<lparr>wstore := wstore w, tables := hm_insert c t (tables w)\<rparr>"
    using assms(2,3) by (simp add: fork_fd_table_def insert_table_def drop_entry_def get_table_def
        clone_for_fork_id)
  have "list_ex (refs_pipe a) (hm_values (fds t))"
    using assms(5) vt_get_values [OF ok, of "PipeWrite a"] by (auto simp: list_ex_iff intro!: bexI)
  then have "pipes (wstore (remove_table c (fork_fd_table p c w))) a = Some (pipe_close b)"
    using assms(6) by (simp add: fork remove_table_def drop_entry_def vt_drop_pipes)
  moreover have "get_table p (remove_table c (fork_fd_table p c w)) = Some t"
    using assms(2,4) by (simp add: fork remove_table_def get_table_def)
  ultimately show ?thesis by (simp add: pipe_close_def write_to_def)
qed

theorem reaped_child_closes_parent_pipes_witness:
  "\<exists>w b'. pipes (wstore (remove_table 2 (fork_fd_table 1 2 w))) 0 = Some b' \<and> closed b'"
proof -
  define t where "t = \<lparr>fds = [(3, PipeRead 0), (4, PipeWrite 0)], next_fd = 5\<rparr>"
  define w where "w = \<lparr>wstore = \<lparr>pipes = [0 \<mapsto> pipe_new], next_arc = 1\<rparr>, tables = [(1, t)]\<rparr>"
  have tab: "get_table 1 w = Some t" "get_table 2 w = None" and get: "vt_get t 4 = Some (PipeWrite 0)"
    and buf: "pipes (wstore w) 0 = Some pipe_new"
    by (simp_all add: w_def t_def get_table_def vt_get_def hm_get_def)
  have "tab_ok (wstore w) t"
    by (auto simp: tab_ok_def vt_wf_def t_def w_def hm_ok_def hm_keys_def hm_contains_def hm_get_def
        split: if_splits)
  then have "world_ok w" using pipe_ok_new
    by (auto simp: world_ok_def store_ok_def w_def hm_ok_def hm_keys_def hm_get_def split: if_splits)
  from reaped_child_closes_parent_pipes [OF this tab _ get buf, of "[]"] show ?thesis by auto
qed

end
