(* ===== verification/Executor_Laws.thy ===== *)
theory Executor_Laws
  imports Executor
begin

text \<open>
  The scheduler as a transition system. \<open>exec_ok\<close> is the consistency of the process table,
  the queue, the process tree and the exit codes; \<open>accounted\<close> says that no live process is
  lost: each one is queued, running or waiting for I/O. Both hold in every state the driver
  reaches, for every behaviour of the coroutines that is made of the runtime's operations.
\<close>

section \<open>Consistency\<close>

definition exec_ok :: "Executor \<Rightarrow> bool" where
  "exec_ok e \<longleftrightarrow> hm_ok (vprocs e) \<and> hm_ok (children e) \<and>
     (\<forall>pid c. hm_get (vprocs e) pid = Some c \<longrightarrow> cid c = pid \<and> pid < next_pid e) \<and>
     (\<forall>pid \<in> set (ready_queue e). pid < next_pid e) \<and>
     (\<forall>pid. current e = Some pid \<longrightarrow> hm_contains (vprocs e) pid) \<and>
     (\<forall>pid. hm_contains (exit_codes e) pid \<longrightarrow> pid < next_pid e) \<and>
     (\<forall>p kids. hm_get (children e) p = Some kids \<longrightarrow> sorted_wrt (<) (p # kids) \<and>
        (\<forall>k \<in> set kids. k < next_pid e \<and> (\<forall>c. hm_get (vprocs e) k = Some c \<longrightarrow> ppid c = p)))"

definition accounted :: "Executor \<Rightarrow> bool" where
  "accounted e \<longleftrightarrow> (\<forall>pid c. hm_get (vprocs e) pid = Some c \<longrightarrow> state c \<noteq> Done \<longrightarrow>
     io_wait c = None \<longrightarrow> pid \<in> set (ready_queue e) \<or> current e = Some pid)"

definition sched_ok :: "sys \<Rightarrow> bool" where
  "sched_ok s \<longleftrightarrow> exec_ok (ex s) \<and> accounted (ex s)"

lemmas sys_defs = with_vprocs_def with_queue_def with_children_def with_exit_codes_def
  set_current_def count_switch_def bump_pid_def emit_def insert_vproc_def set_state_def

lemma exec_okD:
  assumes "exec_ok e"
  shows "hm_ok (vprocs e)" and "hm_ok (children e)"
    and "hm_get (vprocs e) pid = Some c \<Longrightarrow> cid c = pid \<and> pid < next_pid e"
    and "pid \<in> set (ready_queue e) \<Longrightarrow> pid < next_pid e"
    and "current e = Some pid \<Longrightarrow> hm_contains (vprocs e) pid"
    and "hm_get (children e) p = Some kids \<Longrightarrow> sorted_wrt (<) (p # kids)"
    and "hm_get (children e) p = Some kids \<Longrightarrow> k \<in> set kids \<Longrightarrow>
      k < next_pid e \<and> (\<forall>c. hm_get (vprocs e) k = Some c \<longrightarrow> ppid c = p)"
  using assms unfolding exec_ok_def by auto

lemma fresh_pid: "exec_ok e \<Longrightarrow> hm_get (vprocs e) (next_pid e) = None"
  using exec_okD(3) [of e "next_pid e"] by (cases "hm_get (vprocs e) (next_pid e)") auto

text \<open>Adding a fresh process and announcing it in the queue.\<close>

lemma exec_ok_add:
  assumes "exec_ok e" and "next_pid e \<noteq> - 1" and "cid c = next_pid e"
    and "set q \<subseteq> insert (next_pid e) (set (ready_queue e))"
  shows "exec_ok (e\<lparr>next_pid := next_pid e + 1, vprocs := hm_insert (next_pid e) c (vprocs e),
      ready_queue := q\<rparr>)"
proof -
  have up: "next_pid e < next_pid e + 1" using assms(2) by (rule word_less_succ)
  then have tr: "x < next_pid e \<Longrightarrow> x < next_pid e + 1" for x by (rule order.strict_trans [rotated])
  show ?thesis using assms(1,3,4) up tr
    unfolding exec_ok_def by (auto simp: hm_contains_def) blast+
qed

lemma accounted_add:
  assumes "accounted e" and "set q = insert (next_pid e) (set (ready_queue e))"
  shows "accounted (e\<lparr>next_pid := n, vprocs := hm_insert (next_pid e) c (vprocs e), ready_queue := q\<rparr>)"
  using assms by (auto simp: accounted_def split: if_splits)

text \<open>Changing a coroutine without touching its identity.\<close>

lemma exec_ok_modify:
  assumes "exec_ok e" and "\<And>c. cid (f c) = cid c \<and> ppid (f c) = ppid c"
  shows "exec_ok (e\<lparr>vprocs := hm_modify pid f (vprocs e)\<rparr>)"
  using assms unfolding exec_ok_def by (auto split: if_splits)

lemma exec_ok_queue:
  "exec_ok e \<Longrightarrow> set q \<subseteq> set (ready_queue e) \<union> {p. hm_contains (vprocs e) p} \<Longrightarrow> exec_ok (e\<lparr>ready_queue := q\<rparr>)"
  unfolding exec_ok_def by (auto simp: hm_contains_def)

lemma exec_ok_exit:
  assumes "exec_ok e" and "pid < next_pid e"
  shows "exec_ok (e\<lparr>exit_codes := hm_insert pid code (exit_codes e)\<rparr>)"
  using assms unfolding exec_ok_def by auto

section \<open>Spawning and forking\<close>

lemma spawn_eq:
  assumes "spawn f mco s = Some (pid, s')" and "exec_ok (ex s)"
  shows "pid = next_pid (ex s) \<and> (\<exists>c. coroutine_new pid f mco = Some c \<and>
    ex s' = (ex s)\<lparr>next_pid := pid + 1, vprocs := hm_insert pid c (vprocs (ex s)),
      ready_queue := ready_queue (ex s) @ [pid]\<rparr>)"
  using assms fresh_pid [OF assms(2)]
  by (cases "ex s") (auto simp: spawn_def sys_defs Let_def coroutine_new_def)

lemma spawn_front_eq:
  assumes "spawn_front f mco s = Some (pid, s')" and "exec_ok (ex s)"
  shows "pid = next_pid (ex s) \<and> (\<exists>c. coroutine_new pid f mco = Some c \<and>
    ex s' = (ex s)\<lparr>next_pid := pid + 1, vprocs := hm_insert pid c (vprocs (ex s)),
      ready_queue := pid # ready_queue (ex s)\<rparr>)"
  using assms fresh_pid [OF assms(2)]
  by (cases "ex s") (auto simp: spawn_front_def sys_defs Let_def coroutine_new_def)

lemma spawn_elf_eq:
  assumes "spawn_elf en sb ss ac av ev xv mco m s = Some (pid, m', s')" and "exec_ok (ex s)"
  shows "pid = next_pid (ex s) \<and> (\<exists>c.
    coroutine_new_elf pid en sb ss ac av ev xv mco m = Some (c, m') \<and>
    ex s' = (ex s)\<lparr>next_pid := pid + 1, vprocs := hm_insert pid c (vprocs (ex s)),
      ready_queue := ready_queue (ex s) @ [pid]\<rparr>)"
  using assms fresh_pid [OF assms(2)]
  by (cases "ex s") (auto simp: spawn_elf_def sys_defs Let_def coroutine_new_elf_def split: prod.splits)

lemma coroutine_new_cid [simp]: "coroutine_new pid f mco = Some c \<Longrightarrow> cid c = pid"
  by (auto simp: coroutine_new_def)

lemma coroutine_new_elf_cid [simp]:
  "coroutine_new_elf pid en sb ss ac av ev xv mco m = Some (c, m') \<Longrightarrow> cid c = pid"
  by (auto simp: coroutine_new_elf_def Let_def split: prod.splits)

lemma spawn_keeps:
  assumes "sched_ok s" and "next_pid (ex s) \<noteq> - 1" and "spawn f mco s = Some (pid, s')"
  shows "sched_ok s'"
  using spawn_eq [OF assms(3)] assms(1,2) exec_ok_add [of "ex s"] accounted_add [of "ex s"]
  by (auto simp: sched_ok_def)

lemma spawn_front_keeps:
  assumes "sched_ok s" and "next_pid (ex s) \<noteq> - 1" and "spawn_front f mco s = Some (pid, s')"
  shows "sched_ok s'"
  using spawn_front_eq [OF assms(3)] assms(1,2) exec_ok_add [of "ex s"] accounted_add [of "ex s"]
  by (auto simp: sched_ok_def)

lemma spawn_elf_keeps:
  assumes "sched_ok s" and "next_pid (ex s) \<noteq> - 1"
    and "spawn_elf en sb ss ac av ev xv mco m s = Some (pid, m', s')"
  shows "sched_ok s'"
  using spawn_elf_eq [OF assms(3)] assms(1,2) exec_ok_add [of "ex s"] accounted_add [of "ex s"]
  by (auto simp: sched_ok_def)

text \<open>The whole effect of a fork, in one equation.\<close>

lemma spawn_fork_child_eq:
  assumes "exec_ok (ex s)" and "hm_get (vprocs (ex s)) parent = Some c"
  defines "n \<equiv> next_pid (ex s)"
  defines "child \<equiv> \<lambda>h. \<lparr>cid = n, ppid = parent, co = h, userdata = \<lparr>ud_exit_code = 0, closure = None\<rparr>,
        state = Ready, exit_code = 0, is_fork_child = True, fork_child_pid = 0, c_strings = [],
        mapped_regions = [], pending_signals = [], cwd = cwd c, binary_path = None,
        io_wait = None, stack_alloc = None\<rparr>"
  shows "spawn_fork_child parent mco s = map_option (\<lambda>h. (n,
    s\<lparr>ex := (ex s)\<lparr>next_pid := n + 1,
        vprocs := hm_modify parent (\<lambda>c. c\<lparr>fork_child_pid := n\<rparr>) (hm_insert n (child h) (vprocs (ex s))),
        ready_queue := ready_queue (ex s) @ [n],
        children := push_child parent n (children (ex s))\<rparr>,
      fdw := fork_fd_table parent n (fdw s)\<rparr>)) mco"
proof -
  have "hm_get (vprocs (ex s)) n = None" using fresh_pid [OF assms(1)] by (simp add: n_def)
  moreover have "cid c = parent" "parent \<noteq> n"
    using exec_okD(3) [OF assms(1,2)] by (auto simp: n_def)
  ultimately show ?thesis
    using assms(2)
    by (cases mco; cases s; cases "ex s")
      (auto simp: spawn_fork_child_def sys_defs Let_def fork_from_def hm_contains_def n_def child_def)
qed

lemma push_child_get:
  "hm_get (push_child p k m) q =
     (if q = p then Some ((case hm_get m p of None \<Rightarrow> [] | Some kids \<Rightarrow> kids) @ [k]) else hm_get m q)"
  by (simp add: push_child_def)

lemma exec_ok_push_child:
  assumes "exec_ok e" and "parent < n" and "n < next_pid e"
    and "\<forall>p kids. hm_get (children e) p = Some kids \<longrightarrow> (\<forall>k \<in> set kids. k < n)"
    and "hm_get (vprocs e) n = Some c" and "ppid c = parent"
  shows "exec_ok (e\<lparr>children := push_child parent n (children e)\<rparr>)"
proof -
  have "sorted_wrt (<) (parent # kids @ [n])" if "hm_get (children e) parent = Some kids" for kids
    using exec_okD(6) [OF assms(1) that] assms(2,4) that by (auto simp: sorted_wrt_append)
  then show ?thesis
    using assms(1,2,3,5,6) unfolding exec_ok_def push_child_get
    by (auto simp: push_child_def split: if_splits option.splits)
qed

lemma spawn_fork_child_keeps:
  assumes "sched_ok s" and "next_pid (ex s) \<noteq> - 1"
    and "spawn_fork_child parent mco s = Some (pid, s')"
  shows "sched_ok s'"
proof -
  let ?e = "ex s" and ?n = "next_pid (ex s)"
  have ok: "exec_ok ?e" "accounted ?e" using assms(1) by (auto simp: sched_ok_def)
  obtain c where c: "hm_get (vprocs ?e) parent = Some c"
    using assms(3) by (auto simp: spawn_fork_child_def sys_defs Let_def split: bind_splits)
  obtain h where h: "mco = Some h"
    using assms(3) spawn_fork_child_eq [OF ok(1) c, of mco] by auto
  define k where "k = \<lparr>cid = ?n, ppid = parent, co = h, userdata = \<lparr>ud_exit_code = 0, closure = None\<rparr>,
        state = Ready, exit_code = 0, is_fork_child = True, fork_child_pid = 0, c_strings = [],
        mapped_regions = [], pending_signals = [], cwd = cwd c, binary_path = None,
        io_wait = None, stack_alloc = None\<rparr>"
  have k: "cid k = ?n" "ppid k = parent" by (simp_all add: k_def)
  have e': "ex s' = ?e\<lparr>next_pid := ?n + 1,
        vprocs := hm_modify parent (\<lambda>c. c\<lparr>fork_child_pid := ?n\<rparr>) (hm_insert ?n k (vprocs ?e)),
        ready_queue := ready_queue ?e @ [?n], children := push_child parent ?n (children ?e)\<rparr>"
    using assms(3) spawn_fork_child_eq [OF ok(1) c, of mco] h by (auto simp: k_def)
  define e1 where "e1 = ?e\<lparr>next_pid := ?n + 1, vprocs := hm_insert ?n k (vprocs ?e),
      ready_queue := ready_queue ?e @ [?n]\<rparr>"
  define e2 where "e2 = e1\<lparr>vprocs := hm_modify parent (\<lambda>c. c\<lparr>fork_child_pid := ?n\<rparr>) (vprocs e1)\<rparr>"
  have lt: "parent < ?n" "?n < ?n + 1"
    using exec_okD(3) [OF ok(1) c] word_less_succ [OF assms(2)] by auto
  have "exec_ok e1" unfolding e1_def by (rule exec_ok_add [OF ok(1) assms(2) k(1)]) auto
  then have "exec_ok e2" unfolding e2_def by (rule exec_ok_modify) simp
  then have "exec_ok (e2\<lparr>children := push_child parent ?n (children e2)\<rparr>)"
  proof (rule exec_ok_push_child [OF _ lt(1)])
    show "hm_get (vprocs e2) ?n = Some k" using lt by (simp add: e2_def e1_def)
    show "\<forall>p kids. hm_get (children e2) p = Some kids \<longrightarrow> (\<forall>k \<in> set kids. k < ?n)"
      using exec_okD(7) [OF ok(1)] by (auto simp: e2_def e1_def)
  qed (use lt k in \<open>simp_all add: e2_def e1_def\<close>)
  moreover have "ex s' = e2\<lparr>children := push_child parent ?n (children e2)\<rparr>"
    unfolding e' e2_def e1_def by (cases ?e) simp
  moreover have "accounted (ex s')"
    using ok(2) unfolding e' by (fastforce simp: accounted_def split: if_splits)
  ultimately show ?thesis by (simp add: sched_ok_def)
qed

section \<open>Picking and signals\<close>

lemma pick_loop_spec:
  assumes "pick_loop vs q = (r, q')"
  shows "\<exists>dropped. (\<forall>d \<in> set dropped. \<forall>c. hm_get vs d = Some c \<longrightarrow> is_done c) \<and>
    (case r of None \<Rightarrow> q = dropped \<and> q' = []
     | Some p \<Rightarrow> q = dropped @ p # q' \<and> (\<exists>c. hm_get vs p = Some c \<and> \<not> is_done c))"
  using assms
proof (induction vs q rule: pick_loop.induct)
  case (2 vs pid q)
  show ?case
  proof (cases "\<exists>c. hm_get vs pid = Some c \<and> \<not> is_done c")
    case True
    then show ?thesis using "2.prems" by (auto intro!: exI [of _ "[]"])
  next
    case False
    then have "pick_loop vs q = (r, q')" using "2.prems" by (auto split: option.splits if_splits)
    then obtain dropped where "\<forall>d \<in> set dropped. \<forall>c. hm_get vs d = Some c \<longrightarrow> is_done c"
      "case r of None \<Rightarrow> q = dropped \<and> q' = []
       | Some p \<Rightarrow> q = dropped @ p # q' \<and> (\<exists>c. hm_get vs p = Some c \<and> \<not> is_done c)"
      using "2.IH" False by (cases "hm_get vs pid") auto
    then show ?thesis using False
      by (intro exI [of _ "pid # dropped"]) (auto split: option.splits)
  qed
qed simp

lemma pick_next_eq:
  assumes "pick_next s = (r, s')"
  shows "s' = with_queue (\<lambda>_. snd (pick_loop (vprocs (ex s)) (ready_queue (ex s)))) s"
    and "r = fst (pick_loop (vprocs (ex s)) (ready_queue (ex s)))"
  using assms by (auto simp: pick_next_def Let_def case_prod_beta)

lemma ex_with_vprocs [simp]: "ex (with_vprocs f s) = (ex s)\<lparr>vprocs := f (vprocs (ex s))\<rparr>"
  by (simp add: with_vprocs_def)

lemma ex_with_queue [simp]: "ex (with_queue f s) = (ex s)\<lparr>ready_queue := f (ready_queue (ex s))\<rparr>"
  by (simp add: with_queue_def)

lemma ex_set_current [simp]: "ex (set_current c s) = (ex s)\<lparr>current := c\<rparr>"
  by (simp add: set_current_def)

lemma ex_count_switch [simp]: "ex (count_switch s) = (ex s)\<lparr>switch_count := switch_count (ex s) + 1\<rparr>"
  by (simp add: count_switch_def)

lemma ex_emit [simp]: "ex (emit es s) = ex s"
  by (simp add: emit_def)

text \<open>
  Delivering signals changes one coroutine: its pending signals are taken, and the first
  fatal one finishes it.
\<close>

fun fatal :: "c_int list \<Rightarrow> c_int option" where
  "fatal [] = None"
| "fatal (sig # sigs) = (if sig = 9 \<or> sig = 15 then Some sig else fatal sigs)"

lemma signal_loop_eq:
  "signal_loop pid sigs s = (case fatal sigs of
      None \<Rightarrow> (False, s)
    | Some sig \<Rightarrow> (True, with_vprocs (hm_modify pid (set_done (128 + sig))) s))"
  by (induction sigs) auto

lemma with_vprocs_id: "f (vprocs (ex s)) = vprocs (ex s) \<Longrightarrow> with_vprocs f s = s"
  by (simp add: with_vprocs_def)

lemma deliver_signals_eq:
  assumes "hm_get (vprocs (ex s)) pid = Some c"
  shows "\<exists>f. deliver_signals pid s = (fatal (pending_signals c) \<noteq> None, with_vprocs (hm_modify pid f) s) \<and>
    f c = (case fatal (pending_signals c) of
             None \<Rightarrow> c\<lparr>pending_signals := []\<rparr>
           | Some sig \<Rightarrow> set_done (128 + sig) (c\<lparr>pending_signals := []\<rparr>)) \<and>
    (\<forall>c. cid (f c) = cid c \<and> ppid (f c) = ppid c \<and> io_wait (f c) = io_wait c)"
proof (cases "fatal (pending_signals c)")
  case None
  let ?f = "\<lambda>c. c\<lparr>pending_signals := []\<rparr>"
  have "with_vprocs (hm_modify pid ?f) s = s" if "pending_signals c = []"
    using hm_modify_id [OF assms, of ?f] that by (intro with_vprocs_id) simp
  then have "deliver_signals pid s = (False, with_vprocs (hm_modify pid ?f) s)"
    using assms None by (simp add: deliver_signals_def signal_loop_eq)
  then show ?thesis using None by (intro exI [of _ ?f]) simp
next
  case (Some sig)
  then have "pending_signals c \<noteq> []" by auto
  then show ?thesis
    using assms Some
    by (intro exI [of _ "\<lambda>c. set_done (128 + sig) (c\<lparr>pending_signals := []\<rparr>)"])
      (simp add: deliver_signals_def signal_loop_eq sys_defs hm_modify_modify comp_def set_done_def)
qed

section \<open>What coroutines do\<close>

text \<open>
  The operations of the runtime a coroutine (or the driver) performs between two switches:
  spawning, forking, waiting for children, updates of process attributes that leave
  identity, state and I/O wait alone (signals, working directory, resources), and anything
  that does not concern the scheduler (descriptors, system calls).
\<close>

inductive body_step :: "sys \<Rightarrow> sys \<Rightarrow> bool" where
  b_spawn: "next_pid (ex s) \<noteq> - 1 \<Longrightarrow> spawn f mco s = Some (pid, s') \<Longrightarrow> body_step s s'"
| b_spawn_front: "next_pid (ex s) \<noteq> - 1 \<Longrightarrow> spawn_front f mco s = Some (pid, s') \<Longrightarrow> body_step s s'"
| b_spawn_elf: "next_pid (ex s) \<noteq> - 1 \<Longrightarrow>
    spawn_elf en sb ss ac av ev xv mcoe m s = Some (pid, m', s') \<Longrightarrow> body_step s s'"
| b_fork: "next_pid (ex s) \<noteq> - 1 \<Longrightarrow> spawn_fork_child parent mco s = Some (pid, s') \<Longrightarrow> body_step s s'"
| b_reap_child: "body_step s (reap_child parent child s)"
| b_remove_code: "body_step s (remove_exit_code pid s)"
| b_update: "(\<And>c. cid (u c) = cid c \<and> ppid (u c) = ppid c \<and> state (u c) = state c \<and> io_wait (u c) = io_wait c) \<Longrightarrow>
    body_step s (with_vprocs (hm_modify pid u) s)"
| b_local: "ex s' = ex s \<Longrightarrow> body_step s s'"

text \<open>A slice of a coroutine: its operations, ended by a yield, a wait for I/O or its exit.\<close>

definition slice :: "sys \<Rightarrow> sys \<Rightarrow> bool" where
  "slice s s' \<longleftrightarrow> (\<exists>s1. body_step\<^sup>*\<^sup>* s s1 \<and>
     (s' = requeue_alive (current (ex s1)) s1 \<or>
      mco_running s1 \<noteq> None \<and> (\<exists>io t now. s' = yield_for_io io t now s1) \<or>
      ex_set s1 \<and> (\<exists>code. s' = vproc_exit_with_code code s1)))"

definition run_ok :: "(handle \<Rightarrow> sys \<Rightarrow> sys \<times> bool) \<Rightarrow> bool" where
  "run_ok run \<longleftrightarrow> (\<forall>h s. current (ex s) \<noteq> None \<longrightarrow> slice s (fst (run h s)))"

lemma exec_ok_children:
  assumes "exec_ok e" and "hm_ok m"
    and "\<And>p ks'. hm_get m p = Some ks' \<Longrightarrow> \<exists>ks P. hm_get (children e) p = Some ks \<and> ks' = filter P ks"
  shows "exec_ok (e\<lparr>children := m\<rparr>)"
proof -
  have "sorted_wrt (<) (p # ks') \<and> (\<forall>k \<in> set ks'. k < next_pid e \<and>
      (\<forall>c. hm_get (vprocs e) k = Some c \<longrightarrow> ppid c = p))" if m: "hm_get m p = Some ks'" for p ks'
  proof -
    obtain ks P where ks: "hm_get (children e) p = Some ks" "ks' = filter P ks"
      using assms(3) [OF m] by blast
    then show ?thesis using exec_okD(6,7) [OF assms(1) ks(1)] by (auto simp: sorted_wrt_filter)
  qed
  then show ?thesis using assms(1,2) unfolding exec_ok_def by simp
qed

lemma reap_child_keeps:
  assumes "sched_ok s"
  shows "sched_ok (reap_child p k s)"
proof -
  let ?m = "hm_modify p (filter (\<lambda>x. x \<noteq> k)) (children (ex s))"
  have "exec_ok ((ex s)\<lparr>children := ?m\<rparr>)"
  proof (rule exec_ok_children)
    fix q ks'
    assume "hm_get ?m q = Some ks'"
    then show "\<exists>ks P. hm_get (children (ex s)) q = Some ks \<and> ks' = filter P ks"
      by (cases "q = p") (auto intro: exI [of _ "\<lambda>_. True"])
  qed (use assms in \<open>auto simp: sched_ok_def exec_ok_def\<close>)
  then show ?thesis using assms by (simp add: sched_ok_def accounted_def reap_child_def with_children_def)
qed

lemma remove_exit_code_keeps: "sched_ok s \<Longrightarrow> sched_ok (remove_exit_code pid s)"
  unfolding sched_ok_def exec_ok_def accounted_def remove_exit_code_def with_exit_codes_def by auto

lemma update_keeps:
  assumes "sched_ok s"
    and "\<And>c. cid (u c) = cid c \<and> ppid (u c) = ppid c \<and> state (u c) = state c \<and> io_wait (u c) = io_wait c"
  shows "sched_ok (with_vprocs (hm_modify pid u) s)"
proof -
  have "accounted ((ex s)\<lparr>vprocs := hm_modify pid u (vprocs (ex s))\<rparr>)"
  proof -
    have "accounted (ex s)" using assms(1) by (simp add: sched_ok_def)
    moreover have "state (u c) = state c" "io_wait (u c) = io_wait c" for c using assms(2) by auto
    ultimately show ?thesis unfolding accounted_def by (fastforce split: if_splits)
  qed
  moreover have "exec_ok ((ex s)\<lparr>vprocs := hm_modify pid u (vprocs (ex s))\<rparr>)"
    using assms by (intro exec_ok_modify) (auto simp: sched_ok_def)
  ultimately show ?thesis by (simp add: sched_ok_def)
qed

lemma body_step_keeps:
  assumes "body_step s s'" and "sched_ok s"
  shows "sched_ok s' \<and> current (ex s') = current (ex s)"
  using assms
proof (induction rule: body_step.induct)
  case (b_spawn s f mco pid s')
  have "sched_ok s'" using b_spawn.prems b_spawn.hyps by (rule spawn_keeps)
  then show ?case using spawn_eq [OF b_spawn.hyps(2)] b_spawn.prems by (auto simp: sched_ok_def)
next
  case (b_spawn_front s f mco pid s')
  have "sched_ok s'" using b_spawn_front.prems b_spawn_front.hyps by (rule spawn_front_keeps)
  then show ?case using spawn_front_eq [OF b_spawn_front.hyps(2)] b_spawn_front.prems by (auto simp: sched_ok_def)
next
  case (b_spawn_elf s en sb ss ac av ev xv mcoe m pid m' s')
  have "sched_ok s'" using b_spawn_elf.prems b_spawn_elf.hyps by (rule spawn_elf_keeps)
  then show ?case using spawn_elf_eq [OF b_spawn_elf.hyps(2)] b_spawn_elf.prems by (auto simp: sched_ok_def)
next
  case (b_fork s parent mco pid s')
  obtain c where "hm_get (vprocs (ex s)) parent = Some c"
    using b_fork(2) by (auto simp: spawn_fork_child_def sys_defs Let_def split: bind_splits)
  then have "current (ex s') = current (ex s)"
    using b_fork spawn_fork_child_eq [of s parent c mco] by (cases mco) (auto simp: sched_ok_def)
  moreover have "sched_ok s'" using b_fork.prems b_fork.hyps by (rule spawn_fork_child_keeps)
  ultimately show ?case by simp
next
  case (b_update u s pid)
  then show ?case using update_keeps by simp
next
  case (b_reap_child s parent child)
  then show ?case using reap_child_keeps by (simp add: reap_child_def with_children_def)
next
  case (b_remove_code s pid)
  then show ?case using remove_exit_code_keeps by (simp add: remove_exit_code_def with_exit_codes_def)
qed (simp add: sched_ok_def)

lemma body_steps_keep:
  assumes "body_step\<^sup>*\<^sup>* s s'" and "sched_ok s"
  shows "sched_ok s' \<and> current (ex s') = current (ex s)"
  using assms by (induction rule: rtranclp_induct) (auto dest: body_step_keeps)

text \<open>The three ways a slice ends.\<close>

definition slice_end :: "sys \<Rightarrow> sys \<Rightarrow> bool" where
  "slice_end s1 s' \<longleftrightarrow> s' = requeue_alive (current (ex s1)) s1 \<or>
      mco_running s1 \<noteq> None \<and> (\<exists>io t now. s' = yield_for_io io t now s1) \<or>
      ex_set s1 \<and> (\<exists>code. s' = vproc_exit_with_code code s1)"

lemma slice_end_exec_ok:
  assumes "slice_end s1 s'" and "exec_ok (ex s1)" and "current (ex s1) = Some pid" and "hm_get (vprocs (ex s1)) pid = Some c"
  shows "exec_ok (ex s') \<and> current (ex s') = current (ex s1)"
  using assms(1) unfolding slice_end_def
proof (elim disjE conjE exE)
  assume "s' = requeue_alive (current (ex s1)) s1"
  then show ?thesis using assms(2-4) by (auto simp: requeue_alive_def hm_contains_def intro!: exec_ok_queue)
next
  fix io t now
  assume "s' = yield_for_io io t now s1"
  then show ?thesis using assms(2,3) by (auto simp: yield_for_io_def Let_def intro!: exec_ok_modify)
next
  fix code
  assume s': "s' = vproc_exit_with_code code s1"
  have "exec_ok ((ex s1)\<lparr>vprocs := hm_modify pid (\<lambda>c. c\<lparr>state := Done, exit_code := code\<rparr>) (vprocs (ex s1))\<rparr>)"
    using assms(2) by (rule exec_ok_modify) simp
  from exec_ok_exit [OF this, of pid code] show ?thesis
    using s' assms(2,3) exec_okD(3) [OF assms(2,4)] by (auto simp: vproc_exit_with_code_def with_exit_codes_def)
qed

text \<open>After a slice the process is accounted for without being the running one.\<close>

lemma slice_keeps:
  assumes "slice s s'" and "sched_ok s"
  shows "exec_ok (ex s') \<and> current (ex s') = current (ex s) \<and> accounted ((ex s')\<lparr>current := None\<rparr>)"
proof -
  obtain s1 where s1: "body_step\<^sup>*\<^sup>* s s1" and ends: "slice_end s1 s'"
    using assms(1) unfolding slice_def slice_end_def by blast
  have ok: "exec_ok (ex s1)" "accounted (ex s1)" and cur: "current (ex s1) = current (ex s)"
    using body_steps_keep [OF s1 assms(2)] by (auto simp: sched_ok_def)
  show ?thesis
  proof (cases "current (ex s1)")
    case None
    then have "s' = s1" using ends
      by (auto simp: slice_end_def requeue_alive_def yield_for_io_def vproc_exit_with_code_def)
    then show ?thesis using ok cur None by (auto simp: accounted_def)
  next
    case (Some pid)
    then obtain c where c: "hm_get (vprocs (ex s1)) pid = Some c"
      using exec_okD(5) [OF ok(1)] by (auto simp: hm_contains_def)
    have "accounted ((ex s')\<lparr>current := None\<rparr>)"
      using ends ok(2) c Some
      by (fastforce simp: slice_end_def requeue_alive_def yield_for_io_def vproc_exit_with_code_def with_exit_codes_def
          accounted_def is_done_def Let_def split: if_splits)
    then show ?thesis using slice_end_exec_ok [OF ends ok(1) Some c] cur by simp
  qed
qed

section \<open>The driver\<close>

lemma exec_ok_current: "exec_ok e \<Longrightarrow> hm_contains (vprocs e) p \<Longrightarrow> exec_ok (e\<lparr>current := Some p\<rparr>)"
  "exec_ok e \<Longrightarrow> exec_ok (e\<lparr>current := None\<rparr>)"
  unfolding exec_ok_def by auto

lemma exec_ok_count: "exec_ok (e\<lparr>switch_count := n\<rparr>) = exec_ok e" "accounted (e\<lparr>switch_count := n\<rparr>) = accounted e"
  unfolding exec_ok_def accounted_def by auto

lemma pick_next_keeps:
  assumes "exec_ok (ex s)" and "accounted (ex s)" and "current (ex s) = None" and "pick_next s = (r, s1)"
  shows "exec_ok (ex s1) \<and> current (ex s1) = None \<and> vprocs (ex s1) = vprocs (ex s) \<and>
    (case r of None \<Rightarrow> accounted (ex s1)
     | Some p \<Rightarrow> accounted ((ex s1)\<lparr>current := Some p\<rparr>) \<and> hm_contains (vprocs (ex s1)) p)"
proof -
  obtain q' where pl: "pick_loop (vprocs (ex s)) (ready_queue (ex s)) = (r, q')"
    and s1: "s1 = with_queue (\<lambda>_. q') s"
    using pick_next_eq [OF assms(4)] by (metis prod.collapse)
  obtain dropped where drop: "\<forall>d \<in> set dropped. \<forall>c. hm_get (vprocs (ex s)) d = Some c \<longrightarrow> is_done c"
    and q: "case r of None \<Rightarrow> ready_queue (ex s) = dropped \<and> q' = []
     | Some p \<Rightarrow> ready_queue (ex s) = dropped @ p # q' \<and> (\<exists>c. hm_get (vprocs (ex s)) p = Some c \<and> \<not> is_done c)"
    using pick_loop_spec [OF pl] by blast
  have "exec_ok (ex s1)" unfolding s1 using assms(1) q
    by (auto intro!: exec_ok_queue split: option.splits)
  then show ?thesis using assms(2,3) q drop unfolding s1
    by (cases r) (fastforce simp: accounted_def is_done_def hm_contains_def)+
qed

text \<open>
  One driver step, for any behaviour of the coroutines: it returns, consistency is kept and
  no process is lost.
\<close>

lemma resume_keeps:
  assumes "run_ok run" and "sched_ok s" and "current (ex s) = Some pid"
  shows "\<exists>s'. resume run pid s = Some s' \<and> exec_ok (ex s') \<and> accounted ((ex s')\<lparr>current := None\<rparr>)"
proof -
  obtain c where c: "hm_get (vprocs (ex s)) pid = Some c"
    using exec_okD(5) [of "ex s" pid] assms(2,3) by (auto simp: sched_ok_def hm_contains_def)
  define s1 where "s1 = set_state Running pid s"
  have s1: "sched_ok s1" "current (ex s1) = Some pid"
    using assms(2,3) exec_ok_modify [of "ex s" "\<lambda>c. c\<lparr>state := Running\<rparr>" pid]
    by (auto simp: s1_def set_state_def sched_ok_def accounted_def split: if_splits)
  obtain s2 dead where run: "run (co c) s1 = (s2, dead)" by fastforce
  have "slice s1 s2" using assms(1) s1(2) run unfolding run_ok_def by (metis fst_conv option.discI)
  from slice_keeps [OF this s1(1)]
  have s2: "exec_ok (ex s2)" "current (ex s2) = Some pid" "accounted ((ex s2)\<lparr>current := None\<rparr>)"
    using s1(2) by auto
  obtain c2 where c2: "hm_get (vprocs (ex s2)) pid = Some c2"
    using exec_okD(5) [OF s2(1,2)] by (auto simp: hm_contains_def)
  have "exec_ok (ex (set_state st pid s2))" for st
    using s2(1) by (auto simp: set_state_def intro!: exec_ok_modify)
  moreover have "accounted ((ex (set_state st pid s2))\<lparr>current := None\<rparr>)" if "state c2 \<noteq> Done" for st
    using s2(3) c2 that by (auto simp: set_state_def accounted_def)
  ultimately show ?thesis
    using c run c2 s2 by (auto simp: resume_def s1_def [symmetric])
qed

lemma deliver_keeps:
  assumes "exec_ok (ex s)" and "accounted ((ex s)\<lparr>current := Some p\<rparr>)" and "hm_contains (vprocs (ex s)) p"
  shows "sched_ok (count_switch (set_current (Some p) (snd (deliver_signals p s))))"
proof -
  obtain c where c: "hm_get (vprocs (ex s)) p = Some c" using assms(3) by (auto simp: hm_contains_def)
  obtain f where f: "snd (deliver_signals p s) = with_vprocs (hm_modify p f) s"
    "\<forall>c. cid (f c) = cid c \<and> ppid (f c) = ppid c \<and> io_wait (f c) = io_wait c"
    using deliver_signals_eq [OF c] by auto
  have "exec_ok ((ex s)\<lparr>vprocs := hm_modify p f (vprocs (ex s))\<rparr>)"
    using assms(1) f(2) by (intro exec_ok_modify) auto
  then have "exec_ok ((ex s)\<lparr>vprocs := hm_modify p f (vprocs (ex s)), current := Some p\<rparr>)"
    using exec_ok_current(1) [of "(ex s)\<lparr>vprocs := hm_modify p f (vprocs (ex s))\<rparr>" p] assms(3) by simp
  moreover have "accounted ((ex s)\<lparr>vprocs := hm_modify p f (vprocs (ex s)), current := Some p\<rparr>)"
    using assms(2) by (auto simp: accounted_def split: if_splits)
  ultimately show ?thesis
    using f(1) by (simp add: sched_ok_def exec_ok_count)
qed

lemma drive_keeps:
  assumes "run_ok run" and "sched_ok s" and "current (ex s) = None"
  shows "\<exists>s'. step_from_driver run s = Some s' \<and> sched_ok s' \<and> current (ex s') = None"
proof -
  obtain r s1 where pick: "pick_next s = (r, s1)" by fastforce
  note keep = pick_next_keeps [OF _ _ assms(3) pick]
  show ?thesis
  proof (cases r)
    case None
    then show ?thesis using keep assms(2) pick by (auto simp: step_from_driver_def sched_ok_def)
  next
    case (Some p)
    let ?s2 = "count_switch (set_current (Some p) (snd (deliver_signals p s1)))"
    have "sched_ok ?s2"
      using keep Some assms(2) by (intro deliver_keeps) (auto simp: sched_ok_def)
    then obtain s' where "resume run p ?s2 = Some s'" "exec_ok (ex s')" "accounted ((ex s')\<lparr>current := None\<rparr>)"
      using resume_keeps [OF assms(1), of ?s2 p] by auto
    then show ?thesis using Some pick exec_ok_current(2)
      by (auto simp: step_from_driver_def sched_ok_def)
  qed
qed

end
