(* ===== verification/Scheduler.thy ===== *)
theory Scheduler
  imports Executor_Laws
begin

text \<open>
  The scheduler seen from outside (\<^verbatim>\<open>src/src/executor.rs\<close>): waking processes that wait for
  I/O, reaping finished ones, and the loop of the driver as a transition system whose
  invariant is \<^const>\<open>sched_ok\<close>. The properties: which process runs next, that every ready
  process runs after finitely many steps, what fork, exit, signals and reaping do.
\<close>

section \<open>Waking\<close>

lemma wake_one_keeps:
  assumes "sched_ok s" and "hm_contains (vprocs (ex s)) pid"
  shows "sched_ok (wake_one pid s) \<and> (\<forall>p. hm_contains (vprocs (ex (wake_one pid s))) p = hm_contains (vprocs (ex s)) p) \<and>
    current (ex (wake_one pid s)) = current (ex s)"
proof -
  let ?e = "(ex s)\<lparr>vprocs := hm_modify pid (\<lambda>c. c\<lparr>io_wait := None\<rparr>) (vprocs (ex s))\<rparr>"
  have "exec_ok ?e" using assms(1) by (intro exec_ok_modify) (auto simp: sched_ok_def)
  then have "exec_ok (?e\<lparr>ready_queue := if pid \<in> set (ready_queue ?e) then ready_queue ?e else ready_queue ?e @ [pid]\<rparr>)"
    using assms(2) by (intro exec_ok_queue) auto
  then show ?thesis using assms(1) by (fastforce simp: wake_one_def sched_ok_def accounted_def split: if_splits)
qed

lemma fold_wake_keeps:
  assumes "sched_ok s" and "\<forall>p \<in> set ps. hm_contains (vprocs (ex s)) p"
  shows "sched_ok (fold wake_one ps s) \<and> current (ex (fold wake_one ps s)) = current (ex s)"
  using assms
proof (induction ps arbitrary: s)
  case (Cons p ps)
  then show ?case using Cons.IH [of "wake_one p s"] wake_one_keeps [of s p] by simp
qed simp

lemma ready_by_fd_total:
  assumes "length pids = length ps"
  shows "\<exists>r. ready_by_fd ps pids acc = Some r \<and>
    (\<forall>x. x \<in> set r \<longleftrightarrow> x \<in> set acc \<or> (\<exists>i < length ps. pids ! i = x \<and> revents (ps ! i) \<noteq> 0))"
  using assms
proof (induction ps arbitrary: pids acc)
  case (Cons p ps)
  obtain pid rest where pids: "pids = pid # rest" using Cons.prems by (cases pids) auto
  define acc' where "acc' = (if revents p \<noteq> 0 \<and> pid \<notin> set acc then acc @ [pid] else acc)"
  obtain r where r: "ready_by_fd ps rest acc' = Some r"
    "\<And>x. x \<in> set r \<longleftrightarrow> x \<in> set acc' \<or> (\<exists>i < length ps. rest ! i = x \<and> revents (ps ! i) \<noteq> 0)"
    using Cons.IH [of rest acc'] Cons.prems pids by auto
  have "ready_by_fd (p # ps) pids acc = Some r" using r(1) by (auto simp: pids acc'_def)
  moreover have "x \<in> set r \<longleftrightarrow> x \<in> set acc \<or>
      (\<exists>i < length (p # ps). pids ! i = x \<and> revents ((p # ps) ! i) \<noteq> 0)" for x
    unfolding r(2) pids list.size add_Suc_right add_0_right Ex_less_Suc2 by (auto simp: acc'_def)
  ultimately show ?case by blast
qed simp

lemma set_ready_by_deadline:
  "set (ready_by_deadline now vs acc) = set acc \<union> {pid. \<exists>c. (pid, c) \<in> set vs \<and> expired now c}"
proof (induction vs arbitrary: acc)
  case (Cons v vs)
  then show ?case by (cases v) (auto simp: ready_by_deadline_def)
qed (simp add: ready_by_deadline_def)

lemma collected_pid_live:
  "pid \<in> set (snd (collect_io_waits s)) \<Longrightarrow> \<exists>c. (pid, c) \<in> set (vprocs (ex s))"
  by (auto simp: collect_io_waits_def Let_def split: option.splits)

lemma collect_lengths: "length (fst (collect_io_waits s)) = length (snd (collect_io_waits s))"
  by (simp add: collect_io_waits_def Let_def)

lemma wake_eq:
  assumes "exec_ok (ex s)" and "length pfs = length (fst (collect_io_waits s))"
  shows "\<exists>ps. wake_io_ready pfs (snd (collect_io_waits s)) now s = Some (fold wake_one ps s) \<and>
    set ps = {pid. \<exists>c. hm_get (vprocs (ex s)) pid = Some c \<and>
      ((\<exists>i < length pfs. snd (collect_io_waits s) ! i = pid \<and> revents (pfs ! i) \<noteq> 0) \<or> expired now c)}"
proof -
  let ?pids = "snd (collect_io_waits s)"
  have ok: "hm_ok (vprocs (ex s))" using assms(1) by (rule exec_okD)
  have len: "length ?pids = length pfs" using assms(2) collect_lengths by metis
  obtain r where r: "ready_by_fd pfs ?pids [] = Some r"
    "\<And>x. x \<in> set r \<longleftrightarrow> (\<exists>i < length pfs. ?pids ! i = x \<and> revents (pfs ! i) \<noteq> 0)"
    using ready_by_fd_total [OF len, of "[]"] by auto
  have "\<exists>c. hm_get (vprocs (ex s)) (?pids ! i) = Some c" if "i < length pfs" for i
    using collected_pid_live [OF nth_mem [of i ?pids]] that len by (auto simp: hm_ok_get_iff [OF ok])
  then have "set (ready_by_deadline now (vprocs (ex s)) r) = {pid. \<exists>c. hm_get (vprocs (ex s)) pid = Some c \<and>
      ((\<exists>i < length pfs. ?pids ! i = pid \<and> revents (pfs ! i) \<noteq> 0) \<or> expired now c)}"
    unfolding set_ready_by_deadline hm_ok_get_iff [OF ok, symmetric]
    by (intro set_eqI) (auto simp: r(2))
  then show ?thesis using r(1) by (auto simp: wake_io_ready_def)
qed

section \<open>Reaping\<close>

lemma reap_loop_eq:
  "fst (reap_loop vs s) = hm_retain (\<lambda>_ c. \<not> is_done c) vs \<and> ex (snd (reap_loop vs s)) = ex s \<and>
   ex_set (snd (reap_loop vs s)) = ex_set s \<and> mco_running (snd (reap_loop vs s)) = mco_running s"
proof (induction vs arbitrary: s)
  case (Cons v vs)
  then show ?case by (cases v) (auto simp: hm_retain_def Let_def case_prod_beta emit_def)
qed (simp add: hm_retain_def)

lemma prune_kids_get:
  "hm_ok m \<Longrightarrow> hm_get (prune_kids vs m) p =
     (case hm_get m p of None \<Rightarrow> None
      | Some kids \<Rightarrow> if filter (hm_contains vs) kids = [] then None else Some (filter (hm_contains vs) kids))"
proof (induction m)
  case (Cons x m)
  obtain q kids where x: "x = (q, kids)" by fastforce
  have "hm_get m q = None" using Cons.prems x
    by (auto simp: hm_ok_def hm_keys_def hm_get_def map_of_eq_None_iff)
  moreover have "hm_ok m" using Cons.prems by (simp add: hm_ok_def hm_keys_def)
  ultimately show ?case using Cons.IH x
    by (auto simp: prune_kids_def hm_get_Cons)
qed (simp add: prune_kids_def)

lemma hm_ok_prune: "hm_ok m \<Longrightarrow> hm_ok (prune_kids vs m)"
  by (induction m) (force simp: prune_kids_def hm_ok_def hm_keys_def)+

lemma fold_hm_remove_get: "hm_get (fold hm_remove ks m) k = (if k \<in> set ks then None else hm_get m k)"
  by (induction ks arbitrary: m) auto

lemma fold_hm_remove_ok: "hm_ok m \<Longrightarrow> hm_ok (fold hm_remove ks m)"
  by (induction ks arbitrary: m) auto

text \<open>What reaping leaves in the executor.\<close>

lemma reap_done_ex:
  "ex (reap_done_coroutines s) = (ex s)\<lparr>
      vprocs := hm_retain (\<lambda>_ c. \<not> is_done c) (vprocs (ex s)),
      children := prune_kids (vprocs (ex s))
        (fold hm_remove (map fst (filter (\<lambda>(pid, c). is_done c) (vprocs (ex s)))) (children (ex s)))\<rparr>"
  using reap_loop_eq
  by (simp add: reap_done_coroutines_def Let_def case_prod_beta with_children_def with_vprocs_def)

lemma ex_set_reap [simp]: "ex_set (reap_done_coroutines s) = ex_set s"
  using reap_loop_eq
  by (simp add: reap_done_coroutines_def Let_def case_prod_beta with_children_def with_vprocs_def)

lemma reap_keeps:
  assumes "sched_ok s" and "current (ex s) = None"
  shows "sched_ok (reap_done_coroutines s)"
proof -
  let ?e = "ex s"
  define m where "m = prune_kids (vprocs ?e)
        (fold hm_remove (map fst (filter (\<lambda>(pid, c). is_done c) (vprocs ?e))) (children ?e))"
  have ok: "exec_ok ?e" "accounted ?e" using assms(1) by (auto simp: sched_ok_def)
  note ch = fold_hm_remove_ok [OF exec_okD(2) [OF ok(1)]]
  have "exec_ok (?e\<lparr>children := m\<rparr>)"
  proof (rule exec_ok_children [OF ok(1)])
    fix p ks'
    assume "hm_get m p = Some ks'"
    then show "\<exists>ks P. hm_get (children ?e) p = Some ks \<and> ks' = filter P ks"
      unfolding m_def prune_kids_get [OF ch] fold_hm_remove_get by (auto split: if_splits option.splits)
  qed (simp add: m_def ch hm_ok_prune)
  then have "exec_ok (?e\<lparr>children := m, vprocs := hm_retain (\<lambda>_ c. \<not> is_done c) (vprocs ?e)\<rparr>)"
    using assms(2) hm_get_retain [OF exec_okD(1) [OF ok(1)]]
    unfolding exec_ok_def by (auto split: option.splits if_splits)
  moreover have "ex (reap_done_coroutines s) =
      ?e\<lparr>children := m, vprocs := hm_retain (\<lambda>_ c. \<not> is_done c) (vprocs ?e)\<rparr>"
    unfolding reap_done_ex m_def by (cases ?e) simp
  moreover have "accounted (?e\<lparr>children := m, vprocs := hm_retain (\<lambda>_ c. \<not> is_done c) (vprocs ?e)\<rparr>)"
    using ok(2) hm_get_retain [OF exec_okD(1) [OF ok(1)]]
    by (auto simp: accounted_def split: option.splits if_splits)
  ultimately show ?thesis by (simp add: sched_ok_def)
qed

section \<open>The driver loop\<close>

text \<open>
  What the driver thread does between two of its iterations: a scheduler step, an operation
  of its own, a batch poll of all waiting descriptors, or a reap.
\<close>

inductive sched_step :: "sys \<Rightarrow> sys \<Rightarrow> bool" where
  drive: "run_ok run \<Longrightarrow> current (ex s) = None \<Longrightarrow> step_from_driver run s = Some s' \<Longrightarrow> sched_step s s'"
| launch: "current (ex s) = None \<Longrightarrow> body_step s s' \<Longrightarrow> sched_step s s'"
| poll: "current (ex s) = None \<Longrightarrow> length pfs = length (fst (collect_io_waits s)) \<Longrightarrow>
    wake_io_ready pfs (snd (collect_io_waits s)) now s = Some s' \<Longrightarrow> sched_step s s'"
| reap: "current (ex s) = None \<Longrightarrow> sched_step s (reap_done_coroutines s)"

inductive_cases sched_stepE: "sched_step s s'"

definition idle_ok :: "sys \<Rightarrow> bool" where
  "idle_ok s \<longleftrightarrow> sched_ok s \<and> current (ex s) = None"

lemma sched_step_keeps:
  assumes "sched_step s s'" and "idle_ok s"
  shows "idle_ok s'"
  using assms
proof (induction rule: sched_step.induct)
  case (drive run s s')
  then show ?case using drive_keeps [of run s] by (auto simp: idle_ok_def)
next
  case (launch s s')
  then show ?case using body_step_keeps by (auto simp: idle_ok_def)
next
  case (poll s pfs now s')
  have "exec_ok (ex s)" using poll.prems by (simp add: idle_ok_def sched_ok_def)
  from wake_eq [OF this poll.hyps(2), of now] obtain ps where ps: "s' = fold wake_one ps s"
    "set ps = {pid. \<exists>c. hm_get (vprocs (ex s)) pid = Some c \<and>
      ((\<exists>i < length pfs. snd (collect_io_waits s) ! i = pid \<and> revents (pfs ! i) \<noteq> 0) \<or> expired now c)}"
    using poll.hyps(3) by auto
  then have "\<forall>p \<in> set ps. hm_contains (vprocs (ex s)) p" by (auto simp: hm_contains_def)
  with ps(1) show ?case using fold_wake_keeps [of s ps] poll.prems by (simp add: idle_ok_def)
next
  case (reap s)
  then show ?case using reap_keeps [of s] reap_done_ex by (simp add: idle_ok_def sched_ok_def)
qed

lemma idle_ok_init: "ex s = executor_new \<Longrightarrow> idle_ok s"
  by (simp add: idle_ok_def sched_ok_def exec_ok_def accounted_def executor_new_def)

interpretation sched: transition_system "\<lambda>s. ex s = executor_new" sched_step idle_ok
  by unfold_locales (auto intro: idle_ok_init sched_step_keeps)

text \<open>
  C3. Whatever the coroutines do with the runtime's operations, in every state the driver
  reaches: process ids are unique and below the next one, the process tree is acyclic (a
  child's id is above its parent's) with each child listed once and under its parent, and
  no live process is lost: it is in the ready queue or waits for I/O.
\<close>

theorem scheduler_invariant:
  assumes "ex s\<^sub>0 = executor_new" and "sched_step\<^sup>*\<^sup>* s\<^sub>0 s"
  shows "exec_ok (ex s) \<and> (\<forall>pid c. hm_get (vprocs (ex s)) pid = Some c \<longrightarrow> \<not> is_done c \<longrightarrow>
    pid \<in> set (ready_queue (ex s)) \<or> io_wait c \<noteq> None)"
  using sched.reachable_inv [OF assms]
  by (force simp: idle_ok_def sched_ok_def accounted_def is_done_def)

definition sys_init :: sys where
  "sys_init = \<lparr>ex_set = True, ex = executor_new, mco_running = None, fdw = fd_world_init, trace = []\<rparr>"

theorem scheduler_invariant_witness:
  "\<exists>s. spawn 0 (Some 0) sys_init = Some (1, s) \<and> exec_ok (ex s) \<and> 1 \<in> set (ready_queue (ex s))"
proof -
  obtain s where s: "spawn 0 (Some 0) sys_init = Some (1, s)"
    by (simp add: spawn_def coroutine_new_def sys_init_def executor_new_def sys_defs Let_def)
  have init: "ex sys_init = executor_new" by (simp add: sys_init_def)
  have "body_step sys_init s" using s by (intro b_spawn) (simp_all add: init executor_new_def)
  then have "sched_step sys_init s" by (intro launch) (simp_all add: init executor_new_def)
  then have "exec_ok (ex s)" using scheduler_invariant [OF init, of s] by blast
  moreover have "1 \<in> set (ready_queue (ex s))"
    using s by (auto simp: spawn_def coroutine_new_def sys_init_def executor_new_def sys_defs Let_def)
  ultimately show ?thesis using s by blast
qed

definition live :: "VPid \<Rightarrow> sys \<Rightarrow> bool" where
  "live pid s \<longleftrightarrow> (\<exists>c. hm_get (vprocs (ex s)) pid = Some c \<and> \<not> is_done c)"

text \<open>
  The process picked is the first live one of the queue; it and the finished or unknown
  ones before it leave the queue, which otherwise keeps its order, and nothing else changes.
\<close>

theorem pick_next_first_live:
  "pick_next s = (find (\<lambda>p. live p s) (ready_queue (ex s)),
     with_queue (\<lambda>q. tl (dropWhile (\<lambda>p. \<not> live p s) q)) s)"
proof -
  have "pick_loop (vprocs (ex s)) q =
      (find (\<lambda>p. live p s) q, tl (dropWhile (\<lambda>p. \<not> live p s) q))" for q
    by (induction q) (auto simp: live_def split: option.split)
  then show ?thesis by (simp add: pick_next_def with_queue_def)
qed

section \<open>Fairness\<close>

text \<open>
  Coroutines that only append to the queue (everything but \<^verbatim>\<open>spawn_front\<close>) and finish no
  process but themselves.
\<close>

definition polite :: "(handle \<Rightarrow> sys \<Rightarrow> sys \<times> bool) \<Rightarrow> bool" where
  "polite run \<longleftrightarrow> (\<forall>h s.
     (\<exists>xs. ready_queue (ex (fst (run h s))) = ready_queue (ex s) @ xs) \<and>
     (\<forall>p. current (ex s) \<noteq> Some p \<longrightarrow> live p s \<longrightarrow> live p (fst (run h s))))"

text \<open>\<open>n\<close> driver steps: which process each of them ran, and the final state.\<close>

fun drive_n :: "(handle \<Rightarrow> sys \<Rightarrow> sys \<times> bool) \<Rightarrow> nat \<Rightarrow> sys \<Rightarrow> (VPid option list \<times> sys) option" where
  "drive_n run 0 s = Some ([], s)"
| "drive_n run (Suc n) s =
     Option.bind (step_from_driver run s) (\<lambda>s'.
     map_option (\<lambda>(ps, s''). (fst (pick_next s) # ps, s'')) (drive_n run n s'))"

lemma drive_n_total:
  "run_ok run \<Longrightarrow> idle_ok s \<Longrightarrow> \<exists>ps s'. drive_n run n s = Some (ps, s') \<and> idle_ok s'"
proof (induction n arbitrary: s)
  case (Suc n)
  then obtain s1 where "step_from_driver run s = Some s1" "idle_ok s1"
    using drive_keeps [of run s] by (auto simp: idle_ok_def)
  then show ?case using Suc.IH [of s1] Suc.prems by auto
qed simp

lemma drive_preserves_waiting:
  assumes "polite run" and "step_from_driver run s = Some s'" and "pick_next s = (Some p, s1)"
    and "pid \<noteq> p" and "live pid s"
  shows "live pid s' \<and> (\<exists>xs. ready_queue (ex s') = ready_queue (ex s1) @ xs)"
proof -
  define s2 where "s2 = set_state Running p (count_switch (set_current (Some p) (snd (deliver_signals p s1))))"
  have v1: "vprocs (ex s1) = vprocs (ex s)" using pick_next_eq(1) [OF assms(3)] by simp
  have del: "hm_get (vprocs (ex (snd (deliver_signals p s1)))) pid = hm_get (vprocs (ex s1)) pid"
    "ready_queue (ex (snd (deliver_signals p s1))) = ready_queue (ex s1)"
    using assms(4) by (auto simp: deliver_signals_def signal_loop_eq split: option.splits)
  then have s2: "live pid s2" "ready_queue (ex s2) = ready_queue (ex s1)" "current (ex s2) = Some p"
    using assms(4,5) v1 by (auto simp: s2_def set_state_def live_def)
  obtain c where c: "hm_get (vprocs (ex (count_switch (set_current (Some p) (snd (deliver_signals p s1)))))) p = Some c"
    using assms(2,3) by (auto simp: step_from_driver_def resume_def split: bind_splits)
  define s3 where "s3 = fst (run (co c) s2)"
  have "resume run p (count_switch (set_current (Some p) (snd (deliver_signals p s1)))) = Some s4 \<Longrightarrow>
      s4 = s3 \<or> (\<exists>st. s4 = set_state st p s3)" for s4
    using c by (auto simp: resume_def s2_def [symmetric] s3_def [symmetric] case_prod_beta Let_def split: if_splits)
  then have s3: "s' = set_current None s3 \<or> (\<exists>st. s' = set_current None (set_state st p s3))"
    using assms(2,3) by (auto simp: step_from_driver_def)
  have "live pid s3" "\<exists>xs. ready_queue (ex s3) = ready_queue (ex s2) @ xs"
    using assms(1,4) s2(1,3) unfolding polite_def s3_def by (simp, blast)
  then show ?thesis using s3 s2(2) assms(4) by (auto simp: live_def set_state_def)
qed

lemma runs_within:
  assumes "run_ok run" and "polite run" and "idle_ok s" and "live pid s"
    and "i < length (ready_queue (ex s))" and "ready_queue (ex s) ! i = pid" and "i < n"
    and "drive_n run n s = Some (ps, s')"
  shows "Some pid \<in> set ps"
  using assms
proof (induction n arbitrary: s i ps)
  case (Suc n)
  obtain r s1 where pick: "pick_next s = (r, s1)" by fastforce
  obtain s2 where step: "step_from_driver run s = Some s2" and ok2: "idle_ok s2"
    using drive_keeps [OF Suc.prems(1), of s] Suc.prems(3) by (auto simp: idle_ok_def)
  obtain ps2 where ps: "ps = r # ps2" and rest: "drive_n run n s2 = Some (ps2, s')"
    using Suc.prems(8) step pick by auto
  define q' where "q' = snd (pick_loop (vprocs (ex s)) (ready_queue (ex s)))"
  have pl: "pick_loop (vprocs (ex s)) (ready_queue (ex s)) = (r, q')" and q1: "ready_queue (ex s1) = q'"
    using pick_next_eq [OF pick] by (simp_all add: q'_def)
  obtain dropped where dropped: "\<forall>d \<in> set dropped. \<forall>c. hm_get (vprocs (ex s)) d = Some c \<longrightarrow> is_done c"
    and q: "case r of None \<Rightarrow> ready_queue (ex s) = dropped \<and> q' = []
     | Some p \<Rightarrow> ready_queue (ex s) = dropped @ p # q' \<and> (\<exists>c. hm_get (vprocs (ex s)) p = Some c \<and> \<not> is_done c)"
    using pick_loop_spec [OF pl] by blast
  have nin: "pid \<notin> set dropped" using dropped Suc.prems(4) by (auto simp: live_def)
  then obtain p where p: "r = Some p" "ready_queue (ex s) = dropped @ p # q'"
    using q Suc.prems(5,6) by (cases r) auto
  show ?case
  proof (cases "pid = p")
    case False
    from drive_preserves_waiting [OF Suc.prems(2) step pick [unfolded p(1)] False Suc.prems(4)]
    obtain xs where live2: "live pid s2" and q2: "ready_queue (ex s2) = q' @ xs" using q1 by auto
    have "\<not> i < length dropped" "i \<noteq> length dropped"
      using nin False Suc.prems(5,6) p(2) by (auto simp: nth_append)
    then have j: "i - length dropped - 1 < length q'" "q' ! (i - length dropped - 1) = pid" "i - length dropped - 1 < n"
      using Suc.prems(5-7) p(2) by (auto simp: nth_append nth_Cons')
    then have "Some pid \<in> set ps2"
      using Suc.IH [OF Suc.prems(1,2) ok2 live2 _ _ j(3) rest] q2 by (simp add: nth_append)
    then show ?thesis by (simp add: ps)
  qed (simp add: ps p(1))
qed simp

text \<open>
  C4. Round robin: a live process at position \<open>i\<close> of the ready queue is run within \<open>i + 1\<close>
  driver steps, all of which return, whatever the coroutines do, as long as they do not
  push others to the front of the queue or finish other processes.
\<close>

theorem ready_process_runs:
  assumes "run_ok run" and "polite run" and "idle_ok s" and "live pid s"
    and "i < length (ready_queue (ex s))" and "ready_queue (ex s) ! i = pid"
  shows "\<exists>ps s'. drive_n run (Suc i) s = Some (ps, s') \<and> Some pid \<in> set ps"
  using drive_n_total [OF assms(1,3), of "Suc i"] runs_within [OF assms, of "Suc i"] by auto

text \<open>The coroutine that yields at once whenever it is resumed.\<close>

definition yielder :: "handle \<Rightarrow> sys \<Rightarrow> sys \<times> bool" where
  "yielder h s = (requeue_alive (current (ex s)) s, False)"

lemma yielder_ok: "run_ok yielder" "polite yielder"
proof -
  have "slice s (requeue_alive (current (ex s)) s)" for s unfolding slice_def by blast
  then show "run_ok yielder" by (simp add: run_ok_def yielder_def)
  show "polite yielder"
    by (auto simp: polite_def yielder_def requeue_alive_def live_def split: option.splits)
qed

theorem ready_process_runs_witness:
  "\<exists>s1 s2 ps s'. spawn 0 (Some 0) sys_init = Some (1, s1) \<and> spawn 1 (Some 1) s1 = Some (2, s2) \<and>
     drive_n yielder 2 s2 = Some (ps, s') \<and> Some 2 \<in> set ps"
proof -
  have init: "idle_ok sys_init" by (rule idle_ok_init) (simp add: sys_init_def)
  obtain s1 where s1: "spawn 0 (Some 0) sys_init = Some (1, s1)"
    by (simp add: spawn_def coroutine_new_def sys_init_def executor_new_def sys_defs Let_def)
  have "sched_ok s1" by (rule spawn_keeps [OF _ _ s1])
      (use init in \<open>simp_all add: idle_ok_def sys_init_def executor_new_def\<close>)
  obtain c1 where e1: "ex s1 = (ex sys_init)\<lparr>next_pid := 2, vprocs := hm_insert 1 c1 (vprocs (ex sys_init)),
      ready_queue := [1]\<rparr>"
    using spawn_eq [OF s1] init by (auto simp: idle_ok_def sched_ok_def sys_init_def executor_new_def)
  obtain s2 where s2: "spawn 1 (Some 1) s1 = Some (2, s2)"
    by (simp add: spawn_def coroutine_new_def bump_pid_def Let_def e1)
  have ok2: "sched_ok s2" by (rule spawn_keeps [OF \<open>sched_ok s1\<close> _ s2]) (simp add: e1)
  obtain c2 where e2: "coroutine_new 2 1 (Some 1) = Some c2"
    "ex s2 = (ex s1)\<lparr>next_pid := 3, vprocs := hm_insert 2 c2 (vprocs (ex s1)), ready_queue := [1, 2]\<rparr>"
    using spawn_eq [OF s2] \<open>sched_ok s1\<close> by (auto simp: sched_ok_def e1)
  have "idle_ok s2" using ok2 by (simp add: idle_ok_def e1 e2 sys_init_def executor_new_def)
  moreover have "live 2 s2"
  proof -
    have "hm_get (vprocs (ex s2)) 2 = Some c2" unfolding e2(2) by simp
    moreover have "state c2 = Ready" using e2(1) unfolding coroutine_new_def by auto
    ultimately show ?thesis unfolding live_def is_done_def by simp
  qed
  moreover have "1 < length (ready_queue (ex s2))" "ready_queue (ex s2) ! 1 = 2" by (simp_all add: e2(2))
  ultimately have "\<exists>ps s'. drive_n yielder (Suc 1) s2 = Some (ps, s') \<and> Some 2 \<in> set ps"
    by (rule ready_process_runs [OF yielder_ok])
  then show ?thesis using s1 s2 unfolding Suc_1 by blast
qed

end
