(* ===== verification/Lifecycle.thy ===== *)
theory Lifecycle
  imports Scheduler
begin

text \<open>
  The life of a virtual process (\<^verbatim>\<open>src/src/executor.rs\<close>, \<^verbatim>\<open>src/src/coroutine.rs\<close>): what fork
  gives the child, how exit codes travel to the parent, what a fatal signal does on each of
  the scheduler's paths, what reaping releases, and who is woken after a poll.
\<close>

section \<open>Fork and exit\<close>

text \<open>
  Fork creates exactly one process: a fresh id at the end of the ready queue, ready to
  run, with the parent's working directory and a descriptor table cloned from the parent's;
  the parent learns the child's id and lists it; every other process is unchanged.
\<close>

theorem fork_creates_child:
  assumes "exec_ok (ex s)" and "ex_set s" and "hm_get (vprocs (ex s)) parent = Some c"
    and "n = next_pid (ex s)"
  shows "\<exists>s' k. spawn_fork_child parent (Some h) s = Some (n, s') \<and>
    hm_get (vprocs (ex s)) n = None \<and> hm_get (vprocs (ex s')) n = Some k \<and>
    ppid k = parent \<and> cwd k = cwd c \<and> state k = Ready \<and> is_fork_child k \<and> pending_signals k = [] \<and>
    hm_get (vprocs (ex s')) parent = Some (c\<lparr>fork_child_pid := n\<rparr>) \<and>
    (\<forall>p. p \<noteq> n \<longrightarrow> p \<noteq> parent \<longrightarrow> hm_get (vprocs (ex s')) p = hm_get (vprocs (ex s)) p) \<and>
    ready_queue (ex s') = ready_queue (ex s) @ [n] \<and> is_child_of parent n s' \<and>
    fdw s' = fork_fd_table parent n (fdw s)"
proof -
  have "parent \<noteq> n" "hm_get (vprocs (ex s)) n = None"
    using exec_okD(3) [OF assms(1,3)] fresh_pid [OF assms(1)] assms(4) by auto
  then show ?thesis
    using spawn_fork_child_eq [OF assms(1,3), of "Some h"] assms(2,3,4)
    by (auto simp: is_child_of_def push_child_get)
qed

definition sys_one :: sys where
  "sys_one = (case spawn 0 (Some 0) sys_init of Some (pid, s) \<Rightarrow> s)"

lemma sys_one_spawn: "spawn 0 (Some 0) sys_init = Some (1, sys_one)"
  by (simp add: sys_one_def spawn_def coroutine_new_def sys_init_def executor_new_def sys_defs Let_def)

lemma sys_one_facts: "sched_ok sys_one" "ex_set sys_one" "next_pid (ex sys_one) = 2"
  "current (ex sys_one) = None" "ready_queue (ex sys_one) = [1]"
  "exit_codes (ex sys_one) = []"
proof -
  have init: "idle_ok sys_init" by (rule idle_ok_init) (simp add: sys_init_def)
  show "sched_ok sys_one" by (rule spawn_keeps [OF _ _ sys_one_spawn])
      (use init in \<open>simp_all add: idle_ok_def sys_init_def executor_new_def\<close>)
qed (simp_all add: sys_one_def spawn_def coroutine_new_def sys_init_def executor_new_def sys_defs Let_def)

lemma sys_one_proc: "hm_get (vprocs (ex sys_one)) 1 =
    Some \<lparr>cid = 1, ppid = 0, co = 0, userdata = \<lparr>ud_exit_code = 0, closure = Some 0\<rparr>,
        state = Ready, exit_code = 0, is_fork_child = False, fork_child_pid = 0, c_strings = [],
        mapped_regions = [], pending_signals = [], cwd = None, binary_path = None, io_wait = None,
        stack_alloc = None\<rparr>"
  by (simp add: sys_one_def spawn_def coroutine_new_def sys_init_def executor_new_def sys_defs Let_def)

theorem fork_creates_child_witness:
  "\<exists>s'. spawn_fork_child 1 (Some 7) sys_one = Some (2, s') \<and> is_child_of 1 2 s'"
  using fork_creates_child [of sys_one 1 _ 2 7] sys_one_facts sys_one_proc
  by (simp add: sched_ok_def) blast

text \<open>
  An exit code outlives the process: after the running process exits with a code and is
  reaped, its id is gone from the process table, its parent still reads that code, and
  forgetting the code makes it unreadable.
\<close>

theorem exit_code_survives_reap:
  assumes "exec_ok (ex s)" and "ex_set s" and "current (ex s) = Some pid"
    and "s' = reap_done_coroutines (set_current None (vproc_exit_with_code code s))"
  shows "get_exit_code pid s' = Some code \<and> hm_get (vprocs (ex s')) pid = None \<and>
    get_exit_code pid (remove_exit_code pid s') = None"
proof -
  define s1 where "s1 = set_current None (vproc_exit_with_code code s)"
  have e1: "vprocs (ex s1) = hm_modify pid (\<lambda>c. c\<lparr>state := Done, exit_code := code\<rparr>) (vprocs (ex s))"
    "exit_codes (ex s1) = hm_insert pid code (exit_codes (ex s))" "ex_set s1"
    using assms(2,3) by (auto simp: s1_def vproc_exit_with_code_def sys_defs)
  have ok: "hm_ok (vprocs (ex s1))" using assms(1) by (simp add: e1 exec_ok_def)
  have e': "vprocs (ex s') = hm_retain (\<lambda>_ c. \<not> is_done c) (vprocs (ex s1))"
    "exit_codes (ex s') = exit_codes (ex s1)" "ex_set s'"
    unfolding assms(4) s1_def [symmetric] by (simp_all add: reap_done_ex e1(3))
  have "hm_get (vprocs (ex s')) pid = None"
    unfolding e' hm_get_retain [OF ok] by (auto simp: e1 is_done_def split: option.splits)
  then show ?thesis
    using e' e1 by (simp add: get_exit_code_def remove_exit_code_def with_exit_codes_def)
qed

theorem exit_code_survives_reap_witness:
  "get_exit_code 1 (reap_done_coroutines
     (set_current None (vproc_exit_with_code 3 (set_current (Some 1) sys_one)))) = Some 3"
proof -
  have "exec_ok (ex (set_current (Some 1) sys_one))"
    using sys_one_facts(1) sys_one_proc by (auto simp: sched_ok_def hm_contains_def intro!: exec_ok_current)
  then show ?thesis
    using exit_code_survives_reap [of "set_current (Some 1) sys_one" 1 _ 3] sys_one_facts(2)
    by (simp add: set_current_def)
qed

section \<open>Signals\<close>

text \<open>
  A fatal signal on the scheduler's own path: a process that is picked with a pending
  SIGKILL or SIGTERM is finished with code 128 plus the first such signal, without its code
  being run.
\<close>

theorem fatal_signal_finishes:
  assumes "pick_next s = (Some pid, s1)" and "hm_get (vprocs (ex s)) pid = Some c"
    and "fatal (pending_signals c) = Some sig"
  shows "\<exists>s' c'. step run s = Some (True, s') \<and> hm_get (vprocs (ex s')) pid = Some c' \<and>
    state c' = Done \<and> exit_code c' = 128 + sig \<and> switch_count (ex s') = switch_count (ex s)"
proof -
  have v: "vprocs (ex s1) = vprocs (ex s)" "switch_count (ex s1) = switch_count (ex s)"
    using pick_next_eq(1) [OF assms(1)] by simp_all
  obtain f where "deliver_signals pid s1 = (True, with_vprocs (hm_modify pid f) s1)"
      "f c = set_done (128 + sig) (c\<lparr>pending_signals := []\<rparr>)"
    using deliver_signals_eq [of s1 pid c] assms(2,3) v by auto
  then show ?thesis
    using assms(1,2) v by (auto simp: step_def set_done_def split: option.split)
qed

definition kill_one :: "c_int \<Rightarrow> sys" where
  "kill_one sig = with_vprocs (hm_modify 1 (\<lambda>c. c\<lparr>pending_signals := [sig]\<rparr>)) sys_one"

lemma kill_one_pick: "\<exists>s1. pick_next (kill_one sig) = (Some 1, s1)"
  using sys_one_facts(5) sys_one_proc
  by (simp add: kill_one_def pick_next_def is_done_def)

theorem fatal_signal_finishes_witness:
  "\<exists>s' c'. step yielder (kill_one 9) = Some (True, s') \<and> hm_get (vprocs (ex s')) 1 = Some c' \<and>
     state c' = Done \<and> exit_code c' = 137"
proof -
  obtain s1 where "pick_next (kill_one 9) = (Some 1, s1)" using kill_one_pick by blast
  from fatal_signal_finishes [OF this, of _ 9 yielder] show ?thesis
    using sys_one_proc by (simp add: kill_one_def) blast
qed

text \<open>
  C39. The driver path ignores the outcome of the delivery: a process killed there is resumed
  all the same, and when its code merely yields it is alive and queued again afterwards,
  with the signal consumed: the kill is lost.
\<close>

theorem driver_loses_kill:
  assumes "idle_ok s" and "pick_next s = (Some pid, s1)" and "hm_get (vprocs (ex s)) pid = Some c"
    and "fatal (pending_signals c) = Some sig"
  shows "\<exists>s' c'. step_from_driver yielder s = Some s' \<and> hm_get (vprocs (ex s')) pid = Some c' \<and>
    \<not> is_done c' \<and> pending_signals c' = [] \<and> pid \<in> set (ready_queue (ex s'))"
proof -
  have v: "vprocs (ex s1) = vprocs (ex s)" using pick_next_eq(1) [OF assms(2)] by simp
  obtain f where f: "snd (deliver_signals pid s1) = with_vprocs (hm_modify pid f) s1"
      "f c = set_done (128 + sig) (c\<lparr>pending_signals := []\<rparr>)"
    using deliver_signals_eq [of s1 pid c] assms(3,4) v by auto
  then show ?thesis
    using assms(2,3) v
    by (auto simp: step_from_driver_def resume_def yielder_def requeue_alive_def set_state_def
        is_done_def set_done_def)
qed

theorem driver_loses_kill_witness:
  "\<exists>s' c'. step_from_driver yielder (kill_one 9) = Some s' \<and> hm_get (vprocs (ex s')) 1 = Some c' \<and>
     \<not> is_done c' \<and> pending_signals c' = []"
proof -
  obtain s1 where "pick_next (kill_one 9) = (Some 1, s1)" using kill_one_pick by blast
  moreover have "sched_ok (kill_one 9)" unfolding kill_one_def
    by (rule update_keeps [OF sys_one_facts(1)]) simp
  then have "idle_ok (kill_one 9)" using sys_one_facts(4) by (simp add: idle_ok_def kill_one_def)
  ultimately show ?thesis
    using driver_loses_kill [of "kill_one 9" 1 s1 _ 9] sys_one_proc by (auto simp: kill_one_def)
qed

text \<open>
  The code of a process finished by a signal is kept only in its coroutine: once it is
  reaped, its parent can no longer read an exit code for it.
\<close>

theorem killed_exit_code_lost:
  assumes "exec_ok (ex s)" and "pick_next s = (Some pid, s1)" and "hm_get (vprocs (ex s)) pid = Some c"
    and "fatal (pending_signals c) = Some sig" and "ex_set s" and "hm_get (exit_codes (ex s)) pid = None"
  shows "\<exists>s'. step run s = Some (True, s') \<and> get_exit_code pid s' = Some (128 + sig) \<and>
    get_exit_code pid (reap_done_coroutines s') = None"
proof -
  have v: "vprocs (ex s1) = vprocs (ex s)" "exit_codes (ex s1) = exit_codes (ex s)" "ex_set s1 = ex_set s"
    using pick_next_eq(1) [OF assms(2)] by (simp_all add: with_queue_def)
  obtain f where f: "deliver_signals pid s1 = (True, with_vprocs (hm_modify pid f) s1)"
      "f c = set_done (128 + sig) (c\<lparr>pending_signals := []\<rparr>)"
    using deliver_signals_eq [of s1 pid c] assms(3,4) v(1) by auto
  define s2 where "s2 = with_vprocs (hm_modify pid f) s1"
  have s2: "hm_get (vprocs (ex s2)) pid = Some (f c)" "exit_codes (ex s2) = exit_codes (ex s)" "ex_set s2"
    "hm_ok (vprocs (ex s2))" "state (f c) = Done" "exit_code (f c) = 128 + sig"
    using assms(1,3,5) v by (auto simp: s2_def f(2) set_done_def exec_ok_def with_vprocs_def)
  have "\<exists>s'. step run s = Some (True, s') \<and> vprocs (ex s') = vprocs (ex s2) \<and>
      exit_codes (ex s') = exit_codes (ex s2) \<and> ex_set s' = ex_set s2"
    using assms(2) f(1) by (auto simp: step_def s2_def [symmetric] with_queue_def split: option.split)
  then obtain s' where "step run s = Some (True, s')" and s': "vprocs (ex s') = vprocs (ex s2)"
      "exit_codes (ex s') = exit_codes (ex s2)" "ex_set s' = ex_set s2" by blast
  moreover have "get_exit_code pid s' = Some (128 + sig)"
    using s2 s' assms(6) by (simp add: get_exit_code_def is_done_def)
  moreover have "get_exit_code pid (reap_done_coroutines s') = None"
    using s2 s' assms(6) hm_get_retain [OF s2(4)]
    by (simp add: get_exit_code_def reap_done_ex is_done_def)
  ultimately show ?thesis by blast
qed

theorem killed_exit_code_lost_witness:
  "\<exists>s'. step yielder (kill_one 15) = Some (True, s') \<and> get_exit_code 1 s' = Some 143 \<and>
     get_exit_code 1 (reap_done_coroutines s') = None"
proof -
  obtain s1 where pick: "pick_next (kill_one 15) = (Some 1, s1)" using kill_one_pick by blast
  have "sched_ok (kill_one 15)" unfolding kill_one_def
    by (rule update_keeps [OF sys_one_facts(1)]) simp
  then have "exec_ok (ex (kill_one 15))" by (simp add: sched_ok_def)
  moreover have "ex_set (kill_one 15)" "hm_get (exit_codes (ex (kill_one 15))) 1 = None"
    using sys_one_facts(2,6) by (simp_all add: kill_one_def with_vprocs_def)
  ultimately show ?thesis
    using killed_exit_code_lost [OF _ pick, of _ 15 yielder] sys_one_proc by (simp add: kill_one_def)
qed

section \<open>Reaping\<close>

fun is_destroy :: "effect \<Rightarrow> bool" where
  "is_destroy (McoDestroy h) = True"
| "is_destroy e = False"

lemma reap_loop_effects:
  "filter is_destroy (trace (snd (reap_loop vs s))) =
     filter is_destroy (trace s) @ map (\<lambda>(p, c). McoDestroy (co c)) (filter (\<lambda>(p, c). is_done c) vs) \<and>
   get_table pid (fdw (snd (reap_loop vs s))) =
     (if \<exists>c. (pid, c) \<in> set vs \<and> is_done c then None else get_table pid (fdw s))"
proof (induction vs arbitrary: s)
  case (Cons v vs)
  obtain p c where v: "v = (p, c)" by fastforce
  have "filter is_destroy (map RealClose fds) = []" for fds by (induction fds) auto
  moreover have "filter is_destroy (coroutine_drop c) = [McoDestroy (co c)]"
    by (auto simp: coroutine_drop_def filter_empty_conv split: option.split)
  moreover have "get_table pid (snd (remove_table_and_get_fds p w)) = (if pid = p then None else get_table pid w)" for w
    by (auto simp: remove_table_and_get_fds_def remove_table_def get_table_def split: option.split)
  ultimately show ?case
    using Cons.IH by (auto simp: v Let_def case_prod_beta emit_def)
qed simp

text \<open>
  C22. Reaping removes exactly the finished processes and their descriptor tables, destroys
  the context of each of them exactly once, and leaves live processes, the ready queue and
  the exit codes alone.
\<close>

theorem reap_removes_exactly_done:
  assumes "exec_ok (ex s)"
  shows "hm_get (vprocs (ex (reap_done_coroutines s))) pid =
      (case hm_get (vprocs (ex s)) pid of None \<Rightarrow> None | Some c \<Rightarrow> if is_done c then None else Some c) \<and>
    ready_queue (ex (reap_done_coroutines s)) = ready_queue (ex s) \<and>
    exit_codes (ex (reap_done_coroutines s)) = exit_codes (ex s) \<and>
    get_table pid (fdw (reap_done_coroutines s)) =
      (if \<exists>c. hm_get (vprocs (ex s)) pid = Some c \<and> is_done c then None else get_table pid (fdw s)) \<and>
    filter is_destroy (trace (reap_done_coroutines s)) = filter is_destroy (trace s) @
      map (\<lambda>(p, c). McoDestroy (co c)) (filter (\<lambda>(p, c). is_done c) (vprocs (ex s)))"
proof -
  have ok: "hm_ok (vprocs (ex s))" using assms by (rule exec_okD)
  obtain s2 where s2: "reap_done_coroutines s = with_vprocs (\<lambda>_. fst (reap_loop (vprocs (ex s)) s2))
      (snd (reap_loop (vprocs (ex s)) s2))" "fdw s2 = fdw s" "trace s2 = trace s"
    by (simp add: reap_done_coroutines_def Let_def case_prod_beta with_children_def)
  have "get_table pid (fdw (reap_done_coroutines s)) = get_table pid (fdw (snd (reap_loop (vprocs (ex s)) s2)))"
    "trace (reap_done_coroutines s) = trace (snd (reap_loop (vprocs (ex s)) s2))"
    by (simp_all add: s2(1) with_vprocs_def)
  note eff = this reap_loop_effects [of "vprocs (ex s)" s2 pid] s2(2,3)
  have "hm_get (vprocs (ex (reap_done_coroutines s))) pid =
      (case hm_get (vprocs (ex s)) pid of None \<Rightarrow> None | Some c \<Rightarrow> if is_done c then None else Some c)"
    unfolding reap_done_ex by (auto simp: hm_get_retain [OF ok] split: option.split)
  moreover have "get_table pid (fdw (reap_done_coroutines s)) =
      (if \<exists>c. hm_get (vprocs (ex s)) pid = Some c \<and> is_done c then None else get_table pid (fdw s))"
    unfolding hm_ok_get_iff [OF ok] using eff by auto
  moreover have "filter is_destroy (trace (reap_done_coroutines s)) = filter is_destroy (trace s) @
      map (\<lambda>(p, c). McoDestroy (co c)) (filter (\<lambda>(p, c). is_done c) (vprocs (ex s)))"
    using eff by simp
  ultimately show ?thesis by (simp add: reap_done_ex)
qed

theorem reap_removes_exactly_done_witness:
  "hm_get (vprocs (ex (reap_done_coroutines (set_state Done 1 sys_one)))) 1 = None \<and>
   hm_get (vprocs (ex (reap_done_coroutines sys_one))) 1 \<noteq> None"
proof -
  have "exec_ok (ex (set_state Done 1 sys_one))" "exec_ok (ex sys_one)"
    using sys_one_facts(1) by (auto simp: set_state_def sched_ok_def intro!: exec_ok_modify)
  then show ?thesis
    using conjunct1 [OF reap_removes_exactly_done, of "set_state Done 1 sys_one" 1]
      conjunct1 [OF reap_removes_exactly_done, of sys_one 1] sys_one_proc
    by (simp add: set_state_def is_done_def)
qed

section \<open>Waiting for I/O\<close>

lemma fold_wake_effect:
  "hm_get (vprocs (ex (fold wake_one ps s))) pid =
     (if pid \<in> set ps then map_option (\<lambda>c. c\<lparr>io_wait := None\<rparr>) (hm_get (vprocs (ex s)) pid)
      else hm_get (vprocs (ex s)) pid) \<and>
   set (ready_queue (ex (fold wake_one ps s))) = set (ready_queue (ex s)) \<union> set ps"
proof (induction ps arbitrary: s)
  case (Cons p ps)
  show ?case using Cons.IH [of "wake_one p s"]
    by (auto simp: wake_one_def option.map_comp comp_def)
qed simp

definition wake_due :: "pollfd list \<Rightarrow> VPid list \<Rightarrow> nat \<Rightarrow> VPid \<Rightarrow> Coroutine \<Rightarrow> bool" where
  "wake_due pfs pids now pid c \<longleftrightarrow>
     (\<exists>i < length pfs. pids ! i = pid \<and> revents (pfs ! i) \<noteq> 0) \<or> expired now c"

text \<open>
  C23. After a batch poll exactly the processes with a ready descriptor or an expired deadline
  are woken: their wait is cleared and they are queued; all others keep waiting. In particular a
  poll that reports nothing, with no deadline expired, wakes nobody and leaves the state as it
  is. (A comment in the driver loop of \<^verbatim>\<open>ffi.rs\<close> says that on a timeout, when all reported events are
  zero, the waiting coroutines are all pushed back; the code pushes back the expired ones only.)
\<close>

theorem wake_exactly_ready:
  assumes "exec_ok (ex s)" and "length pfs = length (fst (collect_io_waits s))"
  shows "\<exists>s'. wake_io_ready pfs (snd (collect_io_waits s)) now s = Some s' \<and>
    (\<forall>pid c. hm_get (vprocs (ex s)) pid = Some c \<longrightarrow>
       (if wake_due pfs (snd (collect_io_waits s)) now pid c
        then hm_get (vprocs (ex s')) pid = Some (c\<lparr>io_wait := None\<rparr>) \<and> pid \<in> set (ready_queue (ex s'))
        else hm_get (vprocs (ex s')) pid = Some c \<and>
          (pid \<in> set (ready_queue (ex s')) \<longleftrightarrow> pid \<in> set (ready_queue (ex s))))) \<and>
    ((\<forall>f \<in> set pfs. revents f = 0) \<and> (\<forall>pid c. hm_get (vprocs (ex s)) pid = Some c \<longrightarrow> \<not> expired now c) \<longrightarrow> s' = s)"
proof -
  obtain ps where ps: "wake_io_ready pfs (snd (collect_io_waits s)) now s = Some (fold wake_one ps s)"
    "set ps = {pid. \<exists>c. hm_get (vprocs (ex s)) pid = Some c \<and> wake_due pfs (snd (collect_io_waits s)) now pid c}"
    using wake_eq [OF assms, of now] unfolding wake_due_def by auto
  have "ps = []" if "\<forall>f \<in> set pfs. revents f = 0" "\<forall>pid c. hm_get (vprocs (ex s)) pid = Some c \<longrightarrow> \<not> expired now c"
  proof -
    have "\<not> wake_due pfs (snd (collect_io_waits s)) now pid c" if "hm_get (vprocs (ex s)) pid = Some c" for pid c
      using that \<open>\<forall>f \<in> set pfs. revents f = 0\<close> \<open>\<forall>pid c. hm_get (vprocs (ex s)) pid = Some c \<longrightarrow> \<not> expired now c\<close>
      by (auto simp: wake_due_def)
    then have "set ps = {}" unfolding ps(2) by blast
    then show ?thesis by simp
  qed
  then show ?thesis using ps fold_wake_effect [of ps s] by auto
qed

definition wait_one :: "(c_int \<times> u16) list \<Rightarrow> nat option \<Rightarrow> sys" where
  "wait_one io d = with_vprocs (hm_modify 1 (\<lambda>c. c\<lparr>io_wait := Some \<lparr>io_fds = io, deadline = d\<rparr>\<rparr>)) sys_one"

lemma wait_one_ok: "exec_ok (ex (wait_one io d))"
  using sys_one_facts(1) by (auto simp: wait_one_def sched_ok_def intro!: exec_ok_modify)

lemma wait_one_collect: "collect_io_waits (wait_one [(5, 1)] d) = ([\<lparr>pfd = 5, events = 1, revents = 0\<rparr>], [1])"
  by (simp add: collect_io_waits_def wait_one_def sys_one_def spawn_def coroutine_new_def sys_init_def
      executor_new_def sys_defs Let_def hm_modify_def hm_insert_def hm_get_def)

theorem wake_exactly_ready_witness:
  "\<exists>s' c. wake_io_ready [\<lparr>pfd = 5, events = 1, revents = 1\<rparr>] [1] 0 (wait_one [(5, 1)] None) = Some s' \<and>
     hm_get (vprocs (ex s')) 1 = Some c \<and> io_wait c = None"
proof -
  obtain c where c: "hm_get (vprocs (ex (wait_one [(5, 1)] None))) 1 = Some c"
    using sys_one_proc by (simp add: wait_one_def)
  show ?thesis
    using wake_exactly_ready [OF wait_one_ok, of "[\<lparr>pfd = 5, events = 1, revents = 1\<rparr>]" "[(5, 1)]" None 0] c
    by (auto simp: wait_one_collect wake_due_def)
qed

text \<open>
  A process that waits for no descriptor and without a deadline, as a poll of virtual
  pipes alone does, is not woken by any poll: it keeps waiting and is never queued by it.
\<close>

theorem empty_wait_never_woken:
  assumes "exec_ok (ex s)" and "length pfs = length (fst (collect_io_waits s))"
    and "hm_get (vprocs (ex s)) pid = Some c" and "io_wait c = Some \<lparr>io_fds = [], deadline = None\<rparr>"
    and "pid \<notin> set (ready_queue (ex s))"
  shows "\<exists>s'. wake_io_ready pfs (snd (collect_io_waits s)) now s = Some s' \<and>
    hm_get (vprocs (ex s')) pid = Some c \<and> pid \<notin> set (ready_queue (ex s'))"
proof -
  have ok: "hm_ok (vprocs (ex s))" using assms(1) by (rule exec_okD)
  have uniq: "c' = c" if "(pid, c') \<in> set (vprocs (ex s))" for c'
    using that assms(3) by (simp add: hm_ok_get_iff [OF ok, symmetric])
  then have "pid \<notin> set (snd (collect_io_waits s))"
    using assms(4) by (fastforce simp: collect_io_waits_def Let_def split: option.splits)
  moreover have "length (snd (collect_io_waits s)) = length pfs" using assms(2) by (simp add: collect_lengths)
  ultimately have "\<not> (\<exists>i < length pfs. snd (collect_io_waits s) ! i = pid \<and> revents (pfs ! i) \<noteq> 0)"
    using nth_mem by metis
  moreover have "\<not> expired now c" using assms(4) by (simp add: expired_def)
  moreover obtain ps where ps: "wake_io_ready pfs (snd (collect_io_waits s)) now s = Some (fold wake_one ps s)"
    "set ps = {pid. \<exists>c. hm_get (vprocs (ex s)) pid = Some c \<and>
      ((\<exists>i < length pfs. snd (collect_io_waits s) ! i = pid \<and> revents (pfs ! i) \<noteq> 0) \<or> expired now c)}"
    using wake_eq [OF assms(1,2), of now] by auto
  ultimately have "pid \<notin> set ps" using assms(3) by auto
  then show ?thesis using ps(1) fold_wake_effect [of ps s pid] assms(3,5) by simp
qed

theorem empty_wait_never_woken_witness:
  "\<exists>s s' c. wake_io_ready [] [] 1000 s = Some s' \<and> hm_get (vprocs (ex s')) 1 = Some c \<and> io_wait c \<noteq> None"
proof -
  define s where "s = with_queue (\<lambda>_. []) (wait_one [] None)"
  have ok: "exec_ok (ex s)" unfolding s_def using wait_one_ok by (auto intro: exec_ok_queue)
  have col: "collect_io_waits s = ([], [])"
    by (simp add: s_def collect_io_waits_def wait_one_def sys_one_def spawn_def coroutine_new_def sys_init_def
        executor_new_def sys_defs Let_def hm_modify_def hm_insert_def hm_get_def)
  obtain c where c: "hm_get (vprocs (ex s)) 1 = Some c" "io_wait c = Some \<lparr>io_fds = [], deadline = None\<rparr>"
    using sys_one_proc by (simp add: s_def wait_one_def)
  have "\<exists>s'. wake_io_ready [] (snd (collect_io_waits s)) 1000 s = Some s' \<and>
      hm_get (vprocs (ex s')) 1 = Some c \<and> 1 \<notin> set (ready_queue (ex s'))"
  proof (rule empty_wait_never_woken [OF ok _ c])
    show "length [] = length (fst (collect_io_waits s))" by (simp add: col)
    show "1 \<notin> set (ready_queue (ex s))" by (simp add: s_def)
  qed
  then show ?thesis using c(2) by (auto simp: col)
qed

section \<open>Standard descriptors around a resume\<close>

lemma resume_trace:
  assumes "resume run pid s = Some s'"
  shows "\<exists>h. trace s' = trace (fst (run h (set_state Running pid s)))"
proof -
  obtain c where c: "hm_get (vprocs (ex s)) pid = Some c"
    using assms by (auto simp: resume_def split: bind_splits)
  obtain s2 dead where run: "run (co c) (set_state Running pid s) = (s2, dead)" by fastforce
  have "trace s' = trace s2"
    using assms c run by (auto simp: resume_def set_state_def with_vprocs_def split: if_splits)
  then show ?thesis using run by (intro exI [of _ "co c"]) simp
qed

text \<open>
  The system calls an installation makes: none for a descriptor that is negative or already in
  its place.
\<close>

definition dup3_calls :: "c_int \<times> c_int \<times> c_int \<Rightarrow> (c_int \<times> c_int) list" where
  "dup3_calls f = (case f of (f0, f1, f2) \<Rightarrow>
     filter (\<lambda>(old, new). 0 \<le> sint old \<and> old \<noteq> new) [(f0, 0), (f1, 1), (f2, 2)])"

abbreviation dup3_events :: "c_int \<times> c_int \<times> c_int \<Rightarrow> effect list" where
  "dup3_events f \<equiv> map (\<lambda>(old, new). Dup3 old new) (dup3_calls f)"

lemma install_fds_eq:
  "install_fds ok f s = (if \<forall>(old, new) \<in> set (dup3_calls f). ok old new then Some (emit (dup3_events f) s) else None)"
  by (cases f) (auto simp: install_fds_def raw_dup3_def dup3_calls_def emit_def Let_def not_less split: if_splits)

text \<open>
  C27. Stepping with swapped standard descriptors. When the process that runs has real
  descriptors behind 0, 1 and 2, then before its code runs each of them that is not negative and
  not already in its place is installed by \<^verbatim>\<open>dup3\<close>, in order, and the last calls of the step
  install the driver's own descriptors under the same condition; no other call is made. If the
  step returns, every one of these calls has succeeded: a failing one stops the whole process
  instead of running code with wrong descriptors.
\<close>

theorem fd_swap_restores:
  assumes "pick_next s = (Some pid, s1)" and "get_real_fds pid (fdw s) = Some f"
    and "step_from_driver_with_fd_swap ok d run s = Some s'"
  shows "(\<forall>(old, new) \<in> set (dup3_calls f @ dup3_calls d). ok old new) \<and> current (ex s') = None \<and>
    (\<exists>s3 h. trace s3 = trace s @ dup3_events f \<and> trace s' = trace (fst (run h s3)) @ dup3_events d)"
proof -
  define s2 where "s2 = snd (deliver_signals pid s1)"
  have frame: "fdw s2 = fdw s" "trace s2 = trace s"
    using pick_next_eq(1) [OF assms(1)]
    by (auto simp: s2_def deliver_signals_def signal_loop_eq with_vprocs_def with_queue_def split: option.split)
  obtain s3 s4 where s3: "install_fds ok f s2 = Some s3"
    and s4: "resume run pid (count_switch (set_current (Some pid) s3)) = Some s4"
    and s': "install_fds ok d (set_current None s4) = Some s'"
    using assms frame by (auto simp: step_from_driver_with_fd_swap_def s2_def [symmetric] Let_def split: bind_splits)
  let ?s5 = "set_state Running pid (count_switch (set_current (Some pid) s3))"
  obtain h where "trace s4 = trace (fst (run h ?s5))"
    using resume_trace [OF s4] by blast
  moreover have "trace s3 = trace s @ dup3_events f" "\<forall>(old, new) \<in> set (dup3_calls f). ok old new"
    using s3 frame by (simp_all add: install_fds_eq emit_def split: if_splits) auto
  moreover have "trace ?s5 = trace s3" by (simp add: sys_defs)
  moreover have "trace s' = trace s4 @ dup3_events d" "current (ex s') = None"
    "\<forall>(old, new) \<in> set (dup3_calls d). ok old new"
    using s' by (simp_all add: install_fds_eq sys_defs split: if_splits) auto
  ultimately show ?thesis unfolding set_append ball_Un by metis
qed

definition swap_one :: sys where
  "swap_one = sys_one\<lparr>fdw := create_table_with_fds 1 10 11 12 (fdw sys_one)\<rparr>"

text \<open>
  Process 1 has 10, 11, 12 behind its standard descriptors; of the driver's saved descriptors
  20, -1, 2 only the first is put back.
\<close>

theorem fd_swap_restores_witness:
  "\<exists>s'. step_from_driver_with_fd_swap (\<lambda>_ _. True) (20, - 1, 2) yielder swap_one = Some s' \<and>
     trace s' = trace swap_one @ [Dup3 10 0, Dup3 11 1, Dup3 12 2, Dup3 20 0]"
proof -
  have pick: "pick_next swap_one = (Some 1, with_queue (\<lambda>_. []) swap_one)"
    using sys_one_facts(5) sys_one_proc by (simp add: pick_next_def swap_one_def is_done_def)
  obtain c where proc: "hm_get (vprocs (ex swap_one)) 1 = Some c" "pending_signals c = []"
    using sys_one_proc by (simp add: swap_one_def)
  have real: "get_real_fds 1 (fdw swap_one) = Some (10, 11, 12)"
    by (simp add: swap_one_def get_real_fds_def get_table_def create_table_with_fds_def insert_table_def
        get_real_fds_012_def vt_new_with_fds_def)
  have "\<exists>s'. step_from_driver_with_fd_swap (\<lambda>_ _. True) (20, - 1, 2) yielder swap_one = Some s'"
    using proc real
    by (simp add: step_from_driver_with_fd_swap_def pick deliver_signals_def install_fds_eq
        resume_def yielder_def requeue_alive_def sys_defs Let_def is_done_def)
  then obtain s' where s': "step_from_driver_with_fd_swap (\<lambda>_ _. True) (20, - 1, 2) yielder swap_one = Some s'" by blast
  obtain s3 h where "trace s3 = trace swap_one @ dup3_events (10, 11, 12)"
    "trace s' = trace (fst (yielder h s3)) @ dup3_events (20, - 1, 2)"
    using fd_swap_restores [OF pick real s'] by blast
  moreover have "dup3_events (10, 11, 12) = [Dup3 10 0, Dup3 11 1, Dup3 12 2]" "dup3_events (20, - 1, 2) = [Dup3 20 0]"
    by (simp_all add: dup3_calls_def)
  moreover have "trace (requeue_alive pid s) = trace s" for pid s
    by (simp add: requeue_alive_def sys_defs split: option.split)
  ultimately show ?thesis using s' by (simp add: yielder_def)
qed

end
