(* ===== verification/Preload_Paths.thy ===== *)
theory Preload_Paths
  imports Preload_Fd Elf_Laws
begin

text \<open>
  Path resolution and the working directory of a virtual process: splitting and joining
  are inverse, resolution composes, and changing directory affects exactly the process that
  asks for it.
\<close>

section \<open>Components of a path\<close>

definition clean :: "rstr list \<Rightarrow> bool" where
  "clean ws \<longleftrightarrow> (\<forall>w \<in> set ws. w \<noteq> [] \<and> 47 \<notin> set w)"

lemma clean_simps [simp]:
  "clean []" "clean (w # ws) \<longleftrightarrow> w \<noteq> [] \<and> 47 \<notin> set w \<and> clean ws"
  "clean (ws @ vs) \<longleftrightarrow> clean ws \<and> clean vs"
  by (auto simp: clean_def)

lemma clean_butlast: "clean ws \<Longrightarrow> clean (butlast ws)"
  by (auto simp: clean_def dest: in_set_butlastD)

lemma split_slash_not_Nil [simp]: "split_slash s \<noteq> []"
  by (induction s) (auto split: list.split)

lemma split_slash_append: "split_slash (s @ 47 # t) = split_slash s @ split_slash t"
proof (induction s)
  case (Cons b s)
  then show ?case by (cases "split_slash s") auto
qed simp

lemma split_slash_word: "47 \<notin> set w \<Longrightarrow> split_slash w = [w]"
  by (induction w) auto

lemma split_slash_no_slash: "w \<in> set (split_slash s) \<Longrightarrow> 47 \<notin> set w"
proof (induction s arbitrary: w)
  case (Cons b s)
  then show ?case by (cases "split_slash s") (auto split: if_splits)
qed simp

lemma split_join: "clean (w # ws) \<Longrightarrow> split_slash (join_slash (w # ws)) = w # ws"
proof (induction ws arbitrary: w)
  case (Cons v ws)
  then show ?case by (simp add: split_slash_append split_slash_word)
qed (simp add: split_slash_word)

definition components :: "rstr \<Rightarrow> rstr list" where
  "components s = filter (\<lambda>w. w \<noteq> []) (split_slash s)"

lemma clean_components [simp]: "clean (components s)"
  using split_slash_no_slash by (auto simp: clean_def components_def)

definition absolute :: "rstr list \<Rightarrow> rstr" where
  "absolute parts = (if parts = [] then [47] else 47 # join_slash parts)"

lemma components_absolute: "clean parts \<Longrightarrow> components (absolute parts) = parts"
proof (cases parts)
  case (Cons w ws)
  moreover assume "clean parts"
  ultimately have "components (absolute parts) = filter (\<lambda>w. w \<noteq> []) (w # ws)"
    using split_join [of w ws] split_slash_append [of "[]" "join_slash parts"]
    by (simp add: components_def absolute_def)
  then show ?thesis using Cons \<open>clean parts\<close> by (auto simp: clean_def filter_id_conv)
qed (simp add: components_def absolute_def)

lemma clean_path_step:
  "clean parts \<Longrightarrow> 47 \<notin> set w \<Longrightarrow> clean (path_step w parts)"
  by (simp add: path_step_def clean_butlast)

lemma clean_fold_path_step:
  "clean parts \<Longrightarrow> \<forall>w \<in> set ws. 47 \<notin> set w \<Longrightarrow> clean (fold path_step ws parts)"
  by (induction ws arbitrary: parts) (auto simp: clean_path_step)

definition relative :: "rstr \<Rightarrow> bool" where
  "relative path \<longleftrightarrow> \<not> (path \<noteq> [] \<and> hd path = 47)"

lemma relative_Cons [simp]: "relative (b # bs) \<longleftrightarrow> b \<noteq> 47" "relative []"
  by (simp_all add: relative_def)

lemma resolve_relative:
  "relative path \<Longrightarrow> resolve_path d path = absolute (fold path_step (split_slash path) (components d))"
  by (auto simp: resolve_path_def relative_def absolute_def components_def Let_def)

lemma resolve_absolute: "\<not> relative path \<Longrightarrow> resolve_path d path = path"
  by (simp add: resolve_path_def relative_def)

lemma components_resolve:
  assumes "relative path"
  shows "components (resolve_path d path) = fold path_step (split_slash path) (components d)"
  using assms split_slash_no_slash
  by (simp add: resolve_relative components_absolute clean_fold_path_step)

lemma resolve_compose:
  assumes "relative p" and "p \<noteq> []" and "relative q"
  shows "resolve_path (resolve_path d p) q = resolve_path d (p @ 47 # q)"
proof -
  have "relative (p @ 47 # q)" using assms(1,2) by (cases p) simp_all
  then show ?thesis
    using assms by (simp only: resolve_relative [OF assms(3)] components_resolve
        resolve_relative [of "p @ 47 # q"] split_slash_append fold_append comp_apply)
qed

section \<open>Lossy conversion and separators\<close>

lemma not_continuation [simp]:
  "\<not> is_cont 47" "\<not> is_cont 0" "\<not> second_ok a 47" "\<not> second_ok a 0"
  by (simp_all add: is_cont_def second_ok_def)

lemma utf8_step_append:
  assumes "bs \<noteq> []"
  shows "utf8_step (bs @ 47 # cs) = utf8_step bs" and "snd (utf8_step bs) \<le> length bs"
proof -
  consider a where "bs = [a]" | a b where "bs = [a, b]" | a b c where "bs = [a, b, c]"
    | a b c d es where "bs = a # b # c # d # es"
    using assms by (metis neq_Nil_conv)
  note bs_cases = this
  show "utf8_step (bs @ 47 # cs) = utf8_step bs"
    by (cases rule: bs_cases)
      (simp_all add: utf8_step_def safe_get_def Let_def)
  show "snd (utf8_step bs) \<le> length bs"
    by (cases rule: bs_cases)
      (simp_all add: utf8_step_def safe_get_def Let_def)
qed

lemma utf8_lossy_slash: "utf8_lossy (bs @ 47 # cs) = utf8_lossy bs @ 47 # utf8_lossy cs"
proof (induction bs rule: utf8_lossy.induct)
  case (1 bs)
  show ?case
  proof (cases "bs = []")
    case True
    then show ?thesis
      by (subst utf8_lossy.simps)
        (simp add: utf8_step_def safe_get_def utf8_lossy.simps [of "[]"])
  next
    case False
    note st = utf8_step_append [OF False]
    show ?thesis
      using 1 [OF False] False st(2)
      by (subst (1 2) utf8_lossy.simps) (simp add: st(1))
  qed
qed

lemma utf8_lossy_relative:
  assumes "relative bs"
  shows "relative (utf8_lossy bs)"
proof (cases bs)
  case (Cons b cs)
  obtain n where "snd (utf8_step bs) = Suc n" using utf8_step_pos [of bs] gr0_implies_Suc by blast
  then show ?thesis using assms Cons by (subst utf8_lossy.simps) simp
qed (simp add: utf8_lossy.simps)

lemma utf8_lossy_Nil [simp]: "utf8_lossy bs = [] \<longleftrightarrow> bs = []"
  using utf8_step_pos [of bs] by (subst utf8_lossy.simps) auto

section \<open>A call made by a virtual process\<close>

text \<open>\<open>inside v c p\<close>: the layer is active and the running virtual process is \<open>v\<close>, with coroutine \<open>c\<close>.\<close>

definition inside :: "VPid \<Rightarrow> Coroutine \<Rightarrow> pst \<Rightarrow> bool" where
  "inside v c p \<longleftrightarrow> (vflag p \<or> venv_one p) \<and> \<not> REAL_FORK_CHILD p \<and> ex_set (psys p) \<and>
     current (ex (psys p)) = Some v \<and> hm_get (vprocs (ex (psys p))) v = Some c"

lemma inside_enabled: "inside v c p \<Longrightarrow> enabled p = (True, p\<lparr>vflag := True\<rparr>)"
  by (auto simp: inside_def enabled_def)

lemma inside_bypass: "inside v c p \<Longrightarrow> bypass p = (False, p\<lparr>vflag := True\<rparr>)"
  by (auto simp: inside_def bypass_def enabled_def)

lemma inside_vpid: "inside v c p \<Longrightarrow> current_vpid p = Some v"
  by (simp add: inside_def current_vpid_def)

lemma inside_proc: "inside v c p \<Longrightarrow> hm_get (vprocs (ex (psys p))) v = Some c"
  by (simp add: inside_def)

lemma inside_cwd: "inside v c p \<Longrightarrow> get_cwd p = cwd c"
  by (simp add: inside_vpid inside_proc get_cwd_def)

lemma vflag_irrelevant [simp]:
  "current_vpid (p\<lparr>vflag := b\<rparr>) = current_vpid p" "get_cwd (p\<lparr>vflag := b\<rparr>) = get_cwd p"
  "table_of v (p\<lparr>vflag := b\<rparr>) = table_of v p" "fd_entry v fd (p\<lparr>vflag := b\<rparr>) = fd_entry v fd p"
  "the_store (p\<lparr>vflag := b\<rparr>) = the_store p" "own_table (p\<lparr>vflag := b\<rparr>) = own_table p"
  "pipe_at a (p\<lparr>vflag := b\<rparr>) = pipe_at a p" "is_virtual_pid v (p\<lparr>vflag := b\<rparr>) = is_virtual_pid v p"
  "open_path path (p\<lparr>vflag := b\<rparr>) = open_path path p"
  by (simp_all add: current_vpid_def get_cwd_def table_of_def fd_entry_def the_store_def own_table_def
      pipe_at_def is_virtual_pid_def open_path_def)

lemmas inside_simps = inside_enabled inside_bypass inside_vpid inside_proc inside_cwd

section \<open>A concrete state\<close>

text \<open>
  Two virtual processes, the first of them running in \<^verbatim>\<open>/a\<close>, and a libc whose calls succeed.
\<close>

definition libc_sample :: libc where
  "libc_sample =
     \<lparr>l_close = (\<lambda>_. 0), l_dup = (\<lambda>_. 8), l_dup2 = (\<lambda>_ n. n), l_kill = (\<lambda>_ _. 0), l_getpid = 100,
      l_getppid = 99, l_getpgid = (\<lambda>_. 100), l_setpgid = (\<lambda>_ _. 0), l_setsid = 100, l_getpgrp = 100,
      l_tcsetpgrp = (\<lambda>_ _. 0), l_tcgetpgrp = (\<lambda>_. 100), l_raise = (\<lambda>_. 0), l_fork = 101,
      l_wait4 = (\<lambda>_ _. (- 1, None)), l_chdir = (\<lambda>_. 0), l_getcwd = (\<lambda>_. Some [47]),
      l_open = (\<lambda>_ _ _. 7), l_openat = (\<lambda>_ _ _ _. 7), l_creat = (\<lambda>_ _. 7), l_fstat = (\<lambda>_. 0),
      l_lseek = (\<lambda>_ off _. off), l_poll = (\<lambda>fs _. (0, fs)), l_pipe = (0, 5, 6), l_pipe2 = (\<lambda>_. (0, 5, 6)),
      l_read = (\<lambda>_ _. (0, [])), l_write = (\<lambda>_ src. int (length src))\<rparr>"

lemma libc_sample_sel [simp]:
  "l_chdir libc_sample path = 0" "l_open libc_sample path flags mode = 7" "l_dup2 libc_sample o1 n = n"
  "l_poll libc_sample fs timeout = (0, fs)" "l_wait4 libc_sample pid opts = (- 1, None)"
  by (simp_all add: libc_sample_def)

definition sched_sample :: schedule where
  "sched_sample = \<lparr>sc_run = (\<lambda>_ s. (s, False)), sc_others = (\<lambda>_ s. s), sc_clock = (\<lambda>i. 1000 * i)\<rparr>"

definition co_sample :: "VPid \<Rightarrow> Coroutine" where
  "co_sample pid =
     \<lparr>cid = pid, ppid = 0, co = unat pid, userdata = \<lparr>ud_exit_code = 0, closure = None\<rparr>,
      state = Running, exit_code = 0, is_fork_child = False, fork_child_pid = 0, c_strings = [],
      mapped_regions = [], pending_signals = [], cwd = Some [47, 97], binary_path = None,
      io_wait = None, stack_alloc = None\<rparr>"

definition pst_with :: "fd_world \<Rightarrow> pst" where
  "pst_with w =
     \<lparr>psys = \<lparr>ex_set = True,
        ex = executor_new\<lparr>vprocs := [(1, co_sample 1), (2, co_sample 2)], current := Some 1\<rparr>,
        mco_running = Some 1, fdw = w, trace = []\<rparr>,
      venv_one = True, vflag = False, REAL_FORK_CHILD = False, errno = 0\<rparr>"

lemma pst_with_sel [simp]:
  "ex_set (psys (pst_with w))" "fdw (psys (pst_with w)) = w" "trace (psys (pst_with w)) = []"
  "vprocs (ex (psys (pst_with w))) = [(1, co_sample 1), (2, co_sample 2)]"
  "current (ex (psys (pst_with w))) = Some 1" "mco_running (psys (pst_with w)) = Some 1"
  "exit_codes (ex (psys (pst_with w))) = []" "children (ex (psys (pst_with w))) = []"
  "ready_queue (ex (psys (pst_with w))) = []"
  by (simp_all add: pst_with_def executor_new_def)

lemma co_sample_sel [simp]:
  "cwd (co_sample v) = Some [47, 97]" "state (co_sample v) = Running" "pending_signals (co_sample v) = []"
  by (simp_all add: co_sample_def)

lemma inside_sample [simp]: "inside 1 (co_sample 1) (pst_with w)"
  by (simp add: inside_def pst_with_def executor_new_def hm_get_def)

section \<open>Changing directory\<close>

text \<open>The directory relative paths start from: its own, or at first that of the real process.\<close>

definition base_dir :: "libc \<Rightarrow> Coroutine \<Rightarrow> rstr" where
  "base_dir L c = (case cwd c of Some d \<Rightarrow> d | None \<Rightarrow> process_cwd L)"

lemma chdir_inside:
  assumes "inside v c p" and "chdir L path p = (0, p')"
  shows "p' = p\<lparr>vflag := True, psys := with_vprocs
    (hm_modify v (\<lambda>c'. c'\<lparr>cwd := Some (resolve_path (base_dir L c) (utf8_lossy path))\<rparr>)) (psys p)\<rparr>"
proof -
  have "fail EINVAL (p\<lparr>vflag := True\<rparr>) \<noteq> (0, p')" by (simp add: fail_def)
  then show ?thesis
    using assms by (auto simp: chdir_def inside_simps with_sys_def base_dir_def Let_def split: if_splits)
qed

lemma inside_after_chdir:
  assumes "inside v c p"
  shows "inside v (c\<lparr>cwd := Some r\<rparr>)
    (p\<lparr>vflag := True, psys := with_vprocs (hm_modify v (\<lambda>c. c\<lparr>cwd := Some r\<rparr>)) (psys p)\<rparr>)"
  using assms by (simp add: inside_def with_vprocs_def)

text \<open>A path given to the real call; \<^const>\<open>None\<close> is \<^verbatim>\<open>EINVAL\<close>.\<close>

definition c_path :: "rstr \<Rightarrow> rstr option" where
  "c_path r = (if 0 \<in> set r then None else Some r)"

lemma open_path_inside:
  assumes "inside v c p" and "cwd c = Some d" and "relative path"
  shows "open_path path p = c_path (resolve_path d (utf8_lossy path))"
  using utf8_lossy_relative [OF assms(3)] assms
  by (auto simp: open_path_def inside_simps relative_def c_path_def Let_def)

lemma utf8_lossy_absolute: "\<not> relative bs \<Longrightarrow> \<not> relative (utf8_lossy bs)"
  using utf8_lossy_slash [of "[]"] by (cases bs) (auto simp: utf8_lossy.simps [of "[]"])

lemma open_path_kept:
  "inside v c p \<Longrightarrow> cwd c = None \<or> \<not> relative path \<Longrightarrow> open_path path p = Some path"
  using utf8_lossy_absolute [of path]
  by (auto simp: open_path_def inside_simps relative_def Let_def split: option.split)

text \<open>
  C15. Changing directory composes with path resolution. Let a virtual process call
  \<^verbatim>\<open>chdir("p")\<close> successfully, and let its base directory be its own working directory, or that of the real
  process if it has none yet. Then \<^verbatim>\<open>open("q")\<close> of a relative \<open>q\<close> reaches the real call with the path
  \<^verbatim>\<open>p/q\<close> resolved against the base directory if \<open>p\<close> is relative, and with \<open>q\<close> resolved against \<open>p\<close> if
  \<open>p\<close> is absolute, whatever dots, double dots, empty components and invalid UTF-8 they contain
  (\<^verbatim>\<open>EINVAL\<close> for a null byte). For relative \<open>p\<close> and a process that already had a working directory
  this is exactly what \<^verbatim>\<open>open("p/q")\<close> gave before; a process without one, and an absolute \<open>p\<close>, passed
  \<^verbatim>\<open>p/q\<close> to the real call as it stands.
\<close>

theorem chdir_then_open:
  assumes "inside v c p" and "path \<noteq> []" and "relative q" and "chdir L path p = (0, p')"
  shows "(relative path \<longrightarrow> open_path q p' = c_path (resolve_path (base_dir L c) (utf8_lossy (path @ 47 # q)))) \<and>
    (\<not> relative path \<longrightarrow> open_path q p' = c_path (resolve_path (utf8_lossy path) (utf8_lossy q))) \<and>
    (relative path \<and> cwd c \<noteq> None \<longrightarrow> open_path q p' = open_path (path @ 47 # q) p) \<and>
    (\<not> relative path \<or> cwd c = None \<longrightarrow> open_path (path @ 47 # q) p = Some (path @ 47 # q))"
proof -
  let ?d = "base_dir L c"
  let ?r = "resolve_path ?d (utf8_lossy path)"
  have rel: "relative (path @ 47 # q) \<longleftrightarrow> relative path" using assms(2) by (cases path) simp_all
  have after: "open_path q p' = c_path (resolve_path ?r (utf8_lossy q))"
    using open_path_inside [OF inside_after_chdir [OF assms(1)] _ assms(3)]
    by (simp add: chdir_inside [OF assms(1,4)])
  have comp: "resolve_path ?r (utf8_lossy q) = resolve_path ?d (utf8_lossy (path @ 47 # q))" if "relative path"
    using resolve_compose [of "utf8_lossy path" "utf8_lossy q" ?d] assms(2,3) that
    by (simp add: utf8_lossy_relative utf8_lossy_slash)
  have abs: "?r = utf8_lossy path" if "\<not> relative path"
    using that utf8_lossy_absolute resolve_absolute by blast
  have before: "open_path (path @ 47 # q) p = c_path (resolve_path ?d (utf8_lossy (path @ 47 # q)))"
    if "relative path" and "cwd c \<noteq> None"
    using open_path_inside [OF assms(1), of ?d "path @ 47 # q"] rel that by (auto simp: base_dir_def)
  show ?thesis using after comp abs before open_path_kept [OF assms(1), of "path @ 47 # q"] rel by auto
qed

lemma sample_chdir:
  "chdir libc_sample [46, 46, 47, 98] (pst_with w) =
    (0, (pst_with w)\<lparr>vflag := True, psys := with_vprocs
      (hm_modify 1 (\<lambda>c. c\<lparr>cwd := Some [47, 98]\<rparr>)) (psys (pst_with w))\<rparr>)"
proof -
  have "utf8_lossy [46, 46, 47, 98] = [46, 46, 47, 98]" by (rule utf8_lossy_ascii) simp
  moreover have "resolve_path [47, 97] [46, 46, 47, 98] = [47, 98]"
    by (simp add: resolve_path_def path_step_def)
  ultimately show ?thesis
    by (simp add: chdir_def inside_simps [OF inside_sample] hm_get_def with_sys_def)
qed

theorem chdir_then_open_witness:
  "open_path [99] (snd (chdir libc_sample [46, 46, 47, 98] (pst_with fd_world_init))) = Some [47, 98, 47, 99] \<and>
   open_path [46, 46, 47, 98, 47, 99] (pst_with fd_world_init) = Some [47, 98, 47, 99]"
proof -
  have "utf8_lossy [46, 46, 47, 98, 47, 99] = [46, 46, 47, 98, 47, 99]" by (rule utf8_lossy_ascii) simp
  moreover have "resolve_path [47, 97] [46, 46, 47, 98, 47, 99] = [47, 98, 47, 99]"
    by (simp add: resolve_path_def path_step_def)
  ultimately show ?thesis
    using chdir_then_open [OF inside_sample _ _ sample_chdir, of "[99]" fd_world_init]
    by (simp add: sample_chdir base_dir_def c_path_def) metis
qed

text \<open>
  The working directory belongs to one virtual process: after a successful \<^verbatim>\<open>chdir\<close> the
  process reads back the resolved path with \<^verbatim>\<open>getcwd\<close> exactly when the buffer has room for it and
  its null byte, and otherwise gets \<^verbatim>\<open>ERANGE\<close>; every other process, the descriptor tables and the
  scheduler state are unchanged.
\<close>

theorem chdir_getcwd:
  assumes "inside v c p" and "cwd c = Some d" and "chdir L path p = (0, p')"
    and "r = resolve_path d (utf8_lossy path)"
  shows "getcwd L' sz p' = (if length r < sz then (Some r, p') else (None, p'\<lparr>errno := ERANGE\<rparr>)) \<and>
    (\<forall>u. u \<noteq> v \<longrightarrow> hm_get (vprocs (ex (psys p'))) u = hm_get (vprocs (ex (psys p))) u) \<and>
    fdw (psys p') = fdw (psys p) \<and> ready_queue (ex (psys p')) = ready_queue (ex (psys p))"
proof -
  have "base_dir L c = d" using assms(2) by (simp add: base_dir_def)
  note p' = chdir_inside [OF assms(1,3), unfolded this]
  have ins: "inside v (c\<lparr>cwd := Some r\<rparr>) p'" by (simp add: p' assms(4) inside_after_chdir [OF assms(1)])
  have "p'\<lparr>vflag := True\<rparr> = p'" by (simp add: p')
  then have "getcwd L' sz p' = (if length r < sz then (Some r, p') else (None, p'\<lparr>errno := ERANGE\<rparr>))"
    using inside_simps [OF ins] by (simp add: getcwd_def not_less Suc_le_eq)
  then show ?thesis by (simp add: p' with_vprocs_def)
qed

theorem chdir_getcwd_witness:
  "fst (getcwd libc_sample 3 (snd (chdir libc_sample [46, 46, 47, 98] (pst_with fd_world_init)))) = Some [47, 98] \<and>
   fst (getcwd libc_sample 2 (snd (chdir libc_sample [46, 46, 47, 98] (pst_with fd_world_init)))) = None \<and>
   hm_get (vprocs (ex (psys (snd (chdir libc_sample [46, 46, 47, 98] (pst_with fd_world_init)))))) 2 = Some (co_sample 2)"
proof -
  have "utf8_lossy [46, 46, 47, 98] = [46, 46, 47, 98]" by (rule utf8_lossy_ascii) simp
  moreover have "resolve_path [47, 97] [46, 46, 47, 98] = [47, 98]"
    by (simp add: resolve_path_def path_step_def)
  ultimately show ?thesis
    using chdir_getcwd [OF inside_sample _ sample_chdir, of "[47, 97]" "[47, 98]" libc_sample 3 fd_world_init]
      chdir_getcwd [OF inside_sample _ sample_chdir, of "[47, 97]" "[47, 98]" libc_sample 2 fd_world_init]
    by (simp add: sample_chdir hm_get_def)
qed

end
