(* ===== verification/Vexec_Laws.thy ===== *)
theory Vexec_Laws
  imports Vexec Vexec_Mem_Laws Elf_Stack Vfd_Posix Lifecycle Preload_Paths
begin

text \<open>
  Properties of starting programs: what the new process receives (arguments on its stack,
  descriptors, its place in the queue), what the calling process reports, and where the
  loaders differ.
\<close>

section \<open>Sequencing\<close>

lemma vbind_Ok: "vbind m f = (Ok y, t) \<longleftrightarrow> (\<exists>x s. m = (Ok x, s) \<and> f x s = (Ok y, t))"
proof (cases m)
  case (Pair r s)
  then show ?thesis by (cases r) auto
qed

lemma map_err_Ok [simp]: "map_err g r = Ok x \<longleftrightarrow> r = Ok x"
  by (cases r) auto

lemma ok_or_Ok [simp]: "ok_or e x = Ok y \<longleftrightarrow> x = Some y"
  by (simp add: ok_or_def split: option.split)

text \<open>Steps that leave the runtime, the stacks and the C strings alone.\<close>

definition quiet :: "vst \<Rightarrow> vst \<Rightarrow> bool" where
  "quiet v v' \<longleftrightarrow> vpst v' = vpst v \<and> vwords v' = vwords v \<and> cstrings v' = cstrings v"

lemma quiet_trans: "quiet v v1 \<Longrightarrow> quiet v1 v2 \<Longrightarrow> quiet v v2"
  by (simp add: quiet_def)

lemma quiet_vas [simp]: "quiet v (v\<lparr>vas := a\<rparr>)" "quiet v v"
  by (simp_all add: quiet_def)

lemma on_memory_quiet: "on_memory f v = (Ok x, v') \<Longrightarrow> quiet v v'"
  by (auto simp: on_memory_def split: option.splits)

lemma hook_exit_quiet: "hook_libc_exit W v = (Ok x, v') \<Longrightarrow> quiet v v'"
  by (auto simp: hook_libc_exit_def on_memory_def quiet_def Let_def split: if_splits option.splits)

lemma hook_execve_quiet: "hook_libc_execve W v = (Ok x, v') \<Longrightarrow> quiet v v'"
  by (auto simp: hook_libc_execve_def on_memory_def quiet_def Let_def split: if_splits option.splits)

lemma main_of_quiet: "main_of W h e v = (Ok x, v') \<Longrightarrow> quiet v v'"
  by (auto simp: main_of_def Let_def split: if_splits option.splits)

lemma save_binary_quiet: "save_binary p m h b ps v = (Ok x, v') \<Longrightarrow> quiet v v'"
  by (auto simp: save_binary_def quiet_def split: option.splits)

lemmas quiet_steps = on_memory_quiet hook_exit_quiet hook_execve_quiet main_of_quiet save_binary_quiet

section \<open>C strings\<close>

text \<open>As long as there is free memory, the allocator hands out memory that is not in use.\<close>

definition alloc_fresh :: "vworld \<Rightarrow> bool" where
  "alloc_fresh W \<longleftrightarrow> (\<forall>h s. dom h \<noteq> UNIV \<longrightarrow> h (w_alloc W h s) = None)"

lemma alloc_freshD:
  assumes "alloc_fresh W" and "card (dom h) < 2 ^ 64"
  shows "h (w_alloc W h s) = None"
proof -
  have "card (UNIV :: usize set) = 2 ^ 64" by (simp add: card_word)
  then have "dom h \<noteq> UNIV" using assms(2) by auto
  then show ?thesis using assms(1) by (simp add: alloc_fresh_def)
qed

lemma card_dom_upd: "card (dom (h(r \<mapsto> s))) \<le> Suc (card (dom h))" for h :: "usize \<Rightarrow> 'a option"
  by (simp add: card_insert_if)

lemma build_c_strings_rt:
  "build_c_strings W ss v = (Ok ptrs, v') \<Longrightarrow> vpst v' = vpst v \<and> vwords v' = vwords v \<and> vas v' = vas v \<and>
     BINARY_CACHE v' = BINARY_CACHE v \<and> exit_hooked v' = exit_hooked v \<and> execve_hooked v' = execve_hooked v \<and>
     length ptrs = length ss"
proof (induction ss arbitrary: v ptrs)
  case (Cons a ss)
  then obtain rs where "build_c_strings W ss (v\<lparr>cstrings := (cstrings v)(w_alloc W (cstrings v) a \<mapsto> a)\<rparr>) = (Ok rs, v')"
    "length ptrs = Suc (length rs)"
    by (auto simp: vbind_Ok Let_def split: if_splits)
  then show ?case using Cons.IH by fastforce
qed simp

lemma build_c_strings_card:
  "build_c_strings W ss v = (Ok ptrs, v') \<Longrightarrow> card (dom (cstrings v')) \<le> card (dom (cstrings v)) + length ss"
proof (induction ss arbitrary: v ptrs)
  case (Cons a ss)
  let ?v = "v\<lparr>cstrings := (cstrings v)(w_alloc W (cstrings v) a \<mapsto> a)\<rparr>"
  obtain rs where "build_c_strings W ss ?v = (Ok rs, v')"
    using Cons.prems by (auto simp: vbind_Ok Let_def split: if_splits)
  then have "card (dom (cstrings v')) \<le> card (dom (cstrings ?v)) + length ss" by (rule Cons.IH)
  then show ?case using card_dom_upd [of "cstrings v" "w_alloc W (cstrings v) a" a] by simp
qed simp

lemma build_c_strings_heap:
  assumes "alloc_fresh W"
  shows "build_c_strings W ss v = (Ok ptrs, v') \<Longrightarrow> card (dom (cstrings v)) + length ss < 2 ^ 64 \<Longrightarrow>
    map (cstrings v') ptrs = map Some ss \<and> (\<forall>x s. cstrings v x = Some s \<longrightarrow> cstrings v' x = Some s)"
proof (induction ss arbitrary: v ptrs)
  case (Cons a ss)
  let ?r = "w_alloc W (cstrings v) a" and ?v = "v\<lparr>cstrings := (cstrings v)(w_alloc W (cstrings v) a \<mapsto> a)\<rparr>"
  obtain rs where rs: "build_c_strings W ss ?v = (Ok rs, v')" "ptrs = ?r # rs"
    using Cons.prems(1) by (auto simp: vbind_Ok Let_def split: if_splits)
  have fresh: "cstrings v ?r = None" using alloc_freshD [OF assms] Cons.prems(2) by simp
  have "card (dom (cstrings ?v)) + length ss < 2 ^ 64"
    using card_dom_upd [of "cstrings v" ?r a] Cons.prems(2) by simp
  from Cons.IH [OF rs(1) this] have IH: "map (cstrings v') rs = map Some ss"
    and keep: "cstrings ?v x = Some s \<longrightarrow> cstrings v' x = Some s" for x s by blast+
  have "cstrings v' x = Some s" if "cstrings v x = Some s" for x s
    using keep [of x s] that fresh by (cases "x = ?r") simp_all
  then show ?case using IH keep [of ?r a] rs(2) by simp
qed simp

section \<open>The new process\<close>

lemma with_rt_simps [simp]:
  "vsys (with_rt f v) = f (vsys v)" "cstrings (with_rt f v) = cstrings v" "vwords (with_rt f v) = vwords v"
  "vas (with_rt f v) = vas v" "BINARY_CACHE (with_rt f v) = BINARY_CACHE v"
  by (simp_all add: with_rt_def vsys_def with_sys_def)

lemma vsys_upd [simp]:
  "vsys (v\<lparr>vwords := m\<rparr>) = vsys v" "vsys (v\<lparr>vas := a\<rparr>) = vsys v" "vsys (v\<lparr>BINARY_CACHE := c\<rparr>) = vsys v"
  by (simp_all add: vsys_def)

lemma real_close_fold:
  "psys (fold (\<lambda>rfd p. snd (real_close L rfd p)) rfds p) = emit (map RealClose rfds) (psys p)"
  by (induction rfds arbitrary: p) (auto simp: real_close_def with_sys_def emit_def)

text \<open>What closing on exec leaves of the table the new process starts with.\<close>

definition exec_world :: "VPid option \<Rightarrow> VPid \<Rightarrow> fd_world \<Rightarrow> fd_world" where
  "exec_world cur vpid w =
     (let w1 = (case cur of Some pid \<Rightarrow> fork_fd_table pid vpid w | None \<Rightarrow> w)
      in case get_table vpid w1 of None \<Rightarrow> w1 | Some t \<Rightarrow> put_table vpid (wstore w1, snd (close_cloexec t)) w1)"

definition exec_closes :: "VPid option \<Rightarrow> VPid \<Rightarrow> fd_world \<Rightarrow> c_int list" where
  "exec_closes cur vpid w =
     (let w1 = (case cur of Some pid \<Rightarrow> fork_fd_table pid vpid w | None \<Rightarrow> w)
      in case get_table vpid w1 of None \<Rightarrow> [] | Some t \<Rightarrow> fst (close_cloexec t))"

lemma inherit_fds_sys:
  "vsys (inherit_fds W cur vpid v) =
     (vsys v)\<lparr>fdw := exec_world cur vpid (fdw (vsys v)),
             trace := trace (vsys v) @ map RealClose (exec_closes cur vpid (fdw (vsys v)))\<rparr>"
  "cstrings (inherit_fds W cur vpid v) = cstrings v" "vwords (inherit_fds W cur vpid v) = vwords v"
  by (auto simp: inherit_fds_def exec_world_def exec_closes_def Let_def real_close_fold vsys_def with_rt_def with_sys_def emit_def
      split: option.split prod.split)

lemma exec_spawn_ok:
  assumes "exec_spawn W e sb argv_c envp_c auxv v = (Ok vpid, v')"
  shows "\<exists>sp m h. elf_stack sb ELF_STACK_SIZE (of_nat (length argv_c)) argv_c envp_c auxv (vwords v) = (sp, m) \<and>
    w_mco W e sp = Some h \<and> vpid = next_pid (ex (vsys v)) \<and> vwords v' = m \<and> cstrings v' = cstrings v \<and>
    (\<exists>es. trace (vsys v') = trace (vsys v) @ es) \<and> ready_queue (ex (vsys v')) = ready_queue (ex (vsys v)) @ [vpid] \<and>
    fdw (vsys v') = fdw (vsys v) \<and> ex_set (vsys v') = ex_set (vsys v) \<and> mco_running (vsys v') = mco_running (vsys v) \<and>
    current (ex (vsys v')) = current (ex (vsys v)) \<and>
    (\<exists>c. hm_get (vprocs (ex (vsys v'))) vpid = Some c \<and> co c = h \<and> state c = Ready \<and> ppid c = 0)"
proof -
  obtain sp m where st: "elf_stack sb ELF_STACK_SIZE (of_nat (length argv_c)) argv_c envp_c auxv (vwords v) = (sp, m)"
    by fastforce
  then show ?thesis using assms
    by (auto simp: exec_spawn_def spawn_elf_def coroutine_new_elf_def bump_pid_def Let_def with_queue_def
        insert_vproc_def with_vprocs_def emit_def split: if_splits option.splits)
qed

lemma exec_stack_ok:
  "exec_stack W v = (Ok sb, v') \<Longrightarrow> quiet v v' \<and> (\<exists>pl. w_place W = Some pl \<and> sb = pl + w_page W)"
  by (auto simp: exec_stack_def alloc_elf_stack_def Let_def bind_eq_Some_conv split: option.splits prod.splits)

lemma length_build_auxv: "length (build_auxv file r img b) \<le> 9"
  by (simp add: build_auxv_def split: option.split)

text \<open>How a new process joins the executor: every other process and every exit code stays.\<close>

definition joined :: "sys \<Rightarrow> VPid \<Rightarrow> sys \<Rightarrow> bool" where
  "joined s vpid s' \<longleftrightarrow> next_pid (ex s') = vpid + 1 \<and> exit_codes (ex s') = exit_codes (ex s) \<and>
     (\<forall>q. q \<noteq> vpid \<longrightarrow> hm_get (vprocs (ex s')) q = hm_get (vprocs (ex s)) q) \<and>
     (sched_ok s \<longrightarrow> next_pid (ex s) \<noteq> - 1 \<longrightarrow> sched_ok s')"

lemma exec_spawn_joined:
  assumes "exec_spawn W e sb argv_c envp_c auxv v = (Ok vpid, v')"
  shows "joined (vsys v) vpid (vsys v')"
proof -
  obtain m s where sp: "spawn_elf e sb ELF_STACK_SIZE (of_nat (length argv_c)) argv_c envp_c auxv (w_mco W) (vwords v) (vsys v) =
      Some (vpid, m, s)" and v': "vsys v' = s"
    using assms by (auto simp: exec_spawn_def split: if_splits option.splits)
  have "sched_ok s" if "sched_ok (vsys v)" "next_pid (ex (vsys v)) \<noteq> - 1" using spawn_elf_keeps [OF that sp] .
  moreover have "next_pid (ex s) = vpid + 1 \<and> exit_codes (ex s) = exit_codes (ex (vsys v)) \<and>
      (\<forall>q. q \<noteq> vpid \<longrightarrow> hm_get (vprocs (ex s)) q = hm_get (vprocs (ex (vsys v))) q)"
    using sp by (cases "hm_get (vprocs (ex (vsys v))) (next_pid (ex (vsys v)))")
      (auto simp: spawn_elf_def bump_pid_def Let_def with_queue_def insert_vproc_def with_vprocs_def emit_def)
  ultimately show ?thesis using v' by (simp add: joined_def)
qed

lemma joined_update:
  assumes "joined s vpid s'" and "\<And>c. cid (u c) = cid c \<and> ppid (u c) = ppid c \<and> state (u c) = state c \<and> io_wait (u c) = io_wait c"
  shows "joined s vpid (with_vprocs (hm_modify vpid u) s')"
  using assms(1) update_keeps [OF _ assms(2)] by (simp add: joined_def)

lemma joined_cong: "joined s vpid s' \<Longrightarrow> ex t = ex s \<Longrightarrow> ex t' = ex s' \<Longrightarrow> joined t vpid t'"
  by (simp_all add: joined_def sched_ok_def)

text \<open>What starting a program does to the runtime.\<close>

definition started ::
  "vworld \<Rightarrow> usize list \<Rightarrow> usize list \<Rightarrow> VPid option \<Rightarrow> vst \<Rightarrow> VPid \<Rightarrow> vst \<Rightarrow> bool" where
  "started W argv_c envp_c cur v vpid v' \<longleftrightarrow>
     (\<exists>pl e sp auxv c. w_place W = Some pl \<and> length auxv \<le> 9 \<and>
        elf_stack (pl + w_page W) ELF_STACK_SIZE (of_nat (length argv_c)) argv_c envp_c auxv (vwords v) = (sp, vwords v') \<and>
        w_mco W e sp = Some (co c) \<and> hm_get (vprocs (ex (vsys v'))) vpid = Some c \<and> state c = Ready \<and> ppid c = 0 \<and>
        c_strings c = argv_c @ envp_c) \<and>
     vpid = next_pid (ex (vsys v)) \<and> cstrings v' = cstrings v \<and>
     ex_set (vsys v') = ex_set (vsys v) \<and> mco_running (vsys v') = mco_running (vsys v) \<and>
     current (ex (vsys v')) = current (ex (vsys v)) \<and>
     ready_queue (ex (vsys v')) = ready_queue (ex (vsys v)) @ [vpid] \<and>
     fdw (vsys v') = exec_world cur vpid (fdw (vsys v)) \<and> joined (vsys v) vpid (vsys v') \<and>
     (\<exists>es. trace (vsys v') = trace (vsys v) @ es @ map RealClose (exec_closes cur vpid (fdw (vsys v))))"

lemma start_program_ok:
  assumes "start_program W rp bs hdr argv_c envp_c cur v = (Ok vpid, v')"
  shows "started W argv_c envp_c cur v vpid v'"
proof -
  define auxv where "auxv = build_auxv (w_auxv W) (w_random W) \<lparr>base = bs, total_size = 0, entry = bs + e_entry hdr,
      phdr_addr = bs + e_phoff hdr, phnum = e_phnum hdr, phentsize = e_phentsize hdr, interp_path = None\<rparr> 0"
  obtain sb v1 v2 where st: "exec_stack W v = (Ok sb, v1)"
    and sp: "exec_spawn W (bs + e_entry hdr) sb argv_c envp_c auxv (with_rt (set_current_executor (ex_set (vsys v1))) v1) = (Ok vpid, v2)"
    and v': "v' = inherit_fds W cur vpid (track_binary_user vpid rp (register_elf_c_strings vpid (argv_c @ envp_c) v2))"
    using assms by (auto simp: start_program_def Let_def vbind_Ok auxv_def)
  have q: "quiet v v1" "\<exists>pl. w_place W = Some pl \<and> sb = pl + w_page W" using exec_stack_ok [OF st] by auto
  have rt: "vsys v1 = vsys v" "vwords v1 = vwords v" "cstrings v1 = cstrings v" using q(1) by (simp_all add: quiet_def vsys_def)
  have aux: "length auxv \<le> 9" by (simp add: auxv_def length_build_auxv)
  have "joined (vsys v) vpid (vsys v2)"
    using rt(1) by (intro joined_cong [OF exec_spawn_joined [OF sp]]) (simp_all add: set_current_executor_def)
  then have "joined (vsys v) vpid (with_vprocs (hm_modify vpid (\<lambda>c. c\<lparr>binary_path := Some rp\<rparr>))
      (with_vprocs (hm_modify vpid (\<lambda>c. c\<lparr>c_strings := argv_c @ envp_c\<rparr>)) (vsys v2)))"
    by (intro joined_update) simp_all
  then have "joined (vsys v) vpid (vsys v')"
    by (rule joined_cong) (simp_all add: v' inherit_fds_sys track_binary_user_def register_elf_c_strings_def
        register_c_strings_def Let_def)
  then show ?thesis
    using exec_spawn_ok [OF sp] q(2) aux rt
    by (force simp: started_def v' inherit_fds_sys track_binary_user_def register_elf_c_strings_def
        register_c_strings_def with_vprocs_def Let_def set_current_executor_def)
qed

lemma started_quiet: "quiet v v1 \<Longrightarrow> started W ac ec cur v1 vpid v' = started W ac ec cur v vpid v'"
  by (simp add: started_def quiet_def vsys_def)

lemma via_entry_cached_ok:
  assumes "via_entry_cached W path rp ac ec cur saved v = (Ok vpid, v')"
  shows "started W ac ec cur v vpid v'"
proof -
  obtain v1 v2 bs hdr where "quiet v v1" "quiet v1 v2" "start_program W rp bs hdr ac ec cur v2 = (Ok vpid, v')"
    using assms by (auto simp: via_entry_cached_def vbind_Ok dest!: on_memory_quiet)
  then show ?thesis using start_program_ok started_quiet quiet_trans by metis
qed

lemma via_entry_first_ok:
  assumes "via_entry_first W path rp ac ec cur v = (Ok vpid, v')"
  shows "started W ac ec cur v vpid v'"
proof -
  obtain a v1 v2 v3 v4 v5 v6 bs hdr where "quiet (v\<lparr>vas := a\<rparr>) v1" "quiet v1 v2" "quiet v2 v3" "quiet v3 v4" "quiet v4 v5"
    "quiet v5 v6" "start_program W rp bs hdr ac ec cur v6 = (Ok vpid, v')"
    using assms
    by (auto simp: via_entry_first_def vbind_Ok Let_def split: prod.splits if_splits option.splits dest!: quiet_steps)
  then show ?thesis using start_program_ok started_quiet quiet_trans quiet_vas(1) by metis
qed

lemma via_entry_ok:
  assumes "virtual_execve_via_entry W path argv envp v = (Ok vpid, v')"
  shows "\<exists>ac ec v1 v2. build_c_strings W argv v = (Ok ac, v1) \<and> build_c_strings W envp v1 = (Ok ec, v2) \<and>
    started W ac ec (current (ex (vsys v))) v2 vpid v'"
proof -
  obtain ac ec v1 v2 where bc: "build_c_strings W argv v = (Ok ac, v1)" "build_c_strings W envp v1 = (Ok ec, v2)"
    and "(\<exists>p rp saved. via_entry_cached W p rp ac ec (current (ex (vsys v2))) saved v2 = (Ok vpid, v')) \<or>
      (\<exists>p rp. via_entry_first W p rp ac ec (current (ex (vsys v2))) v2 = (Ok vpid, v'))"
    using assms
    by (auto simp: virtual_execve_via_entry_def vbind_Ok Let_def split: if_splits option.splits; blast)
  then have "started W ac ec (current (ex (vsys v2))) v2 vpid v'"
    using via_entry_cached_ok via_entry_first_ok by blast
  moreover have "vsys v2 = vsys v" using build_c_strings_rt [OF bc(1)] build_c_strings_rt [OF bc(2)] by (simp add: vsys_def)
  ultimately show ?thesis using bc by auto
qed

lemma map_Some_nth: "map f xs = map Some ys \<Longrightarrow> i < length ys \<Longrightarrow> f (xs ! i) = Some (ys ! i)"
  by (metis length_map nth_map)

lemma stack_words_nth:
  "stack_words argc ac ec auxv ! 0 = argc"
  "i < length ac \<Longrightarrow> stack_words argc ac ec auxv ! Suc i = ac ! i"
  "stack_words argc ac ec auxv ! Suc (length ac) = 0"
  "i < length ec \<Longrightarrow> stack_words argc ac ec auxv ! (2 + length ac + i) = ec ! i"
  "stack_words argc ac ec auxv ! (2 + length ac + length ec) = 0"
  by (simp_all add: stack_words_def nth_append)

section \<open>Arguments\<close>

text \<open>
  C28. A program started through its entry point receives its arguments: the context is
  created with a stack pointer at which stand the number of arguments, one pointer per
  argument and a null, one pointer per environment string and a null, and every pointer
  leads to a C string with exactly the bytes the caller passed, kept by the new process
  until it ends. The allocator returns unused memory while there is any, the stack lies below the end of the
  address space and the pointers fit into it.
\<close>

theorem exec_passes_arguments:
  assumes "virtual_execve_via_entry W path argv envp v = (Ok vpid, v')"
    and "alloc_fresh W" and "w_place W = Some pl"
    and "unat pl + unat (w_page W) + 8 * 1024 * 1024 < 2 ^ 64"
    and "length argv + length envp < 1048000"
    and "card (dom (cstrings v)) + length argv + length envp < 2 ^ 64"
  shows "\<exists>c e sp. hm_get (vprocs (ex (vsys v'))) vpid = Some c \<and> w_mco W e sp = Some (co c) \<and>
    vwords v' sp = Some (of_nat (length argv)) \<and>
    (\<forall>i < length argv. \<exists>ptr \<in> set (c_strings c). vwords v' (sp + 8 * of_nat (Suc i)) = Some ptr \<and>
       cstrings v' ptr = Some (argv ! i)) \<and>
    vwords v' (sp + 8 * of_nat (Suc (length argv))) = Some 0 \<and>
    (\<forall>i < length envp. \<exists>ptr \<in> set (c_strings c). vwords v' (sp + 8 * of_nat (2 + length argv + i)) = Some ptr \<and>
       cstrings v' ptr = Some (envp ! i)) \<and>
    vwords v' (sp + 8 * of_nat (2 + length argv + length envp)) = Some 0"
proof -
  obtain ac ec v1 v2 where bc: "build_c_strings W argv v = (Ok ac, v1)" "build_c_strings W envp v1 = (Ok ec, v2)"
    and st: "started W ac ec (current (ex (vsys v))) v2 vpid v'" using via_entry_ok [OF assms(1)] by blast
  obtain e sp auxv c where aux: "length auxv \<le> 9"
    and stk: "elf_stack (pl + w_page W) ELF_STACK_SIZE (of_nat (length ac)) ac ec auxv (vwords v2) = (sp, vwords v')"
    and c: "w_mco W e sp = Some (co c)" "hm_get (vprocs (ex (vsys v'))) vpid = Some c" "c_strings c = ac @ ec"
    and cs: "cstrings v' = cstrings v2" using st assms(3) by (auto simp: started_def)
  have len: "length ac = length argv" "length ec = length envp" using build_c_strings_rt bc by blast+
  have "card (dom (cstrings v1)) + length envp < 2 ^ 64" using build_c_strings_card [OF bc(1)] assms(6) by simp
  then have heap: "map (cstrings v1) ac = map Some argv" "map (cstrings v2) ec = map Some envp"
    "\<forall>x s. cstrings v1 x = Some s \<longrightarrow> cstrings v2 x = Some s"
    using build_c_strings_heap [OF assms(2) bc(1)] build_c_strings_heap [OF assms(2) bc(2)] assms(6) by simp_all
  let ?w = "stack_words (of_nat (length ac)) ac ec auxv"
  have argv: "cstrings v' (ac ! i) = Some (argv ! i)" if "i < length argv" for i
    using map_Some_nth [OF heap(1) that] heap(3) cs by simp
  have envp: "cstrings v' (ec ! i) = Some (envp ! i)" if "i < length envp" for i
    using map_Some_nth [OF heap(2) that] cs by simp
  have "unat (pl + w_page W) = unat pl + unat (w_page W)" using assms(4) by (simp add: unat_word_ariths)
  then have fits: "unat (pl + w_page W) + unat ELF_STACK_SIZE < 2 ^ 64" "8 * length ?w + 16 \<le> unat ELF_STACK_SIZE"
    using assms(4,5) aux len by (simp_all add: ELF_STACK_SIZE_def length_stack_words)
  have n: "length ?w = 3 + length argv + length envp + 2 * length auxv" using len by (simp add: length_stack_words)
  have word: "vwords v' (sp + 8 * of_nat i) = Some (?w ! i)" if "i < 3 + length argv + length envp" for i
    using elf_stack_layout [OF stk fits] that n by simp
  note nth = stack_words_nth [where ac = ac and ec = ec and argc = "of_nat (length ac)" and auxv = auxv, unfolded len]
  have "vwords v' sp = Some (of_nat (length argv))" using word [of 0] nth(1) len by simp
  moreover have "\<exists>ptr \<in> set (c_strings c). vwords v' (sp + 8 * of_nat (Suc i)) = Some ptr \<and> cstrings v' ptr = Some (argv ! i)"
    if "i < length argv" for i
    using word [of "Suc i"] nth(2) [OF that] argv [OF that] that c(3) len by (intro bexI [of _ "ac ! i"]) simp_all
  moreover have "vwords v' (sp + 8 * of_nat (Suc (length argv))) = Some 0"
    using word [of "Suc (length argv)"] nth(3) len by simp
  moreover have "\<exists>ptr \<in> set (c_strings c). vwords v' (sp + 8 * of_nat (2 + length argv + i)) = Some ptr \<and>
      cstrings v' ptr = Some (envp ! i)" if "i < length envp" for i
    using word [of "2 + length argv + i"] nth(4) [OF that] envp [OF that] that c(3) len by (intro bexI [of _ "ec ! i"]) simp_all
  moreover have "vwords v' (sp + 8 * of_nat (2 + length argv + length envp)) = Some 0"
    using word [of "2 + length argv + length envp"] nth(5) len by simp
  ultimately show ?thesis using c(1,2) by blast
qed

text \<open>A binary of one header, found by the dynamic linker at a fixed base.\<close>

definition plain_ehdr :: Ehdr where
  "plain_ehdr = sample_ehdr\<lparr>e_phnum := 0\<rparr>"

definition free_cell :: "(usize \<Rightarrow> rstr option) \<Rightarrow> rstr \<Rightarrow> usize" where
  "free_cell h s = (case List.find (\<lambda>x. h x = None) (map of_nat [0..<2 ^ 64]) of None \<Rightarrow> 0 | Some x \<Rightarrow> x)"

definition world_sample :: "((usize \<Rightarrow> rstr option) \<Rightarrow> rstr \<Rightarrow> usize) \<Rightarrow> vworld" where
  "world_sample al =
     \<lparr>w_kernel = kernel_yes, w_libc = libc_sample, w_read = (\<lambda>_. Some (enc_ehdr plain_ehdr)),
      w_canonicalize = Some, w_dlopen = (\<lambda>_ a. (1, a)), w_dlsym = (\<lambda>_ _. 7), w_dlnext = (\<lambda>_. 0),
      w_objects = [(Some [47, 98], 0x5000)], w_alloc = al, w_place = Some 0x10000, w_page = 4096,
      w_auxv = None, w_random = 0, w_mco = (\<lambda>_ _. Some 9), w_mco_new = Some 9, w_main = (\<lambda>_. 0),
      w_ours = (\<lambda>_. 0x4000), w_execve = (\<lambda>_. - 2)\<rparr>"

lemma free_cell_fresh: "alloc_fresh (world_sample free_cell)"
proof -
  have "h (free_cell h s) = None" if full: "dom h \<noteq> UNIV" for h s
  proof -
    obtain x where "x \<notin> dom h" using full by blast
    then have "h x = None" by (simp add: domIff)
    moreover have "x \<in> set (map of_nat [0..<2 ^ 64])"
      using unsigned_less [of x] by (auto simp: image_iff intro!: bexI [of _ "unat x"])
    ultimately have "List.find (\<lambda>x. h x = None) (map of_nat [0..<2 ^ 64]) \<noteq> None" unfolding find_None_iff by blast
    then obtain y where y: "List.find (\<lambda>x. h x = None) (map of_nat [0..<2 ^ 64]) = Some y" by blast
    then have "h y = None" unfolding find_Some_iff by blast
    then show ?thesis unfolding free_cell_def y by simp
  qed
  then show ?thesis by (simp add: alloc_fresh_def world_sample_def)
qed

definition vst_sample :: "fd_world \<Rightarrow> vst" where
  "vst_sample w =
     \<lparr>vpst = (pst_with w)\<lparr>psys := (psys (pst_with w))\<lparr>ex := (ex (psys (pst_with w)))\<lparr>next_pid := 3\<rparr>\<rparr>\<rparr>, vas = aspace_init,
      vwords = Map.empty, cstrings = Map.empty, BINARY_CACHE = [], exit_hooked = False, execve_hooked = False,
      dlclosed = []\<rparr>"

lemma plain_header:
  "parse_header (enc_ehdr plain_ehdr) = Ok plain_ehdr" "program_headers data plain_ehdr = Ok []"
proof -
  have ok: "ident_ok plain_ehdr" using ident_ok_sample by (simp add: plain_ehdr_def ident_ok_def)
  then have "length (enc_ehdr plain_ehdr) = 64" by (rule ehdr.len_enc)
  moreover have "read_ehdr (enc_ehdr plain_ehdr) 0 = Ok plain_ehdr"
    using ehdr.read_at_enc [of "[]" plain_ehdr "[]" 0] ok \<open>length _ = 64\<close> by (simp add: read_ehdr_def)
  ultimately show "parse_header (enc_ehdr plain_ehdr) = Ok plain_ehdr"
    by (simp add: parse_header_def) (simp add: plain_ehdr_def sample_ehdr_def)
  show "program_headers data plain_ehdr = Ok []" by (simp add: program_headers_def plain_ehdr_def)
qed

lemma slash_b_valid: "valid_utf8 [47, 98]"
  by (simp add: valid_utf8_def utf8_lossy_ascii)

lemma exec_stack_sample: "\<exists>a. exec_stack (world_sample al) v = (Ok 0x11000, v\<lparr>vas := a\<rparr>)"
  by (simp add: exec_stack_def world_sample_def alloc_elf_stack_def mmap_fixed_def kernel_yes_def ELF_STACK_SIZE_def
      ok_or_def Let_def) blast

lemma start_runs_sample:
  assumes sys: "ex_set (vsys v)" "next_pid (ex (vsys v)) = n"
  shows "\<exists>v'. start_program (world_sample al) rp bs hdr ac ec cur v = (Ok n, v')"
proof -
  obtain a where a: "exec_stack (world_sample al) v = (Ok 0x11000, v\<lparr>vas := a\<rparr>)" using exec_stack_sample by blast
  have "\<exists>v2. exec_spawn (world_sample al) e sb ac ec auxv (with_rt (set_current_executor True) (v\<lparr>vas := a\<rparr>)) = (Ok n, v2)" for e sb auxv
    using sys by (simp add: exec_spawn_def spawn_elf_def coroutine_new_elf_def world_sample_def bump_pid_def Let_def
        set_current_executor_def split: prod.split)
  then show ?thesis using a sys(1) by (fastforce simp: start_program_def Let_def vbind_Ok)
qed

lemma exec_runs:
  assumes "\<forall>s \<in> set argv. 0 \<notin> set s" and "BINARY_CACHE v = []" "\<not> exit_hooked v" "\<not> execve_hooked v"
    and "ex_set (vsys v)" and "next_pid (ex (vsys v)) = n"
  shows "\<exists>v'. virtual_execve_via_entry (world_sample al) [47, 98] argv [] v = (Ok n, v')"
proof -
  have bc: "\<exists>ac v1. build_c_strings W ss v = (Ok ac, v1)" if "\<forall>s \<in> set ss. 0 \<notin> set s" for W ss v
    using that
  proof (induction ss arbitrary: v)
    case (Cons a ss)
    then obtain ac v1 where "build_c_strings W ss (v\<lparr>cstrings := (cstrings v)(w_alloc W (cstrings v) a \<mapsto> a)\<rparr>) = (Ok ac, v1)"
      by fastforce
    then show ?case using Cons.prems by (simp add: Let_def)
  qed simp
  obtain ac v1 where b1: "build_c_strings (world_sample al) argv v = (Ok ac, v1)" using bc [OF assms(1)] by blast
  have v1: "vpst v1 = vpst v" "BINARY_CACHE v1 = []" "\<not> exit_hooked v1" "\<not> execve_hooked v1"
    using build_c_strings_rt [OF b1] assms(2-4) by simp_all
  have set: "ex_set (vsys v1)" using v1(1) assms(5) by (simp add: vsys_def)
  let ?W = "world_sample al"
  have W: "w_canonicalize ?W p = Some p" "w_read ?W p = Some (enc_ehdr plain_ehdr)" "w_dlopen ?W p a = (1, a)"
    "w_dlsym ?W h n = 7" "w_dlnext ?W n = 0" "find_loaded_base ?W [47, 98] = Some 0x5000" for p a h n
    by (simp_all add: world_sample_def find_loaded_base_def dl_iterate_callback_def slash_b_valid)
  define v2 where "v2 = v1\<lparr>exit_hooked := True, execve_hooked := True, BINARY_CACHE :=
    hm_insert [47, 98] \<lparr>main_addr = 7, dl_handle = 1, saved_writable = [], active_users = 0\<rparr> []\<rparr>"
  have "ex_set (vsys v2)" "next_pid (ex (vsys v2)) = n" using v1(1) assms(5,6) by (simp_all add: v2_def vsys_def)
  from start_runs_sample [OF this]
  obtain v' where v': "start_program ?W [47, 98] 0x5000 plain_ehdr ac [] (current (ex (vsys v1))) v2 = (Ok n, v')"
    by blast
  have "via_entry_first ?W [47, 98] [47, 98] ac [] (current (ex (vsys v1))) v1 = (Ok n, v')"
    using v' v1 by (simp add: via_entry_first_def ok_or_def W plain_header main_of_def on_memory_def clear_init_arrays_def
        dyn_phdr_def hook_libc_exit_def hook_libc_execve_def patch_got_for_loaded_binary_def save_binary_def v2_def)
  then show ?thesis using b1 v1(2) set by (auto simp: virtual_execve_via_entry_def ok_or_def W slash_b_valid)
qed

lemma exec_runs_sample:
  assumes "\<forall>s \<in> set argv. 0 \<notin> set s"
  shows "\<exists>v'. virtual_execve_via_entry (world_sample al) [47, 98] argv [] (vst_sample w) = (Ok 3, v')"
  using assms by (rule exec_runs) (simp_all add: vst_sample_def vsys_def)

theorem exec_passes_arguments_witness:
  "\<exists>v' c e sp ptr. virtual_execve_via_entry (world_sample free_cell) [47, 98] [[97, 98, 99]] [] (vst_sample fd_world_init) = (Ok 3, v') \<and>
    hm_get (vprocs (ex (vsys v'))) 3 = Some c \<and> w_mco (world_sample free_cell) e sp = Some (co c) \<and>
    vwords v' sp = Some 1 \<and> vwords v' (sp + 8) = Some ptr \<and> cstrings v' ptr = Some [97, 98, 99] \<and> vwords v' (sp + 16) = Some 0"
proof -
  let ?W = "world_sample free_cell" and ?v = "vst_sample fd_world_init"
  have ar: "\<forall>s \<in> set [[97, 98, 99]]. 0 \<notin> set (s :: rstr)" by simp
  obtain v' where run: "virtual_execve_via_entry ?W [47, 98] [[97, 98, 99]] [] ?v = (Ok 3, v')" using exec_runs_sample [OF ar] by blast
  have W: "w_place ?W = Some 0x10000" "w_page ?W = 4096" by (simp_all add: world_sample_def)
  obtain c e sp where c: "hm_get (vprocs (ex (vsys v'))) 3 = Some c" "w_mco ?W e sp = Some (co c)"
    "vwords v' sp = Some (of_nat (length [[97, 98, 99]]))"
    "\<forall>i < length [[97, 98, 99 :: u8]]. \<exists>ptr \<in> set (c_strings c). vwords v' (sp + 8 * of_nat (Suc i)) = Some ptr \<and>
       cstrings v' ptr = Some ([[97, 98, 99]] ! i)"
    "vwords v' (sp + 8 * of_nat (Suc (length [[97, 98, 99]]))) = Some 0"
    using exec_passes_arguments [OF run free_cell_fresh W(1)] W(2) by (auto simp: vst_sample_def)
  obtain ptr where "vwords v' (sp + 8) = Some ptr" "cstrings v' ptr = Some [97, 98, 99]" using c(4) by auto
  then show ?thesis using run c by auto
qed

end
