(* ===== verification/Exec_Laws.thy ===== *)
theory Exec_Laws
  imports Vexec_Laws
begin

text \<open>
  What becomes of the descriptors and of the exit status when a process executes a program:
  inheritance and close on exec, the real descriptors closed on the way, the loaders that
  inherit nothing, and the status the calling process reports.
\<close>

section \<open>Descriptors\<close>

lemma hm_insert_twice: "hm_insert k v (hm_insert k u m) = hm_insert k v m"
  by (induction m) (simp_all add: hm_insert_def)

lemma exec_world_eq:
  assumes "world_ok w" and "get_table p w = Some t" and "get_table c w = None"
  shows "exec_world (Some p) c w = w\<lparr>wstore := wstore w, tables := hm_insert c (snd (close_cloexec t)) (tables w)\<rparr>"
    and "exec_closes (Some p) c w = fst (close_cloexec t)"
proof -
  have "hm_ok (fds t)" using world_okD(3) [OF assms(1,2)] by (simp add: tab_ok_def vt_wf_def)
  then have fork: "fork_fd_table p c w = w\<lparr>wstore := wstore w, tables := hm_insert c t (tables w)\<rparr>"
    using assms(2,3) by (simp add: fork_fd_table_def insert_table_def drop_entry_def get_table_def clone_for_fork_id)
  then have get: "get_table c (fork_fd_table p c w) = Some t" by (simp add: get_table_def)
  show "exec_world (Some p) c w = w\<lparr>wstore := wstore w, tables := hm_insert c (snd (close_cloexec t)) (tables w)\<rparr>"
    using get by (simp add: exec_world_def put_table_def fork hm_insert_twice)
  show "exec_closes (Some p) c w = fst (close_cloexec t)" using get by (simp add: exec_closes_def)
qed

lemma via_entry_fds:
  assumes "virtual_execve_via_entry W path argv envp v = (Ok vpid, v')"
  shows "vpid = next_pid (ex (vsys v))"
    and "fdw (vsys v') = exec_world (current (ex (vsys v))) vpid (fdw (vsys v))"
    and "\<exists>es. trace (vsys v') = trace (vsys v) @ es @ map RealClose (exec_closes (current (ex (vsys v))) vpid (fdw (vsys v)))"
proof -
  obtain ac ec v1 v2 where bc: "build_c_strings W argv v = (Ok ac, v1)" "build_c_strings W envp v1 = (Ok ec, v2)"
    and st: "started W ac ec (current (ex (vsys v))) v2 vpid v'" using via_entry_ok [OF assms] by blast
  have "vsys v2 = vsys v" using build_c_strings_rt [OF bc(1)] build_c_strings_rt [OF bc(2)] by (simp add: vsys_def)
  then show "vpid = next_pid (ex (vsys v))"
    and "fdw (vsys v') = exec_world (current (ex (vsys v))) vpid (fdw (vsys v))"
    and "\<exists>es. trace (vsys v') = trace (vsys v) @ es @ map RealClose (exec_closes (current (ex (vsys v))) vpid (fdw (vsys v)))"
    using st unfolding started_def by auto
qed

text \<open>
  C29. Executing a program through its entry point passes the descriptors on as POSIX asks:
  the new process sees under every number what the caller had there, except the
  close-on-exec ones, which it does not have; no other table and no pipe buffer changes.
\<close>

theorem exec_inherits_descriptors:
  assumes "virtual_execve_via_entry W path argv envp v = (Ok vpid, v')"
    and "current (ex (vsys v)) = Some p" and "world_ok (fdw (vsys v))"
    and "get_table p (fdw (vsys v)) = Some t" and "file_consistent t"
    and "get_table (next_pid (ex (vsys v))) (fdw (vsys v)) = None"
  shows "(\<exists>t'. get_table vpid (fdw (vsys v')) = Some t' \<and>
      vt_get t' = (\<lambda>k. case vt_get t k of None \<Rightarrow> None | Some x \<Rightarrow> if is_cloexec x then None else Some x)) \<and>
    (\<forall>q. get_table q (fdw (vsys v')) = (if q = vpid then get_table vpid (fdw (vsys v')) else get_table q (fdw (vsys v)))) \<and>
    wstore (fdw (vsys v')) = wstore (fdw (vsys v))"
proof -
  note via = via_entry_fds [OF assms(1)]
  have ok: "hm_ok (fds t)" using world_okD(3) [OF assms(3,4)] by (simp add: tab_ok_def vt_wf_def)
  have "fdw (vsys v') = (fdw (vsys v))\<lparr>wstore := wstore (fdw (vsys v)),
      tables := hm_insert vpid (snd (close_cloexec t)) (tables (fdw (vsys v)))\<rparr>"
    using via(1,2) exec_world_eq(1) [OF assms(3,4,6)] assms(2) by simp
  then show ?thesis using close_cloexec_exact [OF ok assms(5)] by (auto simp: get_table_def)
qed

definition exec_table :: vfd_table where
  "exec_table = \<lparr>fds = [(0, Real 0), (3, File 0 \<lparr>real_fd = 40, cloexec = True\<rparr>),
     (4, File 1 \<lparr>real_fd = 41, cloexec = False\<rparr>)], next_fd = 5\<rparr>"

definition exec_fds :: fd_world where
  "exec_fds = \<lparr>wstore = \<lparr>pipes = Map.empty, next_arc = 2\<rparr>, tables = [(1, exec_table)]\<rparr>"

lemma exec_fds_facts:
  "world_ok exec_fds" "get_table 1 exec_fds = Some exec_table" "get_table 3 exec_fds = None"
  "file_consistent exec_table" "strong_count 0 exec_fds = 1"
proof -
  show "world_ok exec_fds"
    by (auto simp: world_ok_def exec_fds_def exec_table_def tab_ok_def vt_wf_def hm_ok_def hm_keys_def store_ok_def hm_get_def vt_get_def
        hm_contains_def split: if_splits)
  show "file_consistent exec_table"
    by (auto simp: exec_table_def file_consistent_def vt_get_def hm_get_def split: if_splits)
qed (simp_all add: exec_fds_def exec_table_def get_table_def hm_get_def strong_count_def hm_values_def)

lemma vst_sample_sel [simp]:
  "fdw (vsys (vst_sample w)) = w" "current (ex (vsys (vst_sample w))) = Some 1" "next_pid (ex (vsys (vst_sample w))) = 3"
  "ex_set (vsys (vst_sample w))" "trace (vsys (vst_sample w)) = []" "mco_running (vsys (vst_sample w)) = Some 1"
  by (simp_all add: vst_sample_def vsys_def)

theorem exec_inherits_descriptors_witness:
  "\<exists>v' t'. virtual_execve_via_entry (world_sample free_cell) [47, 98] [] [] (vst_sample exec_fds) = (Ok 3, v') \<and>
     get_table 3 (fdw (vsys v')) = Some t' \<and> vt_get t' 3 = None \<and> vt_get t' 0 = Some (Real 0)"
proof -
  obtain v' where run: "virtual_execve_via_entry (world_sample free_cell) [47, 98] [] [] (vst_sample exec_fds) = (Ok 3, v')"
    using exec_runs_sample [of "[]"] by auto
  note ex = exec_inherits_descriptors [OF run, unfolded vst_sample_sel, OF refl exec_fds_facts(1,2,4,3)]
  obtain t' where t': "get_table 3 (fdw (vsys v')) = Some t'"
    "vt_get t' = (\<lambda>k. case vt_get exec_table k of None \<Rightarrow> None | Some x \<Rightarrow> if is_cloexec x then None else Some x)"
    using ex by blast
  have "vt_get t' 3 = None" "vt_get t' 0 = Some (Real 0)"
    unfolding t'(2) by (simp_all add: exec_table_def vt_get_def hm_get_def)
  then show ?thesis using run t'(1) by blast
qed

text \<open>
  Close on exec closes a file twice: when the caller is the only holder of a
  close-on-exec file, starting a program closes its real descriptor, and the caller's
  table, which still has the entry, hands out the same descriptor for closing again when
  the caller is reaped. The number may by then belong to another file.
\<close>

theorem exec_closes_file_twice:
  assumes "virtual_execve_via_entry W path argv envp v = (Ok vpid, v')"
    and "current (ex (vsys v)) = Some p" and "world_ok (fdw (vsys v))"
    and "get_table p (fdw (vsys v)) = Some t" and "file_consistent t"
    and "get_table (next_pid (ex (vsys v))) (fdw (vsys v)) = None"
    and "vt_get t k = Some (File a f)" and "cloexec f" and "strong_count a (fdw (vsys v)) = 1"
  shows "(\<exists>es. trace (vsys v') = trace (vsys v) @ es \<and> RealClose (real_fd f) \<in> set es) \<and>
    real_fd f \<in> set (fst (remove_table_and_get_fds p (fdw (vsys v'))))"
proof -
  let ?w = "fdw (vsys v)" and ?w' = "fdw (vsys v')" and ?t = "snd (close_cloexec t)"
  note via = via_entry_fds [OF assms(1), unfolded assms(2)]
  have ok: "hm_ok (fds t)" using world_okD(3) [OF assms(3,4)] by (simp add: tab_ok_def vt_wf_def)
  note exact = close_cloexec_exact [OF ok assms(5)]
  have w': "?w' = ?w\<lparr>wstore := wstore ?w, tables := hm_insert vpid ?t (tables ?w)\<rparr>"
    using via(1,2) exec_world_eq(1) [OF assms(3,4,6)] by simp
  have fresh: "hm_get (tables ?w) vpid = None" using assms(6) via(1) by (simp add: get_table_def)
  have "real_fd f \<in> set (fst (close_cloexec t))" using exact assms(7,8) by blast
  then have closed: "\<exists>es. trace (vsys v') = trace (vsys v) @ es \<and> RealClose (real_fd f) \<in> set es"
    using via(1,3) exec_world_eq(2) [OF assms(3,4,6)] by force
  have tab: "tab_ok (wstore ?w) ?t" using close_cloexec_keeps world_okD(3) [OF assms(3,4)] by blast
  then have ok': "hm_ok (fds ?t)" by (simp add: tab_ok_def vt_wf_def)
  have "File a g \<notin> set (hm_values (fds ?t))" for g
  proof
    assume "File a g \<in> set (hm_values (fds ?t))"
    then obtain j where "vt_get ?t j = Some (File a g)" using vt_get_values [OF ok'] by blast
    then have "vt_get t j = Some (File a g)" "\<not> cloexec g" using exact by (auto split: option.splits if_splits)
    then show False using assms(5,7,8) unfolding file_consistent_def by blast
  qed
  then have "filter (refs_file a) (hm_values (fds ?t)) = []" by (auto simp: filter_empty_conv refs_file_iff)
  then have one: "strong_count a ?w' = 1"
    using strong_count_insert_fresh [OF fresh, where a = a and st = "wstore ?w" and t = ?t] assms(9) w' by simp
  have "p \<noteq> vpid" using assms(4,6) via(1) by auto
  then have get: "get_table p ?w' = Some t" using assms(4) w' by (simp add: get_table_def)
  have wok: "world_ok ?w'"
    using world_ok_update [OF assms(3) world_okD(1) [OF assms(3)] store_le_refl tab] w' by simp
  show ?thesis using closed reaped_fds [OF wok get] one assms(7) by blast
qed

theorem exec_closes_file_twice_witness:
  "\<exists>v'. virtual_execve_via_entry (world_sample free_cell) [47, 98] [] [] (vst_sample exec_fds) = (Ok 3, v') \<and>
     RealClose 40 \<in> set (trace (vsys v')) \<and> 40 \<in> set (fst (remove_table_and_get_fds 1 (fdw (vsys v'))))"
proof -
  obtain v' where run: "virtual_execve_via_entry (world_sample free_cell) [47, 98] [] [] (vst_sample exec_fds) = (Ok 3, v')"
    using exec_runs_sample [of "[]"] by auto
  have entry: "vt_get exec_table 3 = Some (File 0 \<lparr>real_fd = 40, cloexec = True\<rparr>)"
    by (simp add: exec_table_def vt_get_def hm_get_def)
  show ?thesis
    using run exec_closes_file_twice [OF run, unfolded vst_sample_sel, OF refl exec_fds_facts(1,2,4,3) entry _ exec_fds_facts(5)]
    by auto
qed

section \<open>Loaders without descriptors\<close>

lemma static_exec_ok:
  assumes "virtual_execve_static W path argv envp v = (Ok vpid, v')"
  shows "\<exists>e sb ac ec auxv v1 v2 r rs. vpst v1 = vpst v \<and> exec_spawn W e sb ac ec auxv v1 = (Ok vpid, v2) \<and>
    v' = with_rt (register_mapped_region vpid r rs) (register_elf_c_strings vpid (ac @ ec) v2)"
proof -
  obtain e sb ac ec auxv v1 v2 r rs where
    "vpst v1 = vpst v" "exec_spawn W e sb ac ec auxv v1 = (Ok vpid, v2)"
    "v' = with_rt (register_mapped_region vpid r rs) (register_elf_c_strings vpid (ac @ ec) v2)"
    using assms
    by (auto simp: virtual_execve_static_def vbind_Ok quiet_def dest!: build_c_strings_rt exec_stack_ok
        split: if_splits prod.splits)
  then show ?thesis by blast
qed

text \<open>
  A statically linked program starts without any descriptor: the loader for static
  binaries, unlike the one for dynamic binaries, leaves the descriptor tables as they are,
  so that the new process has no table and not even standard input and output.
\<close>

theorem static_exec_has_no_descriptors:
  assumes "virtual_execve_static W path argv envp v = (Ok vpid, v')"
    and "get_table (next_pid (ex (vsys v))) (fdw (vsys v)) = None"
  shows "fdw (vsys v') = fdw (vsys v) \<and> get_table vpid (fdw (vsys v')) = None \<and>
    (\<exists>c. hm_get (vprocs (ex (vsys v'))) vpid = Some c \<and> state c = Ready)"
proof -
  obtain e sb ac ec auxv v1 v2 r rs where
    v1: "vpst v1 = vpst v" and sp: "exec_spawn W e sb ac ec auxv v1 = (Ok vpid, v2)"
    and v': "v' = with_rt (register_mapped_region vpid r rs) (register_elf_c_strings vpid (ac @ ec) v2)"
    using static_exec_ok [OF assms(1)] by blast
  have "vsys v1 = vsys v" using v1 by (simp add: vsys_def)
  then show ?thesis using exec_spawn_ok [OF sp] assms(2) v'
    by (auto simp: register_mapped_region_def register_elf_c_strings_def register_c_strings_def with_vprocs_def)
qed

definition blank_phdr :: Phdr where
  "blank_phdr = \<lparr>p_type = 1, p_flags = 6, p_offset = 0, p_vaddr = 0, p_paddr = 0, p_filesz = 0, p_memsz = 0x1000, p_align = 0x1000\<rparr>"

definition static_file :: "u8 list" where
  "static_file = enc_ehdr sample_ehdr @ enc_phdr blank_phdr"

lemma static_file_parses:
  "parse_header static_file = Ok sample_ehdr" "program_headers static_file sample_ehdr = Ok [blank_phdr]"
proof -
  have len: "length (enc_ehdr sample_ehdr) = 64" "length (enc_phdr blank_phdr) = 56"
    using ehdr.len_enc [OF ident_ok_sample] phdr.len_enc by simp_all
  have "read_ehdr static_file 0 = Ok sample_ehdr"
    using ehdr.read_at_enc [of "[]" sample_ehdr "enc_phdr blank_phdr" 0] len by (simp add: read_ehdr_def static_file_def)
  then show "parse_header static_file = Ok sample_ehdr"
    using len by (simp add: parse_header_def static_file_def) (simp add: sample_ehdr_def)
  have "read_phdr static_file 64 = Ok blank_phdr"
    using phdr.read_at_enc [of "enc_ehdr sample_ehdr" blank_phdr "[]" 64] len by (simp add: read_phdr_def static_file_def)
  moreover have "unat (e_phnum sample_ehdr) = Suc 0" "e_phoff sample_ehdr = 64" by (simp_all add: sample_ehdr_def)
  ultimately show "program_headers static_file sample_ehdr = Ok [blank_phdr]" by (simp add: program_headers_def)
qed

lemma load_static_sample: "\<exists>img a. load_pie kernel_yes static_file aspace_init = (Ok img, a)"
proof -
  have "range_free bs sz (aspace_init\<lparr>next_base := b\<rparr>)" for bs sz b
    by (simp add: range_free_def aspace_init_def list_all_iff)
  moreover have "e_type sample_ehdr = ET_DYN" by (simp add: sample_ehdr_def)
  ultimately show ?thesis
    by (simp add: load_pie_def static_file_parses validate_pie_def load_segments_def load_span_def alloc_slot_def
        mmap_noreplace_def mmap_fixed_def kernel_yes_def map_load_segment_def mprotect_def relocate_def
        page_align_up_def page_align_down_def PAGE_SIZE_def Let_def blank_phdr_def)
qed

definition static_world :: vworld where
  "static_world = (world_sample free_cell)\<lparr>w_read := (\<lambda>_. Some static_file)\<rparr>"

lemma static_world_sel: "w_read static_world p = Some static_file" "w_kernel static_world = kernel_yes"
  "w_auxv static_world = None" "w_random static_world = 0"
  by (simp_all add: static_world_def world_sample_def)

lemma sample_machine: "e_machine sample_ehdr = EM_AARCH64" "p_type blank_phdr = 1"
  by (simp_all add: sample_ehdr_def blank_phdr_def)

lemma static_runs_sample:
  assumes "vas v = aspace_init" and "ex_set (vsys v)" and "next_pid (ex (vsys v)) = 3"
  shows "\<exists>v'. virtual_execve_static static_world path [] [] v = (Ok 3, v')"
proof -
  obtain img a where load: "load_pie kernel_yes static_file aspace_init = (Ok img, a)" using load_static_sample by blast
  obtain a2 where "exec_stack (world_sample free_cell) (v\<lparr>vas := a\<rparr>) = (Ok 0x11000, (v\<lparr>vas := a\<rparr>)\<lparr>vas := a2\<rparr>)"
    using exec_stack_sample by blast
  then have st: "exec_stack static_world (v\<lparr>vas := a\<rparr>) = (Ok 0x11000, v\<lparr>vas := a2\<rparr>)"
    by (simp add: exec_stack_def static_world_def)
  have "\<exists>v2. exec_spawn static_world (entry img) 0x11000 [] [] (build_auxv None 0 img 0) (v\<lparr>vas := a2\<rparr>) = (Ok 3, v2)"
    using assms(2,3) by (simp add: exec_spawn_def spawn_elf_def coroutine_new_elf_def static_world_def world_sample_def bump_pid_def
        Let_def split: prod.split)
  then obtain v2 where sp: "exec_spawn static_world (entry img) 0x11000 [] [] (build_auxv None 0 img 0) (v\<lparr>vas := a2\<rparr>) = (Ok 3, v2)"
    by blast
  show ?thesis
    using st sp unfolding virtual_execve_static_def static_world_sel ok_or_def
    by (simp add: static_file_parses sample_machine assms(1) load del: EM_AARCH64_def)
qed

theorem static_exec_has_no_descriptors_witness:
  "\<exists>v'. virtual_execve_static static_world [47, 98] [] [] (vst_sample exec_fds) = (Ok 3, v') \<and>
     get_table 1 (fdw (vsys v')) = Some exec_table \<and> get_table 3 (fdw (vsys v')) = None"
proof -
  have "vas (vst_sample exec_fds) = aspace_init" by (simp add: vst_sample_def)
  from static_runs_sample [OF this vst_sample_sel(4,3)]
  obtain v' where run: "virtual_execve_static static_world [47, 98] [] [] (vst_sample exec_fds) = (Ok 3, v')" by blast
  show ?thesis
    using run static_exec_has_no_descriptors [OF run, unfolded vst_sample_sel, OF exec_fds_facts(3)] exec_fds_facts(2,3) by simp
qed

section \<open>Exit status\<close>

lemma vbind_Err: "vbind m f = (Err e, t) \<longleftrightarrow> m = (Err e, t) \<or> (\<exists>x s. m = (Ok x, s) \<and> f x s = (Err e, t))"
proof (cases m)
  case (Pair r s)
  then show ?thesis by (cases r) auto
qed

text \<open>A failed attempt leaves the runtime as it was.\<close>

lemma build_c_strings_no_err: "build_c_strings W ss v \<noteq> (Err e, v')"
  by (induction ss arbitrary: v) (auto simp: vbind_Err Let_def)

lemma start_program_err:
  assumes "start_program W rp bs hdr ac ec cur v = (Err e, v')"
  shows "vpst v' = vpst v"
  using assms
  by (auto simp: start_program_def Let_def vbind_Err exec_spawn_def exec_stack_def split: if_splits option.splits prod.splits)

lemma memory_no_err [simp]: "on_memory f v \<noteq> (Err e, v')" "hook_libc_exit W v \<noteq> (Err e, v')"
  "hook_libc_execve W v \<noteq> (Err e, v')" "main_of W h en v \<noteq> (Err e, v')" "save_binary p m h b ps v \<noteq> (Err e, v')"
  by (auto simp: on_memory_def hook_libc_exit_def hook_libc_execve_def main_of_def save_binary_def Let_def
      split: option.splits)

lemma via_entry_err:
  assumes "virtual_execve_via_entry W path argv envp v = (Err e, v')"
  shows "vpst v' = vpst v"
proof -
  have cached: "vpst v2 = vpst v1" if "via_entry_cached W p rp ac ec cur saved v1 = (Err e, v2)" for p rp ac ec cur saved v1 v2
    using that by (auto simp: via_entry_cached_def vbind_Err quiet_def dest!: start_program_err quiet_steps)
  have first: "vpst v2 = vpst v1" if "via_entry_first W p rp ac ec cur v1 = (Err e, v2)" for p rp ac ec cur v1 v2
  proof -
    obtain h a where dl: "w_dlopen W rp (vas v1) = (h, a)" by fastforce
    show ?thesis using that
      by (cases "find_loaded_base W p"; cases "h = 0")
        (auto simp: via_entry_first_def vbind_Err Let_def quiet_def dlclose_def dl dest!: start_program_err quiet_steps
          split: if_splits)
  qed
  show ?thesis
    using assms build_c_strings_rt
    by (auto simp: virtual_execve_via_entry_def vbind_Err Let_def build_c_strings_no_err split: if_splits option.splits
        dest!: cached first build_c_strings_rt)
qed

definition spawned :: "vst \<Rightarrow> VPid \<Rightarrow> vst \<Rightarrow> bool" where
  "spawned v vpid v' \<longleftrightarrow> vpid = next_pid (ex (vsys v)) \<and> ex_set (vsys v') = ex_set (vsys v) \<and>
     current (ex (vsys v')) = current (ex (vsys v)) \<and> mco_running (vsys v') = mco_running (vsys v) \<and>
     ready_queue (ex (vsys v')) = ready_queue (ex (vsys v)) @ [vpid] \<and>
     (\<exists>c. hm_get (vprocs (ex (vsys v'))) vpid = Some c \<and> state c = Ready \<and> ppid c = 0)"

lemma spawned_rt: "vpst v1 = vpst v \<Longrightarrow> spawned v1 vpid v' = spawned v vpid v'"
  by (simp add: spawned_def vsys_def)

lemma static_spawned: "virtual_execve_static W path argv envp v = (Ok vpid, v') \<Longrightarrow> spawned v vpid v'"
proof -
  assume "virtual_execve_static W path argv envp v = (Ok vpid, v')"
  then obtain e sb ac ec auxv v1 v2 r rs where
    v1: "vpst v1 = vpst v" and sp: "exec_spawn W e sb ac ec auxv v1 = (Ok vpid, v2)"
    and v': "v' = with_rt (register_mapped_region vpid r rs) (register_elf_c_strings vpid (ac @ ec) v2)"
    using static_exec_ok by metis
  have "spawned v1 vpid v'" using exec_spawn_ok [OF sp] v'
    by (auto simp: spawned_def register_mapped_region_def register_elf_c_strings_def register_c_strings_def with_vprocs_def)
  then show ?thesis using spawned_rt [OF v1] by simp
qed

lemma via_spawned: "virtual_execve_via_entry W path argv envp v = (Ok vpid, v') \<Longrightarrow> spawned v vpid v'"
proof -
  assume "virtual_execve_via_entry W path argv envp v = (Ok vpid, v')"
  then obtain ac ec v1 v2 where bc: "build_c_strings W argv v = (Ok ac, v1)" "build_c_strings W envp v1 = (Ok ec, v2)"
    and st: "started W ac ec (current (ex (vsys v))) v2 vpid v'" using via_entry_ok by blast
  have "vpst v2 = vpst v" using build_c_strings_rt [OF bc(1)] build_c_strings_rt [OF bc(2)] by simp
  moreover have "spawned v2 vpid v'" using st unfolding started_def spawned_def by blast
  ultimately show ?thesis using spawned_rt by blast
qed

lemma spawn_effect:
  assumes "spawn f mco s = Some (pid, s')"
  shows "pid = next_pid (ex s) \<and> ex_set s' = ex_set s \<and> current (ex s') = current (ex s) \<and> mco_running s' = mco_running s \<and>
    ready_queue (ex s') = ready_queue (ex s) @ [pid] \<and>
    (\<exists>c. hm_get (vprocs (ex s')) pid = Some c \<and> state c = Ready \<and> ppid c = 0)"
  using assms
  by (cases mco; cases "hm_get (vprocs (ex s)) (next_pid (ex s))")
    (simp_all add: spawn_def bump_pid_def Let_def with_queue_def insert_vproc_def with_vprocs_def coroutine_new_def emit_def, auto)

lemma dynamic_spawned:
  assumes "virtual_execve_dynamic W path argv envp v = (Ok vpid, v')"
  shows "spawned v vpid v'"
proof -
  obtain h a where dl: "w_dlopen W path (vas v) = (h, a)" by fastforce
  let ?m = "w_dlsym W h ''main''"
  have "0 \<notin> set path" "h \<noteq> 0" "?m \<noteq> 0"
    using assms by (auto simp: virtual_execve_dynamic_def dl split: if_splits)
  then obtain ac ec v1 v2 where bc: "build_c_strings W argv (v\<lparr>vas := a\<rparr>) = (Ok ac, v1)" "build_c_strings W envp v1 = (Ok ec, v2)"
    and fin: "(if \<not> ex_set (vsys v2) then (Panic :: (vexec_error, VPid) rres, v2)
       else (case spawn (w_main W ?m) (w_mco_new W) (vsys v2) of
               None \<Rightarrow> (Panic, v2)
             | Some (vpid, s) \<Rightarrow> (Ok vpid, with_rt (\<lambda>_. register_c_strings vpid (ac @ ec) s) v2))) = (Ok vpid, v')"
    using assms by (simp add: virtual_execve_dynamic_def dl vbind_Ok Let_def) blast
  have v2: "vpst v2 = vpst v" using build_c_strings_rt [OF bc(1)] build_c_strings_rt [OF bc(2)] by simp
  obtain s where sp: "spawn (w_main W ?m) (w_mco_new W) (vsys v2) = Some (vpid, s)"
    and v': "v' = with_rt (\<lambda>_. register_c_strings vpid (ac @ ec) s) v2"
    using fin by (auto split: if_splits option.splits)
  have "spawned v2 vpid v'" using spawn_effect [OF sp]
    by (auto simp: v' spawned_def register_c_strings_def with_vprocs_def)
  then show ?thesis using spawned_rt [OF v2] by simp
qed

lemma virtual_execve_spawned:
  assumes "virtual_execve W path argv envp v = (Ok vpid, v')"
  shows "spawned v vpid v'"
proof -
  consider "virtual_execve_static W path argv envp v = (Ok vpid, v')"
    | "virtual_execve_via_entry W path argv envp v = (Ok vpid, v')"
    | e v1 where "virtual_execve_via_entry W path argv envp v = (Err e, v1)" "virtual_execve_dynamic W path argv envp v1 = (Ok vpid, v')"
    using assms by (auto simp: virtual_execve_def vbind_Ok split: if_splits prod.splits rres.splits)
  then show ?thesis
  proof cases
    case 3
    then show ?thesis using dynamic_spawned spawned_rt [OF via_entry_err] by blast
  qed (auto intro: static_spawned via_spawned)
qed

text \<open>
  A process that executes a program reports success at once: when the virtual
  \<^verbatim>\<open>execve\<close> succeeds the calling process ends with exit code 0, and that is what its parent
  reads, while the program has only been queued under another process id, with no parent.
  The exit status of the program never reaches whoever waits for the caller.
\<close>

theorem execve_reports_success_early:
  assumes "\<not> REAL_FORK_CHILD (vpst v)" and "vflag (vpst v)" and "ex_set (vsys v)"
    and "current (ex (vsys v)) = Some p" and "mco_running (vsys v) \<noteq> None" and "p \<noteq> next_pid (ex (vsys v))"
    and "virtual_execve W (utf8_lossy path) (c_array_to_vec argv) (c_array_to_vec envp) v = (Ok vpid, v1)"
  shows "\<exists>v'. execve_call S L rounds W path argv envp v = Some (Exits 0, v') \<and> get_exit_code p (vsys v') = Some 0 \<and>
    vpid \<noteq> p \<and> vpid \<in> set (ready_queue (ex (vsys v'))) \<and>
    (\<exists>c. hm_get (vprocs (ex (vsys v'))) vpid = Some c \<and> state c = Ready \<and> ppid c = 0)"
proof -
  have sp: "spawned v vpid v1" using virtual_execve_spawned [OF assms(7)] .
  have byp: "bypass (vpst v) = (False, vpst v)" using assms(1,2) by (cases "vpst v") (simp add: bypass_def enabled_def)
  have "execve_call S L rounds W path argv envp v = Some (Exits 0, with_rt (vproc_exit_with_code 0) v1)"
    using byp assms(3-5,7) sp by (simp add: execve_call_def finish_def spawned_def)
  then show ?thesis using sp assms(3-6)
    by (auto simp: spawned_def vproc_exit_with_code_def get_exit_code_def with_exit_codes_def with_vprocs_def)
qed

theorem execve_reports_success_early_witness:
  "\<exists>v v'. execve_call sched_sample (\<lambda>_. libc_sample) 1 static_world [47, 98] None None v = Some (Exits 0, v') \<and>
     get_exit_code 1 (vsys v') = Some 0 \<and> 3 \<in> set (ready_queue (ex (vsys v')))"
proof -
  define v where "v = (vst_sample fd_world_init)\<lparr>vpst := (vpst (vst_sample fd_world_init))\<lparr>vflag := True\<rparr>\<rparr>"
  have v: "vas v = aspace_init" "ex_set (vsys v)" "next_pid (ex (vsys v)) = 3" "\<not> REAL_FORK_CHILD (vpst v)" "vflag (vpst v)"
    "current (ex (vsys v)) = Some 1" "mco_running (vsys v) \<noteq> None" "1 \<noteq> next_pid (ex (vsys v))"
    by (simp_all add: v_def vst_sample_def vsys_def pst_with_def)
  obtain v1 where st: "virtual_execve_static static_world [47, 98] [] [] v = (Ok 3, v1)"
    using static_runs_sample [OF v(1-3)] by blast
  have "utf8_lossy [47, 98] = [47, 98]" by (simp add: utf8_lossy_ascii)
  then have run: "virtual_execve static_world (utf8_lossy [47, 98]) (c_array_to_vec None) (c_array_to_vec None) v = (Ok 3, v1)"
    using st by (simp add: virtual_execve_def static_world_sel ok_or_def static_file_parses sample_machine c_array_to_vec_def)
  show ?thesis using execve_reports_success_early [OF v(4,5,2,6-8) run, of sched_sample "\<lambda>_. libc_sample" 1] by blast
qed

end
