(* ===== verification/Preload_Laws.thy ===== *)
theory Preload_Laws
  imports Preload_Paths
begin

unbundle bit_operations_syntax

text \<open>
  Properties of the descriptor calls of the interposition layer: they are confined
  to the caller's table, opening and closing are inverse and close the real file once, what
  \<^verbatim>\<open>poll\<close> reports is what a read or write would find, and bytes written to a virtual pipe by
  one process are read by another.
\<close>

section \<open>Reading and writing the state\<close>

lemma set_table_sel [simp]:
  "get_table u (fdw (psys (set_table v s p))) =
     (if u = v then Some (snd s) else get_table u (fdw (psys p)))"
  "wstore (fdw (psys (set_table v s p))) = fst s"
  "trace (psys (set_table v s p)) = trace (psys p)" "ex (psys (set_table v s p)) = ex (psys p)"
  "ex_set (psys (set_table v s p)) = ex_set (psys p)"
  "vflag (set_table v s p) = vflag p" "REAL_FORK_CHILD (set_table v s p) = REAL_FORK_CHILD p"
  "venv_one (set_table v s p) = venv_one p" "errno (set_table v s p) = errno p"
  "mco_running (psys (set_table v s p)) = mco_running (psys p)"
  by (simp_all add: set_table_def with_sys_def put_table_def get_table_def)

lemma inside_set_table [simp]: "inside v c (set_table u s p) \<longleftrightarrow> inside v c p"
  by (simp add: inside_def)

lemma inside_vflag [simp]: "inside v c p \<Longrightarrow> inside v c (p\<lparr>vflag := True\<rparr>)"
  by (simp add: inside_def)

lemma own_table_inside:
  "inside v c p \<Longrightarrow> own_table p = map_option (\<lambda>t. (v, t)) (get_table v (fdw (psys p)))"
  by (simp add: own_table_def inside_simps table_of_def)

lemma own_tableD: "own_table p = Some (v, t) \<Longrightarrow> get_table v (fdw (psys p)) = Some t"
  by (auto simp: own_table_def table_of_def bind_eq_Some_conv)

lemma real_close_sel [simp]:
  "fdw (psys (snd (real_close L fd p))) = fdw (psys p)"
  "trace (psys (snd (real_close L fd p))) = trace (psys p) @ [RealClose fd]"
  "ex (psys (snd (real_close L fd p))) = ex (psys p)"
  by (simp_all add: real_close_def with_sys_def emit_def)

lemma fail_sel [simp]: "psys (snd (fail e p)) = psys p" "fst (fail e p) = - 1" "errno (snd (fail e p)) = e"
  by (simp_all add: fail_def)

lemma bypass_sel [simp]:
  "psys (snd (bypass p)) = psys p" "current_vpid (snd (bypass p)) = current_vpid p"
  "own_table (snd (bypass p)) = own_table p" "the_store (snd (bypass p)) = the_store p"
  "open_path path (snd (bypass p)) = open_path path p"
  by (simp_all add: bypass_def enabled_def Let_def)

section \<open>The descriptor calls are confined to the caller's table\<close>

text \<open>
  The state a call of the process \<open>v\<close> may leave: sound, and with every table but its own as
  before.
\<close>

definition confined :: "VPid option \<Rightarrow> pst \<Rightarrow> pst \<Rightarrow> bool" where
  "confined v p p' \<longleftrightarrow> world_sound (fdw (psys p')) \<and>
     (\<forall>u. v \<noteq> Some u \<longrightarrow> get_table u (fdw (psys p')) = get_table u (fdw (psys p)))"

lemma confined_same: "world_sound (fdw (psys p)) \<Longrightarrow> fdw (psys p') = fdw (psys p) \<Longrightarrow> confined v p p'"
  by (simp add: confined_def)

lemma confined_cong:
  "fdw (psys p1) = fdw (psys p) \<Longrightarrow> fdw (psys p1') = fdw (psys p') \<Longrightarrow> confined v p1 p1' = confined v p p'"
  by (simp add: confined_def)

lemma own_table_sound:
  assumes "world_sound (fdw (psys p))" and "own_table p = Some (v, t)"
  shows "store_ok (the_store p)" and "tab_sound (the_store p) t"
  using world_soundD [OF assms(1)] own_tableD [OF assms(2)] by (auto simp: the_store_def)

lemma set_table_confined:
  assumes "world_sound (fdw (psys p))"
    and "store_ok (fst s) \<and> store_le (the_store p) (fst s) \<and> tab_sound (fst s) (snd s)"
  shows "confined (Some v) p (set_table v s p)"
  using put_table_sound [OF assms(1), of "fst s" "snd s" v] assms(2)
  by (simp add: confined_def the_store_def) (simp add: set_table_def with_sys_def)

lemma get_or_create_table_sel:
  assumes "get_or_create_table v w = (t, w')"
  shows "get_table v w' = Some t" and "u \<noteq> v \<Longrightarrow> get_table u w' = get_table u w"
  using assms by (auto simp: get_or_create_table_def get_table_def split: option.splits)

lemma adopt_file_confined:
  assumes "world_sound (fdw (psys p))" and "adopt_file v rfd ce p = Some (r, p')"
  shows "confined (Some v) p p'"
proof -
  obtain t w where tw: "get_or_create_table v (fdw (psys p)) = (t, w)" by fastforce
  note sel = get_or_create_table_sel [OF tw]
  have w: "world_sound w" using tw get_or_create_sound [OF assms(1), of v] by simp
  define p1 where "p1 = with_sys (\<lambda>s. s\<lparr>fdw := w\<rparr>) p"
  have p1: "fdw (psys p1) = w" by (simp add: p1_def with_sys_def)
  obtain fd st' t' where ins: "vt_insert_file rfd ce (wstore w) t = Some (fd, st', t')"
    and p': "p' = set_table v (st', t') p1"
    using assms(2) tw by (auto simp: adopt_file_def p1_def)
  have "store_ok st' \<and> store_le (wstore w) st' \<and> tab_sound st' t'"
    using vt_insert_file_sound [OF world_soundD(1) [OF w] world_soundD(3) [OF w sel(1)] ins] .
  then have "confined (Some v) p1 p'"
    using set_table_confined [of p1 "(st', t')" v] w by (simp add: p1 p' the_store_def)
  then show ?thesis using sel(2) by (simp add: confined_def p1)
qed

lemma or_ebadf_confined:
  assumes "world_sound (fdw (psys p))"
    and "store_ok (fst (snd res)) \<and> store_le (the_store p) (fst (snd res)) \<and>
      tab_sound (fst (snd res)) (snd (snd res))"
  shows "confined (Some v) p (snd (or_ebadf v res p))"
  using set_table_confined [OF assms(1), of "snd res" v] assms(2)
  by (simp add: or_ebadf_def case_prod_beta Let_def confined_def split: rres.split)

lemma close_own_confined:
  assumes "world_sound (fdw (psys p))" and "own_table p = Some (v, t)"
  shows "confined (Some v) p (snd (close_own L fd v t p))"
proof -
  note t = own_table_sound [OF assms]
  have cl: "confined (Some v) p (set_table v (snd (vt_close fd (the_store p) t)) p)"
    using vt_close_sound [OF t, of fd] by (intro set_table_confined [OF assms(1)]) (metis prod.collapse)
  have cf: "confined (Some v) p (set_table v (the_store p, snd (close_file_fd fd t)) p)"
    using close_file_fd_sound [OF t(2)] t by (intro set_table_confined [OF assms(1)]) simp
  have rc: "confined (Some v) p (snd (real_close L r q)) = confined (Some v) p q" for r q
    by (simp add: confined_def)
  have fl: "confined (Some v) p (snd (fail e q)) = confined (Some v) p q" for e q
    by (simp add: confined_def)
  show ?thesis
  proof (cases "vt_get t fd")
    case None
    then show ?thesis using assms(1) by (simp add: close_own_def rc confined_same)
  next
    case (Some x)
    then show ?thesis
      using cl cf
      by (cases x) (simp_all add: close_own_def case_prod_beta Let_def rc fl split: option.split rres.split)
  qed
qed

lemma new_file_keeps:
  assumes "store_ok st" and "new_file rfd st = (x, st')"
  shows "store_ok st'" and "store_le st st'" and "arc_ok st' x"
  using assms store_bump [OF assms(1)] by (auto simp: new_file_def)

lemma dup_own_confined:
  assumes ok: "world_sound (fdw (psys p))" and own: "own_table p = Some (v, t)"
    and call: "dup_own L fd v t p = Some (r, p')"
  shows "confined (Some v) p p'"
proof (cases "Option.bind (vt_get t fd) backing_fd")
  case None
  obtain res where res: "vt_dup fd (the_store p) t = Some res" and p': "(r, p') = or_ebadf v res p"
    using call None by (auto simp: dup_own_def)
  then show ?thesis
    using or_ebadf_confined [OF ok, of res v] vt_dup_sound [OF own_table_sound [OF ok own], of fd]
    by (metis prod.collapse snd_conv)
next
  case (Some rfd)
  obtain x st' where nf: "new_file (l_dup L rfd) (the_store p) = (x, st')" by fastforce
  note t = own_table_sound [OF ok own]
  note k = new_file_keeps [OF t(1) nf]
  have "confined (Some v) p (set_table v (st', t') p)" if "vt_insert x t = Some (k', t')" for k' t'
    using set_table_confined [OF ok, of "(st', t')" v] k vt_insert_sound [OF tab_sound_mono [OF t(2) k(2)] k(3) that]
    by simp
  then show ?thesis
    using call Some nf ok by (auto simp: dup_own_def Let_def fail_def intro: confined_same split: if_splits)
qed

lemma dup2_own_confined:
  assumes ok: "world_sound (fdw (psys p))" and own: "own_table p = Some (v, t)"
  shows "confined (Some v) p (snd (dup2_own L old new v t p))"
proof (cases "Option.bind (vt_get t old) backing_fd")
  case None
  then show ?thesis
    using or_ebadf_confined [OF ok, of "vt_dup2 old new (the_store p) t" v]
      vt_dup2_sound [OF own_table_sound [OF ok own], of old new] by (simp add: dup2_own_def) (metis prod.collapse)
next
  case (Some rfd)
  define q where "q = with_sys (emit [RealDup2 rfd new]) p"
  have q: "fdw (psys q) = fdw (psys p)" "the_store q = the_store p"
    by (simp_all add: q_def with_sys_def emit_def the_store_def)
  note t = own_table_sound [OF ok own]
  obtain x st' where nf: "new_file new (the_store p) = (x, st')" by fastforce
  note k = new_file_keeps [OF t(1) nf]
  obtain st2 t2 where ins: "vt_insert_at new x st' t = (st2, t2)" by fastforce
  have "confined (Some v) q (set_table v (st2, t2) q)"
    using vt_insert_at_sound [OF k(1) tab_sound_mono [OF t(2) k(2)] k(3) ins] store_le_trans [OF k(2)] ok q
    by (intro set_table_confined) simp_all
  then show ?thesis
    using Some q nf ins ok
    by (simp add: dup2_own_def q_def [symmetric] Let_def confined_cong [OF q(1) refl] confined_same)
qed

lemma set_pipe_sel [simp]:
  "get_table u (fdw (psys (set_pipe a b p))) = get_table u (fdw (psys p))"
  "tables (fdw (psys (set_pipe a b p))) = tables (fdw (psys p))"
  "fd_entry u fd (set_pipe a b p) = fd_entry u fd p"
  "pipe_at a' (set_pipe a b p) = (if a' = a then Some b else pipe_at a' p)"
  "ex (psys (set_pipe a b p)) = ex (psys p)" "ex_set (psys (set_pipe a b p)) = ex_set (psys p)"
  "trace (psys (set_pipe a b p)) = trace (psys p)"
  "vflag (set_pipe a b p) = vflag p" "REAL_FORK_CHILD (set_pipe a b p) = REAL_FORK_CHILD p"
  "venv_one (set_pipe a b p) = venv_one p"
  "wstore (fdw (psys (set_pipe a b p))) = (wstore (fdw (psys p)))\<lparr>pipes := (pipes (wstore (fdw (psys p))))(a \<mapsto> b)\<rparr>"
  by (simp_all add: set_pipe_def with_sys_def get_table_def fd_entry_def table_of_def pipe_at_def the_store_def)

lemma set_pipe_confined:
  assumes "world_sound (fdw (psys p))" and "pipe_at a p = Some b" and "pipe_ok b'"
  shows "confined v p (set_pipe a b' p)"
proof -
  let ?st = "wstore (fdw (psys p))" and ?st' = "wstore (fdw (psys (set_pipe a b' p)))"
  have "store_le ?st ?st'" by (auto simp: store_le_def)
  moreover have "store_ok ?st'"
    using world_soundD(1) [OF assms(1)] assms(2,3) by (auto simp: store_ok_def pipe_at_def the_store_def)
  ultimately have "world_sound (fdw (psys (set_pipe a b' p)))"
    using assms(1) unfolding world_sound_def set_pipe_sel(2) by (meson tab_sound_mono)
  then show ?thesis by (simp add: confined_def)
qed

lemma pipe_at_sound: "world_sound (fdw (psys p)) \<Longrightarrow> pipe_at a p = Some b \<Longrightarrow> pipe_ok b"
  using world_soundD(1) by (auto simp: store_ok_def pipe_at_def the_store_def)

lemmas pipe_at_ok = pipe_at_sound [OF world_ok_sound]

lemma read_pipe_round_confined:
  assumes "world_sound (fdw (psys p))" and "read_pipe_round u fd dst p = Some (r, p')"
  shows "confined v p p'"
proof (cases "\<exists>a. fd_entry u fd p = Some (PipeRead a)")
  case True
  then obtain a b n d b' where "pipe_at a p = Some b" "read_from b dst = Some (n, d, b')" "p' = set_pipe a b' p"
    using assms(2) by (auto simp: read_pipe_round_def bind_eq_Some_conv)
  then show ?thesis
    using set_pipe_confined [OF assms(1)] pipe_at_sound [OF assms(1)] read_from_result(1) by metis
next
  case False
  then have "psys p' = psys p"
    using assms(2) by (auto simp: read_pipe_round_def split: option.splits vfd.splits)
  then show ?thesis using assms(1) by (simp add: confined_same)
qed

lemma vproc_exit_fdw [simp]: "fdw (vproc_exit_with_code code s) = fdw s"
  by (simp add: vproc_exit_with_code_def with_exit_codes_def with_vprocs_def split: option.split)

lemma write_pipe_round_confined:
  assumes "world_sound (fdw (psys p))" and "write_pipe_round u fd src p = Some (r, p')"
  shows "confined v p p'"
proof (cases "\<exists>a. fd_entry u fd p = Some (PipeWrite a)")
  case True
  then obtain a b n b' where "pipe_at a p = Some b" "write_to b src = Some (n, b')"
      and p': "fdw (psys p') = fdw (psys (set_pipe a b' p))"
    using assms(2) by (auto simp: write_pipe_round_def bind_eq_Some_conv Let_def with_sys_def split: if_splits)
  then have "confined v p (set_pipe a b' p)"
    using set_pipe_confined [OF assms(1)] pipe_at_sound [OF assms(1)] write_to_result(1) by metis
  then show ?thesis unfolding confined_def p' .
next
  case False
  then have "psys p' = psys p"
    using assms(2) by (auto simp: write_pipe_round_def split: option.splits vfd.splits)
  then show ?thesis using assms(1) by (simp add: confined_same)
qed

text \<open>
  One descriptor call, or one round of a pipe read or write, with any arguments and any answers
  of libc.
\<close>

inductive fd_call :: "pst \<Rightarrow> pst \<Rightarrow> bool" where
  open_: "open_call L path flags mode p = Some (r, p') \<Longrightarrow> fd_call p p'"
| openat_: "openat L dirfd path flags mode p = Some (r, p') \<Longrightarrow> fd_call p p'"
| creat_: "creat L path mode p = Some (r, p') \<Longrightarrow> fd_call p p'"
| close_: "close_call L fd p = (r, p') \<Longrightarrow> fd_call p p'"
| dup_: "dup_call L fd p = Some (r, p') \<Longrightarrow> fd_call p p'"
| dup2_: "dup2_call L old new p = (r, p') \<Longrightarrow> fd_call p p'"
| read_: "read_pipe_round v fd dst p = Some (rr, p') \<Longrightarrow> fd_call p p'"
| write_: "write_pipe_round v fd src p = Some (rw, p') \<Longrightarrow> fd_call p p'"

lemma adopt_call_confined:
  assumes "world_sound (fdw (psys p))" and "psys q = psys p" and "adopt_file v rfd ce q = Some (r, p')"
  shows "confined (Some v) p p'"
  using adopt_file_confined [of q v rfd ce r p'] assms by (simp add: confined_def)

lemma own_table_caller: "own_table p = Some (v, t) \<Longrightarrow> current_vpid p = Some v"
  by (auto simp: own_table_def bind_eq_Some_conv)

lemma fd_call_confined:
  assumes "fd_call p p'" and "world_sound (fdw (psys p))"
  shows "confined (current_vpid p) p p'"
  using assms
proof (induction rule: fd_call.induct)
  case (open_ L path flags mode p r p')
  then show ?case
    using adopt_call_confined [of p "snd (bypass p)"]
    by (auto simp: open_call_def case_prod_beta Let_def fail_def intro!: confined_same split: if_splits option.splits)
next
  case (openat_ L dirfd path flags mode p r p')
  then show ?case
    using adopt_call_confined [of p "snd (bypass p)"]
    by (auto simp: openat_def case_prod_beta Let_def fail_def intro!: confined_same split: if_splits option.splits)
next
  case (creat_ L path mode p r p')
  then show ?case
    using adopt_call_confined [of p "snd (bypass p)"]
    by (auto simp: creat_def case_prod_beta Let_def fail_def intro!: confined_same split: if_splits option.splits)
next
  case (close_ L fd p r p')
  have "confined (current_vpid p) p (snd (close_call L fd p))"
    using close_.prems close_own_confined [of "snd (bypass p)"] own_table_caller [of p]
    by (auto simp: close_call_def case_prod_beta Let_def confined_def split: option.split)
  then show ?case using close_.hyps by simp
next
  case (dup_ L fd p r p')
  then show ?case
    using dup_own_confined [of "snd (bypass p)"] own_table_caller [of p]
    by (auto simp: dup_call_def case_prod_beta Let_def confined_def split: if_splits option.splits)
next
  case (dup2_ L old new p r p')
  have "confined (current_vpid p) p (snd (dup2_call L old new p))"
    using dup2_.prems dup2_own_confined [of "snd (bypass p)"] own_table_caller [of p]
    by (auto simp: dup2_call_def case_prod_beta Let_def with_sys_def emit_def confined_def
        split: option.splits if_splits)
  then show ?case using dup2_.hyps by simp
qed (auto intro: read_pipe_round_confined write_pipe_round_confined)

text \<open>The calls of the processes in \<open>V\<close>, from the tables \<open>tab\<close> of all the others.\<close>

interpretation calls: transition_system "\<lambda>p. fdw (psys p) = fd_world_init \<and> tab = Map.empty"
  "\<lambda>p p'. fd_call p p' \<and> current_vpid p \<in> V"
  "\<lambda>p. world_sound (fdw (psys p)) \<and> (\<forall>u. Some u \<notin> V \<longrightarrow> get_table u (fdw (psys p)) = tab u)" for V tab
proof unfold_locales
  fix p
  assume "fdw (psys p) = fd_world_init \<and> tab = Map.empty"
  then show "world_sound (fdw (psys p)) \<and> (\<forall>u. Some u \<notin> V \<longrightarrow> get_table u (fdw (psys p)) = tab u)"
    by (simp add: world_ok_sound world_ok_init) (simp add: fd_world_init_def get_table_def)
next
  fix p p'
  assume inv: "world_sound (fdw (psys p)) \<and> (\<forall>u. Some u \<notin> V \<longrightarrow> get_table u (fdw (psys p)) = tab u)"
    and "fd_call p p' \<and> current_vpid p \<in> V"
  then show "world_sound (fdw (psys p')) \<and> (\<forall>u. Some u \<notin> V \<longrightarrow> get_table u (fdw (psys p')) = tab u)"
    using fd_call_confined [of p p'] by (simp add: confined_def) metis
qed


definition fd_sample :: fd_world where
  "fd_sample = create_table_with_fds 1 0 1 2 fd_world_init"

lemma fd_sample_ok [simp]: "world_ok fd_sample"
  by (simp add: fd_sample_def world_ok_started)

lemma fd_sample_table [simp]: "get_table 1 fd_sample = Some (vt_new_with_fds 0 1 2)"
  by (simp add: fd_sample_def get_table_started)

lemma vt_new_with_fds_sel [simp]:
  "next_fd (vt_new_with_fds i e r) = 3" "vt_room (Suc 0) (vt_new_with_fds i e r)"
  "vt_get (vt_new_with_fds i e r) 0 = Some (Real i)" "vt_get (vt_new_with_fds i e r) 1 = Some (Real e)"
  "vt_get (vt_new_with_fds i e r) 2 = Some (Real r)"
  by (simp_all add: vt_new_with_fds_def vt_room_def vt_get_def)


section \<open>Opening and closing a file\<close>

lemma fd_entry_set_table [simp]:
  "fd_entry u fd (set_table v s p) = (if u = v then vt_get (snd s) fd else fd_entry u fd p)"
  by (simp add: fd_entry_def table_of_def)

lemma open_call_inside:
  assumes "inside v c p" and "get_table v (fdw (psys p)) = Some t" and "tab_ok (wstore (fdw (psys p))) t"
    and "vt_room 1 t" and "open_path path p = Some q" and "0 \<le> sint (l_open L q flags mode)"
  shows "open_call L path flags mode p =
    Some (next_fd t, set_table v
      ((wstore (fdw (psys p)))\<lparr>next_arc := Suc (next_arc (wstore (fdw (psys p))))\<rparr>,
       t\<lparr>next_fd := next_fd t + 1, fds := hm_insert (next_fd t) (File (next_arc (wstore (fdw (psys p))))
          \<lparr>real_fd = l_open L q flags mode, cloexec = (flags AND O_CLOEXEC \<noteq> 0)\<rparr>) (fds t)\<rparr>)
      (p\<lparr>vflag := True\<rparr>))"
proof -
  have "alloc_fd t = Some (next_fd t, t\<lparr>next_fd := next_fd t + 1\<rparr>)"
    using alloc_fd_wf assms(3,4) by (simp add: tab_ok_def)
  moreover have "with_sys (\<lambda>s. s\<lparr>fdw := fdw (psys p)\<rparr>) (p\<lparr>vflag := True\<rparr>) = p\<lparr>vflag := True\<rparr>"
    by (simp add: with_sys_def)
  ultimately show ?thesis
    using assms(2,5,6) by (simp add: open_call_def inside_simps [OF assms(1)] adopt_file_def
        get_or_create_table_def get_table_def vt_insert_file_def Let_def)
qed

lemma close_file_inside:
  assumes "inside v c p" and "0 \<le> sint fd" and "get_table v (fdw (psys p)) = Some t"
    and "vt_get t fd = Some (File a f)" and "\<not> list_ex (refs_file a) (hm_values (fds (vt_remove fd t)))"
  shows "close_call L fd p =
    (0, snd (real_close L (real_fd f) (set_table v (wstore (fdw (psys p)), vt_remove fd t) (p\<lparr>vflag := True\<rparr>))))"
  using assms(2-5)
  by (simp add: close_call_def inside_simps [OF assms(1)] own_table_inside [OF assms(1)] close_own_def
      close_file_fd_def vt_get_def the_store_def)



section \<open>Readiness\<close>

lemma read_pipe_round_eq:
  assumes "pipe_ok b" and "fd_entry v fd p = Some (PipeRead a)" and "pipe_at a p = Some b"
  shows "\<exists>b'. read_pipe_round v fd dst p =
      Some (if len b = 0 \<and> \<not> closed b then Yield
            else Return (int (min (length dst) (len b)), take (length dst) (pipe_contents b) @ drop (len b) dst),
            set_pipe a b' p) \<and>
    pipe_ok b' \<and> pipe_contents b' = drop (length dst) (pipe_contents b) \<and> closed b' = closed b"
  using read_from_spec [OF assms(1), of dst] assms(2,3) by (auto simp: read_pipe_round_def)

lemma write_pipe_round_eq:
  assumes "pipe_ok b" and "fd_entry v fd p = Some (PipeWrite a)" and "pipe_at a p = Some b"
  shows "\<exists>b'. pipe_ok b' \<and> closed b' = closed b \<and>
    pipe_contents b' = pipe_contents b @ (if closed b then [] else take (PIPE_CAPACITY - len b) src) \<and>
    write_pipe_round v fd src p = Some
      (if closed b then (Exits (128 + SIGPIPE),
         with_sys (vproc_exit_with_code (128 + SIGPIPE)) ((set_pipe a b' p)\<lparr>errno := EPIPE\<rparr>))
       else if len b = PIPE_CAPACITY then (Yield, set_pipe a b' p)
       else (Return (int (min (length src) (PIPE_CAPACITY - len b))), set_pipe a b' p))"
proof -
  obtain b' where b': "write_to b src = Some (if closed b \<or> len b = PIPE_CAPACITY then - 1
        else int (if closed b then 0 else min (length src) (PIPE_CAPACITY - len b)), b')"
      "pipe_ok b'" "closed b' = closed b"
      "pipe_contents b' = pipe_contents b @ take (if closed b then 0 else min (length src) (PIPE_CAPACITY - len b)) src"
    using write_to_spec [OF assms(1), of src] by blast
  show ?thesis
  proof (intro exI [of _ b'] conjI)
    show "pipe_contents b' = pipe_contents b @ (if closed b then [] else take (PIPE_CAPACITY - len b) src)"
      using b'(4) by (simp add: min_def)
    show "write_pipe_round v fd src p = Some
      (if closed b then (Exits (128 + SIGPIPE),
         with_sys (vproc_exit_with_code (128 + SIGPIPE)) ((set_pipe a b' p)\<lparr>errno := EPIPE\<rparr>))
       else if len b = PIPE_CAPACITY then (Yield, set_pipe a b' p)
       else (Return (int (min (length src) (PIPE_CAPACITY - len b))), set_pipe a b' p))"
      using b'(1,3) assms(2,3) by (simp add: write_pipe_round_def is_closed_def)
  qed (use b' in simp_all)
qed

text \<open>
  C17. What \<^verbatim>\<open>poll\<close> reports about a virtual pipe is what the calls find: asked for input on a
  read end it reports an event exactly when a read returns at once, and asked for output on
  a write end exactly when a write does not have to wait (it returns, or ends the process
  because the pipe is closed).
\<close>

theorem poll_agrees_with_read_write:
  assumes "world_ok (fdw (psys p))" and "pipe_at a p = Some b"
    and "fd_entry v rfd p = Some (PipeRead a)" and "fd_entry v wfd p = Some (PipeWrite a)"
  shows "\<exists>f r p' g w q. poll_one L v p \<lparr>pfd = rfd, events = POLLIN, revents = 0\<rparr> = Some (f, []) \<and>
    read_pipe_round v rfd dst p = Some (r, p') \<and> (revents f \<noteq> 0 \<longleftrightarrow> \<not> switches r) \<and>
    poll_one L v p \<lparr>pfd = wfd, events = POLLOUT, revents = 0\<rparr> = Some (g, []) \<and>
    write_pipe_round v wfd src p = Some (w, q) \<and> (revents g \<noteq> 0 \<longleftrightarrow> \<not> switches w)"
proof -
  note b = pipe_at_ok [OF assms(1,2)]
  have "\<exists>f r p'. poll_one L v p \<lparr>pfd = rfd, events = POLLIN, revents = 0\<rparr> = Some (f, []) \<and>
      read_pipe_round v rfd dst p = Some (r, p') \<and> (revents f \<noteq> 0 \<longleftrightarrow> \<not> switches r)"
    using read_pipe_round_eq [OF b assms(3,2), of dst] assms(2,3)
    by (auto simp: poll_one_def poll_pipe_read_def is_empty_def is_closed_def switches_def)
  moreover have "\<exists>g w q. poll_one L v p \<lparr>pfd = wfd, events = POLLOUT, revents = 0\<rparr> = Some (g, []) \<and>
      write_pipe_round v wfd src p = Some (w, q) \<and> (revents g \<noteq> 0 \<longleftrightarrow> \<not> switches w)"
    using write_pipe_round_eq [OF b assms(4,2), of src] assms(2,4)
    by (auto simp: poll_one_def poll_pipe_write_def is_full_def is_closed_def switches_def)
  ultimately show ?thesis by blast
qed

text \<open>A state in which both processes hold both ends of one pipe.\<close>

definition tab_pipe :: vfd_table where
  "tab_pipe = \<lparr>fds = [(0, Real 0), (1, Real 1), (2, Real 2), (3, PipeRead 0), (4, PipeWrite 0)], next_fd = 5\<rparr>"

definition fd_pipe :: "pipe_buffer \<Rightarrow> fd_world" where
  "fd_pipe b = \<lparr>wstore = \<lparr>pipes = [0 \<mapsto> b], next_arc = 1\<rparr>, tables = [(1, tab_pipe), (2, tab_pipe)]\<rparr>"

lemma fd_pipe_ok: "pipe_ok b \<Longrightarrow> world_ok (fd_pipe b)"
  by (auto simp: world_ok_def fd_pipe_def store_ok_def tab_ok_def vt_wf_def tab_pipe_def hm_ok_def
      hm_keys_def hm_get_def hm_contains_def split: if_splits)

lemma pipe_ok_closed_new: "pipe_ok (pipe_close pipe_new)"
  by (rule pipe_ok_close [OF pipe_ok_new])

lemma fd_pipe_sel [simp]:
  "fd_entry 1 3 (pst_with (fd_pipe b)) = Some (PipeRead 0)" "fd_entry 1 4 (pst_with (fd_pipe b)) = Some (PipeWrite 0)"
  "fd_entry 2 3 (pst_with (fd_pipe b)) = Some (PipeRead 0)" "pipe_at 0 (pst_with (fd_pipe b)) = Some b"
  by (simp_all add: fd_entry_def table_of_def get_table_def fd_pipe_def tab_pipe_def vt_get_def hm_get_def
      pipe_at_def the_store_def)

theorem poll_agrees_with_read_write_witness:
  "\<exists>f r p' g w q. poll_one libc_sample 1 (pst_with (fd_pipe pipe_new)) \<lparr>pfd = 3, events = POLLIN, revents = 0\<rparr> = Some (f, []) \<and>
    read_pipe_round 1 3 [0, 0] (pst_with (fd_pipe pipe_new)) = Some (r, p') \<and> (revents f \<noteq> 0 \<longleftrightarrow> \<not> switches r) \<and>
    poll_one libc_sample 1 (pst_with (fd_pipe pipe_new)) \<lparr>pfd = 4, events = POLLOUT, revents = 0\<rparr> = Some (g, []) \<and>
    write_pipe_round 1 4 [7] (pst_with (fd_pipe pipe_new)) = Some (w, q) \<and> (revents g \<noteq> 0 \<longleftrightarrow> \<not> switches w)"
  by (rule poll_agrees_with_read_write) (simp_all add: fd_pipe_ok pipe_ok_new)

section \<open>Pipes between processes\<close>

lemma io_entry_pipe:
  assumes "inside v c p" and "0 \<le> sint fd" and "fd_entry v fd p = Some x" and "is_pipe_end x"
  shows "io_entry fd p = (PipeLoop v, p\<lparr>vflag := True\<rparr>)"
  using assms by (simp add: io_entry_def inside_simps)

definition switch_to :: "VPid \<Rightarrow> pst \<Rightarrow> pst" where
  "switch_to v p = with_sys (set_current (Some v)) p"

lemma switch_to_sel [simp]:
  "fd_entry u fd (switch_to v p) = fd_entry u fd p" "pipe_at a (switch_to v p) = pipe_at a p"
  "inside v c (switch_to v p) \<longleftrightarrow> (vflag p \<or> venv_one p) \<and> \<not> REAL_FORK_CHILD p \<and> ex_set (psys p) \<and>
     hm_get (vprocs (ex (psys p))) v = Some c"
  by (simp_all add: switch_to_def with_sys_def set_current_def fd_entry_def table_of_def pipe_at_def
      the_store_def inside_def)

text \<open>
  Processes communicate through virtual pipes: what one process writes to a pipe with
  enough room is accepted whole, and when another process that holds the read end is
  scheduled next and reads with a large enough buffer, it gets the bytes that were in
  flight before followed by the bytes written, without waiting.
\<close>

theorem pipe_between_processes:
  assumes "world_ok (fdw (psys p))" and "inside v c p" and "hm_get (vprocs (ex (psys p))) u = Some d"
    and "fd_entry v wfd p = Some (PipeWrite a)" and "0 \<le> sint wfd"
    and "fd_entry u rfd p = Some (PipeRead a)" and "0 \<le> sint rfd"
    and "pipe_at a p = Some b" and "\<not> closed b"
    and "src \<noteq> []" and "len b + length src \<le> PIPE_CAPACITY" and "len b + length src \<le> length dst"
  shows "\<exists>p1 p2. write_call S L (Suc n) wfd src p = Some (Return (int (length src)), p1) \<and>
    read_call S' L' (Suc m) rfd dst (switch_to u p1) =
      Some (Return (int (len b + length src),
        pipe_contents b @ src @ drop (len b + length src) dst), p2)"
proof -
  let ?p = "p\<lparr>vflag := True\<rparr>"
  have len: "len b < PIPE_CAPACITY" using assms(10,11) by (cases src) auto
  obtain b' where b': "pipe_ok b'" "pipe_contents b' = pipe_contents b @ src" "closed b' = closed b"
    and w: "write_pipe_round v wfd src ?p = Some (Return (int (length src)), set_pipe a b' ?p)"
    using write_pipe_round_eq [OF pipe_at_ok [OF assms(1,8)], of v wfd ?p a src] assms(4,8,9,11) len
    by (auto simp: le_diff_conv2)
  have lb: "len b' = len b + length src" using b'(2) by (metis length_append length_pipe_contents)
  let ?q = "set_pipe a b' ?p"
  have wr: "write_call S L (Suc n) wfd src p = Some (Return (int (length src)), ?q)"
    using io_entry_pipe [OF assms(2,5,4)] w by (simp add: write_call_def switches_def)
  let ?r = "switch_to u ?q"
  have ins: "inside u d ?r" using assms(2) assms(3) by (subst switch_to_sel(3)) (simp add: inside_def)
  have r: "\<exists>p2. read_pipe_round u rfd dst (?r\<lparr>vflag := True\<rparr>) =
      Some (Return (int (len b + length src), pipe_contents b @ src @ drop (len b + length src) dst), p2)"
    using read_pipe_round_eq [OF b'(1), of u rfd "?r\<lparr>vflag := True\<rparr>" a dst] assms(6,10,12) b' lb
    by (auto simp: min_def)
  then show ?thesis
    using wr io_entry_pipe [OF ins assms(7), of "PipeRead a"] assms(6)
    by (auto simp: read_call_def switches_def)
qed

theorem pipe_between_processes_witness:
  "\<exists>p1 p2. write_call sched_sample (\<lambda>_. libc_sample) 1 4 [7, 8] (pst_with (fd_pipe pipe_new)) = Some (Return 2, p1) \<and>
    read_call sched_sample (\<lambda>_. libc_sample) 1 3 [0, 0, 0] (switch_to 2 p1) = Some (Return (2, [7, 8, 0]), p2)"
proof -
  have "2 \<le> PIPE_CAPACITY" by (simp add: PIPE_CAPACITY_def)
  then show ?thesis
    using pipe_between_processes [OF _ inside_sample, of "fd_pipe pipe_new" 2 "co_sample 2" 4 0 3 pipe_new "[7, 8]"
        "[0, 0, 0]" sched_sample "\<lambda>_. libc_sample" 0 sched_sample "\<lambda>_. libc_sample" 0] fd_pipe_ok [OF pipe_ok_new]
    by (simp add: hm_get_def)
qed

text \<open>
  A write to a closed pipe ends the process as \<^verbatim>\<open>SIGPIPE\<close> would: nothing is written, the
  process is finished with exit code 141, and \<^verbatim>\<open>errno\<close> is \<^verbatim>\<open>EPIPE\<close>.
\<close>

theorem write_closed_pipe_exits:
  assumes "world_ok (fdw (psys p))" and "inside v c p" and "fd_entry v fd p = Some (PipeWrite a)"
    and "0 \<le> sint fd" and "pipe_at a p = Some b" and "closed b"
  shows "\<exists>p' b'. write_call S L (Suc n) fd src p = Some (Exits 141, p') \<and>
    get_exit_code v (psys p') = Some 141 \<and> errno p' = EPIPE \<and>
    hm_get (vprocs (ex (psys p'))) v = Some (c\<lparr>state := Done, exit_code := 141\<rparr>) \<and>
    pipe_at a p' = Some b' \<and> pipe_contents b' = pipe_contents b"
proof -
  let ?p = "p\<lparr>vflag := True\<rparr>"
  obtain b' where b': "pipe_contents b' = pipe_contents b"
    and w: "write_pipe_round v fd src ?p = Some (Exits 141,
      with_sys (vproc_exit_with_code 141) ((set_pipe a b' ?p)\<lparr>errno := EPIPE\<rparr>))"
    using write_pipe_round_eq [OF pipe_at_ok [OF assms(1,5)], of v fd ?p a src] assms(3,5,6) by auto
  let ?q = "with_sys (vproc_exit_with_code 141) ((set_pipe a b' ?p)\<lparr>errno := EPIPE\<rparr>)"
  have "write_call S L (Suc n) fd src p = Some (Exits 141, ?q)"
    using io_entry_pipe [OF assms(2,4,3)] w by (simp add: write_call_def switches_def)
  moreover have "get_exit_code v (psys ?q) = Some 141 \<and> errno ?q = EPIPE \<and>
      hm_get (vprocs (ex (psys ?q))) v = Some (c\<lparr>state := Done, exit_code := 141\<rparr>)"
    using assms(2) by (simp add: inside_def with_sys_def vproc_exit_with_code_def get_exit_code_def
        with_exit_codes_def with_vprocs_def)
  moreover have "pipe_at a ?q = Some b'" by (simp add: pipe_at_def the_store_def with_sys_def)
  ultimately show ?thesis using b' by blast
qed

theorem write_closed_pipe_exits_witness:
  "\<exists>p' b'. write_call sched_sample (\<lambda>_. libc_sample) 1 4 [7] (pst_with (fd_pipe (pipe_close pipe_new))) = Some (Exits 141, p') \<and>
    get_exit_code 1 (psys p') = Some 141 \<and> pipe_at 0 p' = Some b' \<and> pipe_contents b' = []"
  using write_closed_pipe_exits [OF _ inside_sample, of "fd_pipe (pipe_close pipe_new)" 4 0 "pipe_close pipe_new"
      sched_sample "\<lambda>_. libc_sample" 0 "[7]"]
    fd_pipe_ok [OF pipe_ok_closed_new]
  by (simp add: pipe_close_def pipe_contents_def pipe_new_def) blast

end
