(* ===== verification/Ffi_Laws.thy ===== *)
theory Ffi_Laws
  imports Ffi Exec_Laws Preload_Laws
begin

text \<open>
  Properties of the C interface for a virtual process: \<^verbatim>\<open>fork\<close> returns twice with the right
  values, a pipe carries data between a parent and its child, and the
  descriptor calls refine an abstract state of descriptors and channels.
\<close>

section \<open>Fork\<close>

lemma exec_ok_lr [simp]: "exec_ok (e\<lparr>saved_fork_lr := x\<rparr>) = exec_ok e"
  by (simp add: exec_ok_def)

lemma fork_begin_eq:
  assumes "exec_ok (ex s)" and "ex_set s" and "current (ex s) = Some p" and "hm_get (vprocs (ex s)) p = Some c"
    and "\<not> is_fork_child c"
  shows "\<exists>h. fork_begin lr f (Some h0) s = Some (Yield, s\<lparr>ex := (ex s)\<lparr>saved_fork_lr := Some lr, next_pid := next_pid (ex s) + 1,
      vprocs := hm_insert (next_pid (ex s)) h (vprocs (ex s)), ready_queue := next_pid (ex s) # ready_queue (ex s)\<rparr>\<rparr>) \<and>
    cid h = next_pid (ex s)"
proof -
  let ?s = "s\<lparr>ex := (ex s)\<lparr>saved_fork_lr := Some lr\<rparr>\<rparr>"
  define h where "h = the (coroutine_new (next_pid (ex s)) f (Some h0))"
  have h: "coroutine_new (next_pid (ex s)) f (Some h0) = Some h" "cid h = next_pid (ex s)"
    by (simp_all add: h_def coroutine_new_def)
  have "lib_spawn_front f (Some h0) ?s = Some (next_pid (ex s), s\<lparr>ex := (ex s)\<lparr>saved_fork_lr := Some lr,
      next_pid := next_pid (ex s) + 1, vprocs := hm_insert (next_pid (ex s)) h (vprocs (ex s)),
      ready_queue := next_pid (ex s) # ready_queue (ex s)\<rparr>\<rparr>)"
    using assms(2) h(1) fresh_pid [OF assms(1)]
    by (simp add: lib_spawn_front_def spawn_front_def bump_pid_def insert_vproc_def with_vprocs_def with_queue_def)
  then have "fork_begin lr f (Some h0) s = Some (Yield, s\<lparr>ex := (ex s)\<lparr>saved_fork_lr := Some lr,
      next_pid := next_pid (ex s) + 1, vprocs := hm_insert (next_pid (ex s)) h (vprocs (ex s)),
      ready_queue := next_pid (ex s) # ready_queue (ex s)\<rparr>\<rparr>)"
    using assms(2-5) by (simp add: fork_begin_def)
  then show ?thesis using h(2) by blast
qed

text \<open>
  C10. A virtual fork returns twice. The parent yields; the helper coroutine it queued in
  front copies it; then the parent's call returns the id of the new child, which has the
  parent as its parent and its descriptors, and the child, when it runs on the copied
  stack, returns 0 from the same call. The mark that made it return 0 is gone then, so
  that a fork by the child starts anew.
\<close>

theorem fork_returns_twice:
  assumes "exec_ok (ex s)" and "ex_set s" and "current (ex s) = Some p" and "hm_get (vprocs (ex s)) p = Some c"
    and "\<not> is_fork_child c" and "next_pid (ex s) \<noteq> - 1" and "child = next_pid (ex s) + 1"
  shows "\<exists>s1 s2 s3 s4 k. fork_begin lr f (Some h0) s = Some (Yield, s1) \<and> fork_helper p (Some h) s1 = Some s2 \<and>
    fork_resume (set_current (Some p) s2) = Some (child, s3) \<and>
    hm_get (vprocs (ex s3)) child = Some k \<and> ppid k = p \<and> co k = h \<and> state k = Ready \<and>
    fdw s3 = fork_fd_table p child (fdw s) \<and>
    fork_resume (set_current (Some child) s3) = Some (0, s4) \<and>
    (\<exists>s5. fork_begin lr' f' (Some h') s4 = Some (Yield, s5))"
proof -
  let ?n = "next_pid (ex s)"
  obtain hc where fb: "fork_begin lr f (Some h0) s = Some (Yield, s\<lparr>ex := (ex s)\<lparr>saved_fork_lr := Some lr, next_pid := ?n + 1,
      vprocs := hm_insert ?n hc (vprocs (ex s)), ready_queue := ?n # ready_queue (ex s)\<rparr>\<rparr>)" and hc: "cid hc = ?n"
    using fork_begin_eq [OF assms(1-5)] by blast
  define s1 where "s1 = s\<lparr>ex := (ex s)\<lparr>saved_fork_lr := Some lr, next_pid := ?n + 1,
      vprocs := hm_insert ?n hc (vprocs (ex s)), ready_queue := ?n # ready_queue (ex s)\<rparr>\<rparr>"
  have pn: "p \<noteq> ?n" "p < ?n" using exec_okD(3) [OF assms(1,4)] by auto
  have less: "?n < ?n + 1" using assms(6) by (rule word_less_succ)
  have ok1: "exec_ok (ex s1)"
    using exec_ok_add [of "(ex s)\<lparr>saved_fork_lr := Some lr\<rparr>" hc "?n # ready_queue (ex s)"] assms(1,6) hc
    by (simp add: s1_def)
  have get1: "hm_get (vprocs (ex s1)) p = Some c" "next_pid (ex s1) = child" "fdw s1 = fdw s" "ex_set s1"
    using assms(2,4,7) pn(1) by (simp_all add: s1_def)
  have cp: "p \<noteq> child" using pn(2) less assms(7) by auto
  obtain s2 k where s2: "fork_helper p (Some h) s1 = Some s2"
    "hm_get (vprocs (ex s2)) child = Some k" "ppid k = p" "co k = h" "state k = Ready" "is_fork_child k"
    "hm_get (vprocs (ex s2)) p = Some (c\<lparr>fork_child_pid := child\<rparr>)" "fdw s2 = fork_fd_table p child (fdw s)" "ex_set s2"
    using spawn_fork_child_eq [OF ok1 get1(1), of "Some h"] get1 cp by (simp add: fork_helper_def)
  define s3 where "s3 = (set_current (Some p) s2)\<lparr>ex := (ex (set_current (Some p) s2))\<lparr>saved_fork_lr := None\<rparr>\<rparr>"
  let ?s3 = "set_current (Some child) s3"
  define s4 where "s4 = with_vprocs (hm_modify child (\<lambda>c. c\<lparr>is_fork_child := False\<rparr>))
    (?s3\<lparr>ex := (ex ?s3)\<lparr>saved_fork_lr := None\<rparr>\<rparr>)"
  have "fork_resume (set_current (Some p) s2) = Some (child, s3)"
    using s2 assms(5) by (simp add: fork_resume_def s3_def set_current_def)
  moreover have "hm_get (vprocs (ex s3)) child = Some k" "fdw s3 = fork_fd_table p child (fdw s)" "ex_set s3"
    using s2 by (simp_all add: s3_def set_current_def)
  moreover have "fork_resume (set_current (Some child) s3) = Some (0, s4)"
    using calculation(2-) s2(6) by (simp add: fork_resume_def s4_def set_current_def s3_def)
  moreover have "\<exists>s5. fork_begin lr' f' (Some h') s4 = Some (Yield, s5)"
    using calculation(2-4) by (simp add: fork_begin_def s4_def set_current_def with_vprocs_def lib_spawn_front_def
        spawn_front_def coroutine_new_def bump_pid_def Let_def)
  ultimately show ?thesis using fb s2 unfolding s1_def [symmetric] by blast
qed

theorem fork_returns_twice_witness:
  "\<exists>s1 s2 s3. fork_begin 64 5 (Some 1) (set_current (Some 1) sys_one) = Some (Yield, s1) \<and>
    fork_helper 1 (Some 7) s1 = Some s2 \<and> fork_resume (set_current (Some 1) s2) = Some (3, s3) \<and>
    (\<exists>s4. fork_resume (set_current (Some 3) s3) = Some (0, s4))"
proof -
  have "exec_ok (ex (set_current (Some 1) sys_one))" "ex_set (set_current (Some 1) sys_one)"
    "current (ex (set_current (Some 1) sys_one)) = Some 1" "next_pid (ex (set_current (Some 1) sys_one)) \<noteq> - 1"
    "3 = next_pid (ex (set_current (Some 1) sys_one)) + 1"
    using sys_one_facts sys_one_proc by (simp_all add: set_current_def sched_ok_def exec_ok_def hm_contains_def)
  moreover have "\<exists>c. hm_get (vprocs (ex (set_current (Some 1) sys_one))) 1 = Some c \<and> \<not> is_fork_child c"
    using sys_one_proc by (simp add: set_current_def)
  ultimately show ?thesis
    using fork_returns_twice [of "set_current (Some 1) sys_one" 1 _ 3 64 5 1 7] by blast
qed

section \<open>Descriptors\<close>

lemma fd_at_put_table [simp]:
  "fd_at v fd (put_table u (st, t) w) = (if v = u then vt_get t fd else fd_at v fd w)"
  by (simp add: fd_at_def put_table_def get_table_def)

lemma fd_at_put_pipe [simp]: "fd_at v fd (put_pipe a b w) = fd_at v fd w"
  by (simp add: fd_at_def put_pipe_def get_table_def)

lemma pipes_put_pipe [simp]: "pipes (wstore (put_pipe a b w)) = (pipes (wstore w))(a \<mapsto> b)"
  by (simp add: put_pipe_def)

lemma fd_at_fork:
  assumes "world_ok w" and "get_table p w = Some t" and "get_table c w = None"
  shows "fd_at c fd (fork_fd_table p c w) = vt_get t fd" and "fd_at p fd (fork_fd_table p c w) = vt_get t fd"
    and "wstore (fork_fd_table p c w) = wstore w"
  using fork_shares_descriptors [OF assms] by (auto simp: fd_at_def)

text \<open>The first state of a process that opened a pipe.\<close>

lemma vproc_ffi_pipe_eq:
  assumes "world_ok w" and "get_table p w = Some t" and "vt_room 2 t"
  shows "\<exists>r x st' t'. vproc_ffi_pipe p w = Some (0, (r, x), put_table p (st', t') w) \<and>
    vt_get t' r = Some (PipeRead (next_arc (wstore w))) \<and> vt_get t' x = Some (PipeWrite (next_arc (wstore w))) \<and>
    pipes st' (next_arc (wstore w)) = Some pipe_new \<and> world_ok (put_table p (st', t') w)"
proof -
  have ok: "store_ok (wstore w)" "tab_ok (wstore w) t" using world_okD [OF assms(1)] assms(2) by auto
  obtain r x st' t' where c: "create_pipe (wstore w) t = Some (r, x, st', t')" "r \<noteq> x"
      "vt_get t' = (vt_get t)(r \<mapsto> PipeRead (next_arc (wstore w)), x \<mapsto> PipeWrite (next_arc (wstore w)))"
      "pipes st' = (pipes (wstore w))(next_arc (wstore w) \<mapsto> pipe_new)"
    using create_pipe_fresh [OF ok assms(3)] by blast
  have "world_ok (put_table p (st', t') w)"
    using put_table_keeps [OF assms(1) create_pipe_keeps [OF ok assms(3) c(1)]] .
  moreover have "vproc_ffi_pipe p w = Some (0, (r, x), put_table p (st', t') w)"
    using c(1) assms(2) by (simp add: vproc_ffi_pipe_def get_or_create_table_def get_table_def)
  moreover have "vt_get t' r = Some (PipeRead (next_arc (wstore w)))" "vt_get t' x = Some (PipeWrite (next_arc (wstore w)))"
    "pipes st' (next_arc (wstore w)) = Some pipe_new"
    using c(2-4) by simp_all
  ultimately show ?thesis by blast
qed

text \<open>
  C11. A pipe carries data from a child to its parent: after a process makes a pipe and forks,
  up to a pipe's capacity of bytes written by the child to the writing descriptor is
  accepted in full, and the parent reads from the reading descriptor exactly these bytes,
  in order; a further read finds the pipe empty and still open.
\<close>

theorem pipe_across_fork:
  assumes "world_ok w" and "get_table p w = Some t" and "vt_room 2 t" and "get_table c w = None" and "p \<noteq> c"
    and "data \<noteq> []" and "length data \<le> PIPE_CAPACITY" and "length data \<le> length dst"
  shows "\<exists>r x w1 w2 w3. vproc_ffi_pipe p w = Some (0, (r, x), w1) \<and>
    vproc_ffi_write c x data (fork_fd_table p c w1) = Some (int (length data), w2) \<and>
    vproc_ffi_read p r dst w2 = Some (int (length data), data @ drop (length data) dst, w3) \<and>
    map_option fst (vproc_ffi_read p r dst w3) = Some (- 1)"
proof -
  let ?a = "next_arc (wstore w)"
  obtain r x st t' where pi: "vproc_ffi_pipe p w = Some (0, (r, x), put_table p (st, t') w)"
      "vt_get t' r = Some (PipeRead ?a)" "vt_get t' x = Some (PipeWrite ?a)" "pipes st ?a = Some pipe_new"
      "world_ok (put_table p (st, t') w)"
    using vproc_ffi_pipe_eq [OF assms(1-3)] by blast
  define w1 where "w1 = fork_fd_table p c (put_table p (st, t') w)"
  have "get_table p (put_table p (st, t') w) = Some t'" "get_table c (put_table p (st, t') w) = None"
    using assms(4,5) by (simp_all add: put_table_def get_table_def)
  note f = fd_at_fork [OF pi(5) this, folded w1_def]
  obtain q where q: "write_to pipe_new data = Some (int (length data), q)" "pipe_ok q" "pipe_contents q = data" "\<not> closed q"
    using write_to_spec [OF pipe_ok_new, of data] assms(7) by (auto simp: min_absorb1)
  have wr: "vproc_ffi_write c x data w1 = Some (int (length data), put_pipe ?a q w1)"
    using f pi(3,4) q(1) by (simp add: vproc_ffi_write_def put_table_def)
  have lenq: "len q = length data" using q(3) length_pipe_contents by metis
  obtain q' where q': "read_from q dst = Some (int (length data), data @ drop (length data) dst, q')"
      "pipe_ok q'" "pipe_contents q' = []" "\<not> closed q'"
    using read_from_spec [OF q(2), of dst] q(3,4) lenq assms(6,8) by (auto simp: min_absorb2)
  have rd: "vproc_ffi_read p r dst (put_pipe ?a q w1) =
      Some (int (length data), data @ drop (length data) dst, put_pipe ?a q' (put_pipe ?a q w1))"
    using f pi(2) q'(1) by (simp add: vproc_ffi_read_def)
  have "map_option fst (vproc_ffi_read p r dst (put_pipe ?a q' (put_pipe ?a q w1))) = Some (- 1)"
    using f pi(2) read_from_spec [OF q'(2), of dst] q'(3,4) by (auto simp: vproc_ffi_read_def)
  then show ?thesis using pi(1) wr rd unfolding w1_def by blast
qed

theorem pipe_across_fork_witness:
  "\<exists>r x w1 w2 w3. vproc_ffi_pipe 1 (create_table_with_fds 1 10 11 12 fd_world_init) = Some (0, (r, x), w1) \<and>
    vproc_ffi_write 2 x [104, 105] (fork_fd_table 1 2 w1) = Some (2, w2) \<and>
    vproc_ffi_read 1 r [0, 0, 0] w2 = Some (2, [104, 105, 0], w3)"
  using pipe_across_fork [OF world_ok_started [of 1 10 11 12], of 1 "vt_new_with_fds 10 11 12" 2 "[104, 105]" "[0, 0, 0]"]
  by (simp add: get_table_started vt_room_def vt_new_with_fds_def PIPE_CAPACITY_def) blast

lemma fdw_exit [simp]: "fdw (vproc_exit_with_code code s) = fdw s"
  by (simp add: vproc_exit_with_code_def with_exit_codes_def with_vprocs_def split: option.split)

lemma fd_entry_eq: "fd_entry v fd p = fd_at v fd (fdw (psys p))"
  by (simp add: fd_entry_def fd_at_def table_of_def)

lemma set_pipe_world [simp]: "fdw (psys (set_pipe a b p)) = put_pipe a b (fdw (psys p))"
  by (simp add: set_pipe_def put_pipe_def with_sys_def)

lemma set_table_world [simp]: "fdw (psys (set_table v st p)) = put_table v st (fdw (psys p))"
  by (simp add: set_table_def with_sys_def)

lemma close_own_world:
  assumes "get_table v (fdw (psys p)) = Some t" and "vt_get t fd = Some e"
    and "close_own L fd v t p = (r, q)" and "vproc_ffi_close v fd (fdw (psys p)) = (r', rfds, w)"
  shows "r = r'" and "fdw (psys q) = w" and "trace (psys q) = trace (psys p) @ map RealClose rfds"
proof -
  have "r = r' \<and> fdw (psys q) = w \<and> trace (psys q) = trace (psys p) @ map RealClose rfds"
    using assms by (cases e) (auto simp: close_own_def vproc_ffi_close_def the_store_def fail_def real_close_def with_sys_def
        emit_def vt_close_def vt_get_def set_table_def Let_def split: option.splits prod.splits)
  then show "r = r'" and "fdw (psys q) = w" and "trace (psys q) = trace (psys p) @ map RealClose rfds" by auto
qed

text \<open>
  C13. The C interface and the Rust interposition layer agree on the virtual pipes of a
  process and on closing its descriptors. A read of a reading end gives the same bytes and
  leaves the same buffers, and where the interface reports -1 for an empty pipe the interposed
  call waits. A write to a writing end accepts the same bytes; where the interface reports -1 the
  interposed call waits, or ends the process when the pipe is closed. A close of any descriptor
  in the process's table returns the same value, leaves the same tables and buffers, and closes
  the same real descriptors. (They do not agree on reading and writing other descriptors: there
  the interface returns -1, while the interposed call does the real input or output.)
\<close>

theorem interface_agrees_with_interposition:
  "(\<forall>a. fd_at v fd (fdw (psys p)) = Some (PipeRead a) \<longrightarrow>
      map_option (\<lambda>(r, q). (r, fdw (psys q))) (read_pipe_round v fd dst p) =
      map_option (\<lambda>(n, d, w). (if n < 0 then Yield else Return (n, d), w))
        (vproc_ffi_read v fd dst (fdw (psys p)))) \<and>
    (\<forall>a. fd_at v fd (fdw (psys p)) = Some (PipeWrite a) \<longrightarrow>
      map_option (\<lambda>(r, q). (r, fdw (psys q))) (write_pipe_round v fd src p) =
      map_option (\<lambda>(n, w). (if n < 0
          then (if vproc_ffi_pipe_is_closed v fd w = 1 then Exits (128 + SIGPIPE) else Yield) else Return n, w))
        (vproc_ffi_write v fd src (fdw (psys p)))) \<and>
    (\<forall>t e. get_table v (fdw (psys p)) = Some t \<longrightarrow> vt_get t fd = Some e \<longrightarrow>
      (let (r, q) = close_own L fd v t p; (r', rfds, w) = vproc_ffi_close v fd (fdw (psys p))
       in r = r' \<and> fdw (psys q) = w \<and> trace (psys q) = trace (psys p) @ map RealClose rfds))"
    (is "?R \<and> ?W \<and> ?C")
proof (intro conjI)
  show ?R
    by (auto simp: read_pipe_round_def vproc_ffi_read_def fd_entry_eq pipe_at_def the_store_def
        split: Option.bind_split)
  show ?W
    by (auto simp: write_pipe_round_def vproc_ffi_write_def vproc_ffi_pipe_is_closed_def fd_entry_eq pipe_at_def
        the_store_def Let_def with_sys_def split: Option.bind_split)
  show ?C
  proof (intro allI impI)
    fix t e
    assume te: "get_table v (fdw (psys p)) = Some t" "vt_get t fd = Some e"
    obtain r q r' rfds w where c: "close_own L fd v t p = (r, q)"
      and i: "vproc_ffi_close v fd (fdw (psys p)) = (r', rfds, w)" by (metis prod_cases3 surj_pair)
    show "let (r, q) = close_own L fd v t p; (r', rfds, w) = vproc_ffi_close v fd (fdw (psys p))
       in r = r' \<and> fdw (psys q) = w \<and> trace (psys q) = trace (psys p) @ map RealClose rfds"
      using close_own_world [OF te c i] unfolding c i by simp
  qed
qed

text \<open>Closing an open file of process 1: both close the real descriptor 40 behind it.\<close>

theorem interface_agrees_with_interposition_witness:
  "let t = \<lparr>fds = [(3, File 0 \<lparr>real_fd = 40, cloexec = False\<rparr>)], next_fd = 4\<rparr>;
       w = \<lparr>wstore = \<lparr>pipes = Map.empty, next_arc = 1\<rparr>, tables = [(1, t)]\<rparr>
   in fst (snd (vproc_ffi_close 1 3 w)) = [40] \<and>
      trace (psys (snd (close_own libc_sample 3 1 t (pst_with w)))) = trace (psys (pst_with w)) @ [RealClose 40]"
proof -
  define t where "t = \<lparr>fds = [(3, File 0 \<lparr>real_fd = 40, cloexec = False\<rparr>)], next_fd = 4\<rparr>"
  define w where "w = \<lparr>wstore = \<lparr>pipes = Map.empty, next_arc = 1\<rparr>, tables = [(1, t)]\<rparr>"
  have t: "get_table 1 w = Some t" "vt_get t 3 = Some (File 0 \<lparr>real_fd = 40, cloexec = False\<rparr>)"
    by (simp_all add: w_def t_def get_table_def vt_get_def hm_get_def)
  have "fst (snd (vproc_ffi_close 1 3 w)) = [40]"
    by (simp add: vproc_ffi_close_def t) (simp add: t_def close_file_fd_def hm_get_def vt_remove_def hm_remove_def hm_values_def)
  moreover have "fdw (psys (pst_with w)) = w" by (simp add: pst_with_def)
  ultimately have "fst (snd (vproc_ffi_close 1 3 w)) = [40] \<and>
      trace (psys (snd (close_own libc_sample 3 1 t (pst_with w)))) = trace (psys (pst_with w)) @ [RealClose 40]"
    using interface_agrees_with_interposition [of 1 3 "pst_with w" "[]" "[]" libc_sample] t
    by (simp add: case_prod_beta Let_def)
  then show ?thesis unfolding w_def t_def Let_def .
qed

section \<open>The interface against an abstract descriptor state\<close>

text \<open>
  The abstract state of the interface has no tables, counters or ring buffers: what each
  descriptor of each process refers to, and the channel (its bytes and whether it is closed)
  behind each pipe.
\<close>

type_synonym fd_view = "(u32 \<Rightarrow> c_int \<Rightarrow> vfd option) \<times> (arc \<Rightarrow> u8 channel option)"

definition world_view :: "fd_world \<Rightarrow> fd_view" where
  "world_view w = (\<lambda>v fd. fd_at v fd w, \<lambda>a. map_option pipe_abs (pipes (wstore w) a))"

definition a_read :: "u32 \<Rightarrow> c_int \<Rightarrow> u8 list \<Rightarrow> fd_view \<Rightarrow> int \<times> u8 list \<times> fd_view" where
  "a_read v fd dst = (\<lambda>(D, C). case D v fd of
     Some (PipeRead a) \<Rightarrow> (let (n, d, c) = fifo_read_spec (the (C a)) dst in (n, d, D, C(a \<mapsto> c)))
   | _ \<Rightarrow> (- 1, dst, D, C))"

definition a_write :: "u32 \<Rightarrow> c_int \<Rightarrow> u8 list \<Rightarrow> fd_view \<Rightarrow> int \<times> fd_view" where
  "a_write v fd src = (\<lambda>(D, C). case D v fd of
     Some (PipeWrite a) \<Rightarrow> (let (n, c) = fifo_write_spec PIPE_CAPACITY (the (C a)) src in (n, D, C(a \<mapsto> c)))
   | _ \<Rightarrow> (- 1, D, C))"

text \<open>
  Dropping a descriptor closes the channel it refers to unless another descriptor of the same
  process refers to it too.
\<close>

definition a_drop :: "u32 \<Rightarrow> c_int \<Rightarrow> fd_view \<Rightarrow> fd_view" where
  "a_drop v fd = (\<lambda>(D, C). (D(v := (D v)(fd := None)),
     \<lambda>b. if (\<exists>x. D v fd = Some x \<and> refs_pipe b x) \<and> \<not> (\<exists>k y. k \<noteq> fd \<and> D v k = Some y \<and> refs_pipe b y)
          then map_option (\<lambda>c. (fst c, True)) (C b) else C b))"

definition a_close :: "u32 \<Rightarrow> c_int \<Rightarrow> fd_view \<Rightarrow> c_int \<times> c_int list \<times> fd_view" where
  "a_close v fd = (\<lambda>(D, C). case D v fd of
     None \<Rightarrow> (- 1, [], D, C)
   | Some (File a f) \<Rightarrow>
       (0, if \<exists>k g. k \<noteq> fd \<and> D v k = Some (File a g) then [] else [real_fd f], a_drop v fd (D, C))
   | Some _ \<Rightarrow> (0, [], a_drop v fd (D, C)))"

definition a_dup2 :: "u32 \<Rightarrow> c_int \<Rightarrow> c_int \<Rightarrow> fd_view \<Rightarrow> c_int \<times> fd_view" where
  "a_dup2 v old new V = (let (D, C) = a_drop v new V
     in case D v old of None \<Rightarrow> (- 1, D, C) | Some x \<Rightarrow> (new, D(v := (D v)(new \<mapsto> x)), C))"

subsection \<open>The table operations in the abstract state\<close>

lemma world_view_put_table:
  "world_view (put_table v s w) =
     ((fst (world_view w))(v := vt_get (snd s)), \<lambda>a. map_option pipe_abs (pipes (fst s) a))"
  by (auto simp: world_view_def fd_at_def put_table_def get_table_def fun_eq_iff)

lemma world_view_put_pipe:
  "world_view (put_pipe a b w) = (fst (world_view w), (snd (world_view w))(a \<mapsto> pipe_abs b))"
  by (auto simp: world_view_def fun_eq_iff)

lemma world_view_table: "get_table v w = Some t \<Longrightarrow> fst (world_view w) v = vt_get t"
  by (simp add: world_view_def fd_at_def)

lemma world_view_no_table: "get_table v w = None \<Longrightarrow> fst (world_view w) v = Map.empty"
  by (simp add: world_view_def fd_at_def fun_eq_iff)

lemma pipe_abs_close: "pipe_abs (pipe_close p) = (fst (pipe_abs p), True)"
  by (simp add: pipe_abs_def pipe_close_def pipe_contents_def)

lemma vt_close_entry:
  assumes "hm_ok (fds t)" and "vt_get t fd = Some x"
  shows "\<exists>st' t'. vt_close fd st t = (Ok (), st', t') \<and> vt_get t' = (vt_get t)(fd := None) \<and>
    pipes st' = (\<lambda>b. if refs_pipe b x \<and> \<not> (\<exists>k y. k \<noteq> fd \<and> vt_get t k = Some y \<and> refs_pipe b y)
      then map_option pipe_close (pipes st b) else pipes st b)"
proof (cases "\<exists>a. refs_pipe a x")
  case True
  then obtain a where a: "refs_pipe a x" by blast
  then have only: "refs_pipe b x \<longleftrightarrow> b = a" for b by (cases x) auto
  have upd: "(\<lambda>b. if b = a \<and> \<not> (\<exists>k y. k \<noteq> fd \<and> vt_get t k = Some y \<and> refs_pipe b y)
      then map_option pipe_close (pipes st b) else pipes st b) =
    (if \<exists>k x. k \<noteq> fd \<and> vt_get t k = Some x \<and> refs_pipe a x then pipes st
     else (pipes st)(a := map_option pipe_close (pipes st a)))" by (auto simp only: fun_eq_iff fun_upd_apply if_True if_False split: if_split)
  show ?thesis
    unfolding only upd by (rule close_pipe_end_exact [OF assms a])
next
  case False
  then have "vt_close fd st t = (Ok (), st, vt_remove fd t)"
    using assms(2) by (cases x) (auto simp: vt_close_def vt_get_def)
  then show ?thesis using False by (auto simp: fun_eq_iff)
qed

text \<open>Freeing a number, used or not, in the abstract state.\<close>

lemma vacate_view:
  assumes "get_table v w = Some t" and "hm_ok (fds t)"
    and "(if hm_contains (fds t) fd then snd (vt_close fd (wstore w) t) else (wstore w, t)) = (st', t')"
  shows "((fst (world_view w))(v := vt_get t'), \<lambda>a. map_option pipe_abs (pipes st' a)) = a_drop v fd (world_view w)"
proof (cases "vt_get t fd")
  case None
  then have "st' = wstore w" "t' = t" using assms(3) by (auto simp: vt_get_def hm_contains_def)
  moreover have "(vt_get t)(fd := None) = vt_get t" using None by (simp add: fun_upd_idem)
  ultimately show ?thesis
    using None world_view_table [OF assms(1)] by (simp add: a_drop_def case_prod_beta world_view_def)
next
  case (Some x)
  obtain st1 t1 where cl: "vt_close fd (wstore w) t = (Ok (), st1, t1)" "vt_get t1 = (vt_get t)(fd := None)"
    "pipes st1 = (\<lambda>b. if refs_pipe b x \<and> \<not> (\<exists>k y. k \<noteq> fd \<and> vt_get t k = Some y \<and> refs_pipe b y)
      then map_option pipe_close (pipes (wstore w) b) else pipes (wstore w) b)"
    using vt_close_entry [OF assms(2) Some, of "wstore w"] by blast
  have eq: "st' = st1" "t' = t1" using assms(3) cl(1) Some by (auto simp: vt_get_def hm_contains_def)
  have snd_view: "snd (world_view w) = (\<lambda>a. map_option pipe_abs (pipes (wstore w) a))" by (simp add: world_view_def)
  have clos: "map_option pipe_abs (map_option pipe_close z) = map_option (\<lambda>c. (fst c, True)) (map_option pipe_abs z)" for z
    by (cases z) (simp_all add: pipe_abs_close case_prod_beta)
  show ?thesis
    unfolding eq a_drop_def case_prod_beta fst_conv snd_conv world_view_table [OF assms(1)] snd_view cl(2,3)
    using Some clos by (auto simp: fun_eq_iff)
qed

lemma ffi_close_view:
  assumes "world_sound w" and "vproc_ffi_close v fd w = (r, rfds, w')"
  shows "(r, rfds, world_view w') = a_close v fd (world_view w)"
proof (cases "fd_at v fd w")
  case None
  then have "w' = w \<or> (\<exists>t. get_table v w = Some t \<and> w' = put_table v (wstore w, t) w)" "r = - 1" "rfds = []"
    using assms(2) by (auto simp: vproc_ffi_close_def fd_at_def vt_close_def vt_get_def bind_eq_None_conv split: option.splits)
  moreover have "put_table v (wstore w, t) w = w" if "get_table v w = Some t" for t
    using that by (simp add: put_table_def get_table_def hm_insert_same)
  ultimately show ?thesis using None by (auto simp: a_close_def world_view_def)
next
  case (Some x)
  then obtain t where t: "get_table v w = Some t" "vt_get t fd = Some x" by (auto simp: fd_at_def bind_eq_Some_conv)
  have ok: "hm_ok (fds t)" using world_soundD(3) [OF assms(1) t(1)] by (simp add: tab_sound_def)
  have has: "hm_contains (fds t) fd" using t(2) by (simp add: vt_get_def hm_contains_def)
  obtain st1 t1 where cl: "vt_close fd (wstore w) t = (Ok (), st1, t1)"
    using vt_close_entry [OF ok t(2), of "wstore w"] by blast
  have drop: "((fst (world_view w))(v := vt_get t1), \<lambda>a. map_option pipe_abs (pipes st1 a)) = a_drop v fd (world_view w)"
    using vacate_view [OF t(1) ok, of fd st1 t1] has cl by simp
  have at: "fst (world_view w) v fd = Some x" using world_view_table [OF t(1)] t(2) by simp
  show ?thesis
  proof (cases "\<exists>a f. x = File a f")
    case True
    then obtain a f where x: "x = File a f" by blast
    define shared where "shared \<longleftrightarrow> (\<exists>k g. k \<noteq> fd \<and> vt_get t k = Some (File a g))"
    have cf: "close_file_fd fd t = (if shared then None else Some (real_fd f), t1)" "st1 = wstore w"
      using close_file_fd_File [OF ok] t(2) x cl by (auto simp: vt_close_def vt_get_def shared_def)
    have "a_close v fd (world_view w) = (0, if shared then [] else [real_fd f], a_drop v fd (world_view w))"
      using at unfolding x by (simp add: a_close_def case_prod_beta shared_def world_view_table [OF t(1)])
    moreover have "(r, rfds, w') = (0, if shared then [] else [real_fd f], put_table v (st1, t1) w)"
      using assms(2) t x cf by (cases shared) (simp_all add: vproc_ffi_close_def)
    ultimately show ?thesis using drop by (simp add: world_view_put_table)
  next
    case False
    then have "(r, rfds, w') = (0, [], put_table v (st1, t1) w)"
      using assms(2) t cl by (auto simp: vproc_ffi_close_def split: vfd.splits)
    then show ?thesis
      using False at drop by (simp add: a_close_def world_view_put_table case_prod_beta split: vfd.split)
  qed
qed

lemma ffi_dup2_view:
  assumes "world_sound w" and "get_table v w = Some t"
    and "vt_dup2 old new (wstore w) (t\<lparr>next_fd := n\<rparr>) = (r, st', t')"
  shows "(case r of Ok fd \<Rightarrow> fd | _ \<Rightarrow> - 1, world_view (put_table v (st', t') w)) = a_dup2 v old new (world_view w)"
proof -
  have ok: "hm_ok (fds t)" using world_soundD(3) [OF assms(1,2)] by (simp add: tab_sound_def)
  let ?t = "t\<lparr>next_fd := n\<rparr>"
  obtain st1 t1 where s1: "(if hm_contains (fds ?t) new then snd (vt_close new (wstore w) ?t) else (wstore w, ?t)) = (st1, t1)"
    by fastforce
  define w1 where "w1 = put_table v (wstore w, ?t) w"
  have w1: "get_table v w1 = Some ?t" "wstore w1 = wstore w" "world_view w1 = world_view w"
    using assms(2) by (auto simp: w1_def put_table_def get_table_def world_view_def fd_at_def vt_get_def fun_eq_iff)
  have drop: "((fst (world_view w))(v := vt_get t1), \<lambda>a. map_option pipe_abs (pipes st1 a)) = a_drop v new (world_view w)"
    using vacate_view [OF w1(1), of new st1 t1, unfolded w1(2,3)] s1 ok by simp
  have "vt_get (t1\<lparr>fds := hm_insert new y (fds t1)\<rparr>) = (vt_get t1)(new \<mapsto> y)" for y
    by (simp add: vt_get_def fun_eq_iff)
  then show ?thesis
    using assms(3) s1 unfolding a_dup2_def drop [symmetric]
    by (auto simp: vt_dup2_def vt_get_def world_view_put_table split: option.splits)
qed

lemma ffi_close_sound:
  assumes "world_sound w" and "vproc_ffi_close v fd w = (r, rfds, w')"
  shows "world_sound w'"
proof (cases "get_table v w")
  case None
  then show ?thesis using assms by (simp add: vproc_ffi_close_def)
next
  case (Some t)
  note t = world_soundD(1) [OF assms(1)] world_soundD(3) [OF assms(1) Some]
  have cl: "world_sound (put_table v (snd (vt_close fd (wstore w) t)) w)"
    using put_table_sound [OF assms(1)] vt_close_sound [OF t, of fd] by (metis prod.collapse)
  have cf: "world_sound (put_table v (wstore w, snd (close_file_fd fd t)) w)"
    using put_table_sound [OF assms(1)] close_file_fd_sound [OF t(2)] t(1) by simp
  show ?thesis
    using assms(2) Some cl cf by (auto simp: vproc_ffi_close_def case_prod_beta Let_def split: option.splits vfd.splits)
qed

lemma ffi_close_refines:
  "world_sound w \<Longrightarrow> \<exists>w'. vproc_ffi_close v fd w = (fst (a_close v fd (world_view w)), fst (snd (a_close v fd (world_view w))), w') \<and>
      world_sound w' \<and> world_view w' = snd (snd (a_close v fd (world_view w)))"
  using ffi_close_view [of w v fd] ffi_close_sound [of w v fd] by (metis fst_conv prod.collapse snd_conv)

lemma ffi_dup2_refines:
  assumes "world_sound w"
  shows "\<exists>w'. vproc_ffi_dup2 v fd new w = (fst (a_dup2 v fd new (world_view w)), w') \<and>
      world_sound w' \<and> world_view w' = snd (a_dup2 v fd new (world_view w))"
proof (cases "get_table v w")
  case None
  have "a_drop v new (world_view w) = world_view w"
    using world_view_no_table [OF None] by (simp add: a_drop_def case_prod_beta fun_upd_idem)
  then show ?thesis
    using None assms world_view_no_table [OF None] by (simp add: vproc_ffi_dup2_def a_dup2_def case_prod_beta)
next
  case (Some t)
  obtain r st' t' where d: "vt_dup2 fd new (wstore w) t = (r, st', t')" by (metis prod_cases3)
  have "world_sound (put_table v (st', t') w)"
    using put_table_sound [OF assms vt_dup2_sound [OF world_soundD(1) [OF assms] world_soundD(3) [OF assms Some] d]] .
  then show ?thesis
    using Some d ffi_dup2_view [OF assms Some, of fd new "next_fd t" r st' t'] by (simp add: vproc_ffi_dup2_def) (metis fst_conv snd_conv)
qed

lemma ffi_dup_refines:
  assumes "world_sound w" and "get_table v w = Some t" and "length (fds t) < 2 ^ 32"
  shows "\<exists>w'. vproc_ffi_dup v fd w = Some (fst (a_dup2 v fd (next_fd t) (world_view w)), w') \<and>
      world_sound w' \<and> world_view w' = snd (a_dup2 v fd (next_fd t) (world_view w))"
proof -
  obtain n where al: "alloc_fd t = Some (next_fd t, t\<lparr>next_fd := n\<rparr>)" using alloc_fd_total [OF assms(3)] by blast
  obtain r st' t' where d: "vt_dup2 fd (next_fd t) (wstore w) (t\<lparr>next_fd := n\<rparr>) = (r, st', t')" by (metis prod_cases3)
  have "tab_sound (wstore w) (t\<lparr>next_fd := n\<rparr>)" using world_soundD(3) [OF assms(1,2)] by simp
  then have "world_sound (put_table v (st', t') w)"
    using put_table_sound [OF assms(1) vt_dup2_sound [OF world_soundD(1) [OF assms(1)] _ d]] by blast
  then show ?thesis
    using assms(2) al d ffi_dup2_view [OF assms(1,2) d] by (simp add: vproc_ffi_dup_def vt_dup_def) (metis fst_conv snd_conv)
qed

lemma put_pipe_sound:
  assumes "world_sound w" and "pipes (wstore w) a = Some b" and "pipe_ok b'"
  shows "world_sound (put_pipe a b' w)"
proof -
  note st = pipe_store_update [OF world_soundD(1) [OF assms(1)] assms(2,3)]
  show ?thesis using assms(1) st by (auto simp: world_sound_def put_pipe_def intro: tab_sound_mono [OF _ st(2)])
qed

lemma fd_at_pipe:
  assumes "world_sound w" and "fd_at v fd w = Some x" and "refs_pipe a x"
  shows "\<exists>b. pipes (wstore w) a = Some b \<and> pipe_ok b"
proof -
  obtain t where "get_table v w = Some t" "vt_get t fd = Some x" using assms(2) by (auto simp: fd_at_def bind_eq_Some_conv)
  then have "arc_ok (wstore w) x" using world_soundD(3) [OF assms(1)] by (auto simp: tab_sound_def vt_get_def)
  then show ?thesis using assms(3) world_soundD(1) [OF assms(1)] by (cases x) (auto simp: store_ok_def)
qed

lemma ffi_read_refines:
  assumes "world_sound w"
  shows "\<exists>w'. vproc_ffi_read v fd dst w = Some (fst (a_read v fd dst (world_view w)),
      fst (snd (a_read v fd dst (world_view w))), w') \<and>
    world_sound w' \<and> world_view w' = snd (snd (a_read v fd dst (world_view w)))"
proof (cases "\<exists>a. fd_at v fd w = Some (PipeRead a)")
  case True
  then obtain a where a: "fd_at v fd w = Some (PipeRead a)" by blast
  obtain b where b: "pipes (wstore w) a = Some b" "pipe_ok b" using fd_at_pipe [OF assms a, of a] by auto
  obtain n d b' where rd: "read_from b dst = Some (n, d, b')" using read_from_no_panic [OF b(2)] by (metis not_Some_eq prod_cases3)
  note res = read_from_result [OF b(2) rd]
  show ?thesis
    using a b rd res put_pipe_sound [OF assms b(1) res(1)]
    by (simp add: vproc_ffi_read_def a_read_def world_view_put_pipe case_prod_beta) (simp add: world_view_def)
next
  case False
  then show ?thesis using assms
    by (auto simp: vproc_ffi_read_def a_read_def world_view_def split: option.splits vfd.splits)
qed

lemma ffi_write_refines:
  assumes "world_sound w"
  shows "\<exists>w'. vproc_ffi_write v fd src w = Some (fst (a_write v fd src (world_view w)), w') \<and>
    world_sound w' \<and> world_view w' = snd (a_write v fd src (world_view w))"
proof (cases "\<exists>a. fd_at v fd w = Some (PipeWrite a)")
  case True
  then obtain a where a: "fd_at v fd w = Some (PipeWrite a)" by blast
  obtain b where b: "pipes (wstore w) a = Some b" "pipe_ok b" using fd_at_pipe [OF assms a, of a] by auto
  obtain n b' where wr: "write_to b src = Some (n, b')" using write_to_no_panic [OF b(2)] by (metis not_Some_eq surj_pair)
  note res = write_to_result [OF b(2) wr]
  show ?thesis
    using a b wr res put_pipe_sound [OF assms b(1) res(1)]
    by (simp add: vproc_ffi_write_def a_write_def world_view_put_pipe case_prod_beta) (simp add: world_view_def)
next
  case False
  then show ?thesis using assms
    by (auto simp: vproc_ffi_write_def a_write_def world_view_def split: option.splits vfd.splits)
qed

lemma ffi_queries_view:
  "vproc_ffi_is_virtual_fd v fd w =
      (if \<exists>x. fst (world_view w) v fd = Some x \<and> (\<forall>r. x \<noteq> Real r) then 1 else 0) \<and>
    vproc_ffi_pipe_is_closed v fd w =
      (if \<exists>a bs. fst (world_view w) v fd = Some (PipeWrite a) \<and> snd (world_view w) a = Some (bs, True) then 1 else 0)"
  by (auto simp: vproc_ffi_is_virtual_fd_def vproc_ffi_pipe_is_closed_def world_view_def pipe_abs_def is_closed_def
      split: option.split vfd.split)

text \<open>
  C12. The C interface refines an abstract descriptor state, call by call and with its return
  values. Seen through what each descriptor refers to and the bytes of each pipe: a read and a
  write return and do what a bounded channel does, and report -1 for a descriptor that is not such
  an end; a close returns 0 exactly for an open descriptor, removes that descriptor only, closes
  the channel of a pipe end no other descriptor of the process refers to, and closes the real
  descriptor of a file exactly when no other descriptor of the process refers to it; a \<^verbatim>\<open>dup2\<close> to
  any number first drops what is there (without closing a real file), then returns the number
  and makes it refer to the same object, or -1 if the old one is not open; a \<^verbatim>\<open>dup\<close> is such a
  \<^verbatim>\<open>dup2\<close> to the allocation counter; the two queries answer from the abstract state. Every call
  keeps the state sound, so that the calls compose.
\<close>

theorem interface_refines_descriptors:
  assumes "world_sound w"
  shows "(\<exists>w'. vproc_ffi_read v fd dst w = Some (fst (a_read v fd dst (world_view w)),
        fst (snd (a_read v fd dst (world_view w))), w') \<and>
      world_sound w' \<and> world_view w' = snd (snd (a_read v fd dst (world_view w)))) \<and>
    (\<exists>w'. vproc_ffi_write v fd src w = Some (fst (a_write v fd src (world_view w)), w') \<and>
      world_sound w' \<and> world_view w' = snd (a_write v fd src (world_view w))) \<and>
    (\<exists>w'. vproc_ffi_close v fd w = (fst (a_close v fd (world_view w)), fst (snd (a_close v fd (world_view w))), w') \<and>
      world_sound w' \<and> world_view w' = snd (snd (a_close v fd (world_view w)))) \<and>
    (\<exists>w'. vproc_ffi_dup2 v fd new w = (fst (a_dup2 v fd new (world_view w)), w') \<and>
      world_sound w' \<and> world_view w' = snd (a_dup2 v fd new (world_view w))) \<and>
    (\<forall>t. get_table v w = Some t \<longrightarrow> length (fds t) < 2 ^ 32 \<longrightarrow>
      (\<exists>w'. vproc_ffi_dup v fd w = Some (fst (a_dup2 v fd (next_fd t) (world_view w)), w') \<and>
        world_sound w' \<and> world_view w' = snd (a_dup2 v fd (next_fd t) (world_view w)))) \<and>
    vproc_ffi_is_virtual_fd v fd w =
      (if \<exists>x. fst (world_view w) v fd = Some x \<and> (\<forall>r. x \<noteq> Real r) then 1 else 0) \<and>
    vproc_ffi_pipe_is_closed v fd w =
      (if \<exists>a bs. fst (world_view w) v fd = Some (PipeWrite a) \<and> snd (world_view w) a = Some (bs, True) then 1 else 0)"
  using ffi_read_refines [OF assms] ffi_write_refines [OF assms] ffi_close_refines [OF assms]
    ffi_dup2_refines [OF assms] ffi_dup_refines [OF assms] ffi_queries_view
  by blast

text \<open>
  At a state with one process: its descriptor 2 is a borrowed one, not virtual; closing it
  returns 0, and closing an unused number -1; \<^verbatim>\<open>dup2\<close> from it to 9, above the counter, returns 9.
\<close>

theorem interface_refines_descriptors_witness:
  "fst (vproc_ffi_close 1 2 fd_sample) = 0 \<and> fst (vproc_ffi_close 1 8 fd_sample) = - 1 \<and>
   fst (vproc_ffi_dup2 1 2 9 fd_sample) = 9 \<and> vproc_ffi_is_virtual_fd 1 2 fd_sample = 0"
proof -
  have view: "fst (world_view fd_sample) 1 = vt_get (vt_new_with_fds 0 1 2)"
    by (rule world_view_table [OF fd_sample_table])
  have get: "vt_get (vt_new_with_fds 0 1 2) 8 = None" "vt_get (vt_new_with_fds 0 1 2) 9 = None"
    by (simp_all add: vt_new_with_fds_def vt_get_def)
  note at = interface_refines_descriptors [OF world_ok_sound [OF fd_sample_ok], where v = 1]
  show ?thesis
    using at [of 2 "[]" "[]" 9] at [of 8 "[]" "[]" 9] view get
    by (auto simp: a_close_def a_dup2_def a_drop_def case_prod_beta Let_def)
qed

end
