(* ===== verification/Session_Laws.thy ===== *)
theory Session_Laws
  imports Session Ffi_Laws
begin

text \<open>
  Properties of the sessions: the driver keeps the executor of its session in order, serves
  the requests of its queue and tells the waiters, a process is created and its end is
  awaited from end to end, and the calls of other threads return. What holds of all threads
  together is in \<open>Session_World\<close>.
\<close>

section \<open>The driver keeps the executor in order\<close>

lemma idle_ok_cong: "ex s = ex t \<Longrightarrow> idle_ok s = idle_ok t"
  by (simp add: idle_ok_def sched_ok_def)

lemma via_entry_sys:
  assumes "virtual_execve_via_entry W path argv envp v = (Ok vpid, v')"
  shows "joined (vsys v) vpid (vsys v')" and "vpid = next_pid (ex (vsys v))"
    and "ex_set (vsys v') = ex_set (vsys v)" and "current (ex (vsys v')) = current (ex (vsys v))"
    and "\<exists>c. hm_get (vprocs (ex (vsys v'))) vpid = Some c \<and> state c = Ready"
    and "fdw (vsys v') = exec_world (current (ex (vsys v))) vpid (fdw (vsys v))"
proof -
  obtain ac ec v1 v2 where bc: "build_c_strings W argv v = (Ok ac, v1)" "build_c_strings W envp v1 = (Ok ec, v2)"
    and st: "started W ac ec (current (ex (vsys v))) v2 vpid v'" using via_entry_ok [OF assms] by blast
  have "vsys v2 = vsys v" using build_c_strings_rt [OF bc(1)] build_c_strings_rt [OF bc(2)] by (simp add: vsys_def)
  with st show "joined (vsys v) vpid (vsys v')" "vpid = next_pid (ex (vsys v))"
    "ex_set (vsys v') = ex_set (vsys v)" "current (ex (vsys v')) = current (ex (vsys v))"
    "\<exists>c. hm_get (vprocs (ex (vsys v'))) vpid = Some c \<and> state c = Ready"
    "fdw (vsys v') = exec_world (current (ex (vsys v))) vpid (fdw (vsys v))"
    by (auto simp: started_def)
qed

lemma via_entry_keeps:
  assumes "virtual_execve_via_entry W path argv envp v = (Ok vpid, v')" and "idle_ok (vsys v)" and "next_pid (ex (vsys v)) \<noteq> - 1"
  shows "idle_ok (vsys v')"
  using via_entry_sys [OF assms(1)] assms(2,3) by (simp add: joined_def idle_ok_def)

lemma with_fdw_sys [simp]: "vsys (with_fdw f v) = (vsys v)\<lparr>fdw := f (fdw (vsys v))\<rparr>"
  by (simp add: with_fdw_def)

lemma enter_sys [simp]: "ex (vsys (enter S v)) = executor S" "ex_set (vsys (enter S v))" "fdw (vsys (enter S v)) = fdw (vsys v)"
  by (simp_all add: enter_def)

lemma room_next:
  assumes "unat (n :: u32) + Suc k < 2 ^ 32"
  shows "n \<noteq> - 1" and "unat (n + 1) = Suc (unat n)" and "n < n + 1"
proof -
  show n: "unat (n + 1) = Suc (unat n)" using assms by (simp add: unat_word_ariths)
  show ne: "n \<noteq> - 1" using n by auto
  show "n < n + 1" using ne by (rule word_less_succ)
qed

text \<open>New processes joined, while every earlier process, its descriptors and all exit codes stayed.\<close>

definition grows :: "sys \<Rightarrow> sys \<Rightarrow> bool" where
  "grows s s' \<longleftrightarrow> next_pid (ex s) \<le> next_pid (ex s') \<and> ex_set s' = ex_set s \<and> exit_codes (ex s') = exit_codes (ex s) \<and>
     (\<forall>q < next_pid (ex s). hm_get (vprocs (ex s')) q = hm_get (vprocs (ex s)) q \<and> get_table q (fdw s') = get_table q (fdw s))"

lemma grows_refl [simp]: "grows s s"
  by (simp add: grows_def)

lemma grows_trans: "grows s s1 \<Longrightarrow> grows s1 s2 \<Longrightarrow> grows s s2"
  by (auto simp: grows_def)

lemma get_table_other:
  "q \<noteq> vpid \<Longrightarrow> get_table q (create_table_with_fds vpid i o' e (exec_world None vpid w)) = get_table q w"
  by (auto simp: create_table_with_fds_def insert_table_def exec_world_def put_table_def get_table_def split: option.split)

lemma get_table_create: "get_table vpid (create_table_with_fds vpid i o' e w) = Some (vt_new_with_fds i o' e)"
  by (simp add: create_table_with_fds_def insert_table_def get_table_def)

text \<open>One request: either it starts a process with the descriptors asked for, or nothing happens and the cell gets 0.\<close>

definition has_fds :: "SpawnRequest \<Rightarrow> VPid \<Rightarrow> sys \<Rightarrow> bool" where
  "has_fds req vpid s \<longleftrightarrow> (\<exists>c. hm_get (vprocs (ex s)) vpid = Some c \<and> state c = Ready) \<and>
     get_table vpid (fdw s) = Some (vt_new_with_fds (stdin_fd req) (stdout_fd req) (stderr_fd req))"

lemma serve_one:
  assumes "serve_requests W (req # reqs) v cells = Some z" and "idle_ok (vsys v)"
    and "unat (next_pid (ex (vsys v))) + Suc k < 2 ^ 32"
  shows "\<exists>vpid v1. serve_requests (\<lambda>i. W (Suc i)) reqs v1 (cells(req_result req \<mapsto> vpid)) = Some z \<and>
    idle_ok (vsys v1) \<and> grows (vsys v) (vsys v1) \<and> unat (next_pid (ex (vsys v1))) \<le> Suc (unat (next_pid (ex (vsys v)))) \<and>
    (vpid = 0 \<or> vpid = next_pid (ex (vsys v)) \<and> vpid < next_pid (ex (vsys v1)) \<and> has_fds req vpid (vsys v1))"
proof -
  obtain r v0 where run: "virtual_execve_via_entry (W 0) (req_path req) (req_argv req) (req_envp req) v = (r, v0)" by fastforce
  show ?thesis
  proof (cases r)
    case (Ok vpid)
    note ok = via_entry_sys [OF run [unfolded Ok]] via_entry_keeps [OF run [unfolded Ok] assms(2)]
    let ?v1 = "with_fdw (create_table_with_fds vpid (stdin_fd req) (stdout_fd req) (stderr_fd req)) v0"
    have cur: "current (ex (vsys v)) = None" using assms(2) by (simp add: idle_ok_def)
    have w: "fdw (vsys v0) = exec_world None vpid (fdw (vsys v))" using ok(6) cur by simp
    note n = room_next [OF assms(3)]
    have "idle_ok (vsys ?v1)" using ok(7) [OF n(1)] idle_ok_cong [of "vsys ?v1" "vsys v0"] by simp
    moreover have "grows (vsys v) (vsys ?v1)"
      using ok(1-3) n(3) w by (auto simp: grows_def joined_def get_table_other)
    moreover have "has_fds req vpid (vsys ?v1)" using ok(5) by (simp add: has_fds_def get_table_create)
    moreover have "next_pid (ex (vsys ?v1)) = vpid + 1" using ok(1) by (simp add: joined_def)
    moreover have "serve_requests (\<lambda>i. W (Suc i)) reqs ?v1 (cells(req_result req \<mapsto> vpid)) = Some z"
      using assms(1) run Ok by simp
    ultimately show ?thesis using ok(2) n by (intro exI [of _ vpid] exI [of _ ?v1]) simp
  next
    case (Err e)
    then have "vsys v0 = vsys v" using via_entry_err [OF run [unfolded Err]] by (simp add: vsys_def)
    then show ?thesis using assms(1,2) run Err by (auto intro!: exI [of _ 0] exI [of _ v0])
  next
    case Panic
    then show ?thesis using assms(1) run by simp
  qed
qed

lemma has_fds_grows: "has_fds req vpid s \<Longrightarrow> grows s s' \<Longrightarrow> vpid < next_pid (ex s) \<Longrightarrow> has_fds req vpid s'"
  by (auto simp: has_fds_def grows_def)

text \<open>What a request finds in its cell.\<close>

definition answered :: "sys \<Rightarrow> sys \<Rightarrow> (nat \<Rightarrow> u32 option) \<Rightarrow> SpawnRequest \<Rightarrow> bool" where
  "answered s s' cells req \<longleftrightarrow> (\<exists>vpid. cells (req_result req) = Some vpid \<and>
     (vpid = 0 \<or> next_pid (ex s) \<le> vpid \<and> vpid < next_pid (ex s') \<and> has_fds req vpid s'))"

lemma serve_all:
  assumes "serve_requests W reqs v cells = Some (v', cells')" and "idle_ok (vsys v)"
    and "unat (next_pid (ex (vsys v))) + length reqs < 2 ^ 32" and "distinct (map req_result reqs)"
  shows "idle_ok (vsys v') \<and> grows (vsys v) (vsys v') \<and> (\<forall>req \<in> set reqs. answered (vsys v) (vsys v') cells' req) \<and>
    (\<forall>c. c \<notin> req_result ` set reqs \<longrightarrow> cells' c = cells c)"
  using assms
proof (induction reqs arbitrary: W v cells)
  case (Cons req reqs)
  obtain vpid v1 where rest: "serve_requests (\<lambda>i. W (Suc i)) reqs v1 (cells(req_result req \<mapsto> vpid)) = Some (v', cells')"
    and v1: "idle_ok (vsys v1)" "grows (vsys v) (vsys v1)" "unat (next_pid (ex (vsys v1))) \<le> Suc (unat (next_pid (ex (vsys v))))"
    and ans: "vpid = 0 \<or> vpid = next_pid (ex (vsys v)) \<and> vpid < next_pid (ex (vsys v1)) \<and> has_fds req vpid (vsys v1)"
    using serve_one [OF Cons.prems(1,2)] Cons.prems(3) by (metis length_Cons)
  have IH: "idle_ok (vsys v')" "grows (vsys v1) (vsys v')" "\<forall>req \<in> set reqs. answered (vsys v1) (vsys v') cells' req"
    "\<forall>c. c \<notin> req_result ` set reqs \<longrightarrow> cells' c = (cells(req_result req \<mapsto> vpid)) c"
    using Cons.IH [OF rest v1(1)] v1(3) Cons.prems(3,4) by auto
  have g: "grows (vsys v) (vsys v')" using v1(2) IH(2) by (rule grows_trans)
  have "cells' (req_result req) = Some vpid" using IH(4) Cons.prems(4) by auto
  then have "answered (vsys v) (vsys v') cells' req"
    using ans has_fds_grows [OF _ IH(2)] IH(2) by (fastforce simp: answered_def grows_def)
  moreover have "answered (vsys v) (vsys v') cells' r" if "r \<in> set reqs" for r
    using IH(3) that v1(2) by (fastforce simp: answered_def grows_def)
  moreover have "\<forall>c. c \<notin> req_result ` set (req # reqs) \<longrightarrow> cells' c = cells c" using IH(4) by simp
  ultimately show ?case using IH(1) g by simp
qed simp

lemma install_fds_ex: "install_fds ok3 f s = Some s' \<Longrightarrow> ex s' = ex s"
  by (cases f) (auto simp: install_fds_eq split: if_splits)

lemma swap_keeps:
  assumes "run_ok run" and "idle_ok s" and "step_from_driver_with_fd_swap ok3 f run s = Some s'"
  shows "idle_ok s'"
proof -
  obtain r s1 where pick: "pick_next s = (r, s1)" by fastforce
  have s: "sched_ok s" "current (ex s) = None" using assms(2) by (simp_all add: idle_ok_def)
  then have keep: "exec_ok (ex s1)" "current (ex s1) = None" "case r of None \<Rightarrow> accounted (ex s1)
     | Some p \<Rightarrow> accounted ((ex s1)\<lparr>current := Some p\<rparr>) \<and> hm_contains (vprocs (ex s1)) p"
    using pick_next_keeps [OF _ _ s(2) pick] by (auto simp: sched_ok_def)
  show ?thesis
  proof (cases r)
    case None
    then show ?thesis using keep assms(3) pick by (auto simp: step_from_driver_with_fd_swap_def idle_ok_def sched_ok_def)
  next
    case (Some p)
    obtain s3 s4 where s3: "ex s3 = ex (snd (deliver_signals p s1))"
      and s4: "resume run p (count_switch (set_current (Some p) s3)) = Some s4" and s': "ex s' = (ex s4)\<lparr>current := None\<rparr>"
      using assms(3) pick Some
      by (auto simp: step_from_driver_with_fd_swap_def Let_def bind_eq_Some_conv dest!: install_fds_ex split: option.splits)
    have "sched_ok (count_switch (set_current (Some p) (snd (deliver_signals p s1))))"
      using keep Some by (intro deliver_keeps) auto
    then have "sched_ok (count_switch (set_current (Some p) s3))" using s3 by (simp add: sched_ok_def)
    then have "exec_ok (ex s4)" "accounted ((ex s4)\<lparr>current := None\<rparr>)"
      using resume_keeps [OF assms(1), of "count_switch (set_current (Some p) s3)" p] s4 by auto
    then show ?thesis using s' exec_ok_current(2) by (simp add: idle_ok_def sched_ok_def)
  qed
qed

lemma install_fds_total: "(\<And>a b. ok3 a b) \<Longrightarrow> \<exists>t. install_fds ok3 q u = Some t \<and> ex t = ex u \<and> ex_set t = ex_set u"
  by (cases q) (simp add: install_fds_eq emit_def)

lemma swap_total:
  assumes "run_ok run" and "idle_ok s" and "\<And>a b. ok3 a b"
  shows "\<exists>s'. step_from_driver_with_fd_swap ok3 f run s = Some s'"
proof (cases "pick_next s")
  case (Pair r s1)
  show ?thesis
  proof (cases r)
    case (Some p)
    have s: "sched_ok s" "current (ex s) = None" using assms(2) by (simp_all add: idle_ok_def)
    let ?s2 = "snd (deliver_signals p s1)"
    have "sched_ok (count_switch (set_current (Some p) ?s2))"
      using pick_next_keeps [OF _ _ s(2) Pair] s(1) Some by (intro deliver_keeps) (auto simp: sched_ok_def)
    then have res: "resume run p (count_switch (set_current (Some p) s3)) \<noteq> None" if "ex s3 = ex ?s2" for s3
      using resume_keeps [OF assms(1), of "count_switch (set_current (Some p) s3)" p] that by (auto simp: sched_ok_def)
    show ?thesis
    proof (cases "get_real_fds p (fdw ?s2)")
      case None
      then show ?thesis using res [of ?s2] Pair Some by (auto simp: step_from_driver_with_fd_swap_def Let_def)
    next
      case (Some g)
      obtain s3 where s3: "install_fds ok3 g ?s2 = Some s3" "ex s3 = ex ?s2" using install_fds_total [of ok3 g ?s2] assms(3) by blast
      then show ?thesis using res [OF s3(2)] install_fds_total [of ok3 f] assms(3) Pair \<open>r = Some p\<close> Some
        by (fastforce simp: step_from_driver_with_fd_swap_def Let_def)
    qed
  qed (use Pair in \<open>simp add: step_from_driver_with_fd_swap_def\<close>)
qed

lemma reap_idle: "idle_ok s \<Longrightarrow> idle_ok (reap_done_coroutines s)"
  using reap_keeps [of s] reap_done_ex [of s] by (simp add: idle_ok_def)

section \<open>Waiters\<close>

lemma check_waiters_spec:
  assumes "check_waiters s ws cells = (ws', cells')" and "distinct (map wait_result ws)"
  shows "ws' = filter (\<lambda>w. get_exit_code (wait_vpid w) s = None) ws \<and>
    (\<forall>w \<in> set ws. cells' (wait_result w) =
       (case get_exit_code (wait_vpid w) s of None \<Rightarrow> cells (wait_result w) | Some code \<Rightarrow> Some code)) \<and>
    (\<forall>c. c \<notin> wait_result ` set ws \<longrightarrow> cells' c = cells c)"
  using assms
proof (induction ws arbitrary: cells ws')
  case (Cons w ws)
  show ?case
  proof (cases "get_exit_code (wait_vpid w) s")
    case None
    then obtain kept where "check_waiters s ws cells = (kept, cells')" "ws' = w # kept"
      using Cons.prems(1) by (auto split: prod.splits)
    then show ?thesis using Cons.IH [of cells kept] Cons.prems(2) None by auto
  next
    case (Some code)
    then have "check_waiters s ws (cells(wait_result w \<mapsto> code)) = (ws', cells')" using Cons.prems(1) by simp
    from Cons.IH [OF this] Cons.prems(2)
    have IH: "ws' = filter (\<lambda>w. get_exit_code (wait_vpid w) s = None) ws"
      "\<forall>u \<in> set ws. cells' (wait_result u) = (case get_exit_code (wait_vpid u) s of
          None \<Rightarrow> (cells(wait_result w \<mapsto> code)) (wait_result u) | Some code \<Rightarrow> Some code)"
      "\<forall>c. c \<notin> wait_result ` set ws \<longrightarrow> cells' c = (cells(wait_result w \<mapsto> code)) c" by simp_all
    have fresh: "wait_result w \<notin> wait_result ` set ws" using Cons.prems(2) by simp
    then have "cells' (wait_result w) = Some code" using IH(3) by simp
    moreover have "wait_result u \<noteq> wait_result w" if "u \<in> set ws" for u using that fresh by (metis image_eqI)
    then have "\<forall>u \<in> set ws. cells' (wait_result u) =
        (case get_exit_code (wait_vpid u) s of None \<Rightarrow> cells (wait_result u) | Some code \<Rightarrow> Some code)"
      using IH(2) by (simp split: option.split)
    ultimately show ?thesis using IH(1,3) Some by simp
  qed
qed simp

section \<open>A turn of the driver\<close>

lemma driver_turnI:
  assumes "serve_requests W (spawn_queue S) (enter S v) sc = Some (v1, sc1)"
    and "step_from_driver_with_fd_swap ok3 (saved_fds S) run (vsys v1) = Some s2" and "check_waiters s2 (waiters S) wc = (ws, wc1)"
  shows "\<exists>t. driver_turn W ok3 run S v sc wc = Some t \<and> t_spawn t = sc1 \<and> t_wait t = wc1 \<and>
    t_session t = S\<lparr>executor := ex (reap_done_coroutines s2), spawn_queue := [], waiters := ws\<rparr> \<and>
    vsys (t_shared t) = reap_done_coroutines s2 \<and>
    (t_phase t = Deciding \<or> (\<exists>pfs pids. t_phase t = Polling pfs pids \<and> collect_io_waits (reap_done_coroutines s2) = (pfs, pids)))"
  using assms by (simp add: driver_turn_def Let_def split: prod.split)

lemma driver_turnE:
  assumes "driver_turn W ok3 run S v sc wc = Some t"
  obtains v1 s2 where "serve_requests W (spawn_queue S) (enter S v) sc = Some (v1, t_spawn t)"
    "step_from_driver_with_fd_swap ok3 (saved_fds S) run (vsys v1) = Some s2"
    "check_waiters s2 (waiters S) wc = (waiters (t_session t), t_wait t)"
    "t_session t = S\<lparr>executor := ex (reap_done_coroutines s2), spawn_queue := [], waiters := waiters (t_session t)\<rparr>"
    "vsys (t_shared t) = reap_done_coroutines s2"
    "t_phase t = Deciding \<or> (\<exists>pfs pids. t_phase t = Polling pfs pids \<and> collect_io_waits (reap_done_coroutines s2) = (pfs, pids))"
proof -
  obtain v1 sc1 s2 where s: "serve_requests W (spawn_queue S) (enter S v) sc = Some (v1, sc1)"
    "step_from_driver_with_fd_swap ok3 (saved_fds S) run (vsys v1) = Some s2"
    using assms by (auto simp: driver_turn_def bind_eq_Some_conv)
  obtain ws wc1 where cw: "check_waiters s2 (waiters S) wc = (ws, wc1)" by fastforce
  show thesis by (rule that [of v1 s2]) (use driver_turnI [OF s cw] s cw assms in auto)
qed

text \<open>The step in which a process exits.\<close>

lemma resume_exit:
  assumes "hm_get (vprocs (ex s)) pid = Some c" and "run (co c) = (\<lambda>s. (vproc_exit_with_code code s, dead))"
    and "current (ex s) = Some pid" and "ex_set s" and "hm_ok (vprocs (ex s))"
  shows "\<exists>s'. resume run pid s = Some s' \<and> ex_set s' \<and> hm_ok (vprocs (ex s')) \<and> hm_get (exit_codes (ex s')) pid = Some code \<and>
    (\<exists>c'. hm_get (vprocs (ex s')) pid = Some c' \<and> is_done c')"
  using assms by (simp add: resume_def set_state_def with_vprocs_def vproc_exit_with_code_def with_exit_codes_def is_done_def)

lemma swap_exit:
  assumes "pick_next s = (Some pid, s1)" and "hm_get (vprocs (ex s)) pid = Some c"
    and "run (co c) = (\<lambda>s. (vproc_exit_with_code code s, dead))" and "ex_set s" and "\<And>a b. ok3 a b"
    and "hm_ok (vprocs (ex s))"
  shows "\<exists>s'. step_from_driver_with_fd_swap ok3 f run s = Some s' \<and> ex_set s' \<and> hm_ok (vprocs (ex s')) \<and> hm_get (exit_codes (ex s')) pid = Some code \<and>
    (\<exists>c'. hm_get (vprocs (ex s')) pid = Some c' \<and> is_done c')"
proof -
  have s1: "vprocs (ex s1) = vprocs (ex s)" "ex_set s1" using pick_next_eq(1) [OF assms(1)] assms(4) by (simp_all add: with_queue_def)
  obtain g where g: "snd (deliver_signals pid s1) = with_vprocs (hm_modify pid g) s1" "co (g c) = co c"
    using deliver_signals_eq [of s1 pid c] assms(2) s1(1) by (auto simp: set_done_def split: option.splits)
  define s2 where "s2 = snd (deliver_signals pid s1)"
  have s2: "hm_get (vprocs (ex s2)) pid = Some (g c)" "ex_set s2" "hm_ok (vprocs (ex s2))"
    using g s1 assms(2,6) by (simp_all add: s2_def with_vprocs_def)
  note inst = install_fds_total [of ok3, OF assms(5)]
  obtain s3 where s3: "(case get_real_fds pid (fdw s2) of None \<Rightarrow> Some s2 | Some f \<Rightarrow> install_fds ok3 f s2) = Some s3"
    "ex s3 = ex s2" "ex_set s3" using inst [of "the (get_real_fds pid (fdw s2))" s2] s2(2) by (cases "get_real_fds pid (fdw s2)") auto
  obtain s4 where s4: "resume run pid (count_switch (set_current (Some pid) s3)) = Some s4" "ex_set s4" "hm_ok (vprocs (ex s4))"
    "hm_get (exit_codes (ex s4)) pid = Some code" "\<exists>c'. hm_get (vprocs (ex s4)) pid = Some c' \<and> is_done c'"
    using resume_exit [of "count_switch (set_current (Some pid) s3)" pid "g c" run code dead] s2(1,3) s3(2,3) g(2) assms(3)
    by (auto simp: count_switch_def set_current_def)
  obtain s5 where "(case get_real_fds pid (fdw s2) of None \<Rightarrow> Some (set_current None s4) | Some x \<Rightarrow> install_fds ok3 f (set_current None s4)) = Some s5"
    "ex s5 = (ex s4)\<lparr>current := None\<rparr>" "ex_set s5"
    using inst [of f "set_current None s4"] s4(2) by (cases "get_real_fds pid (fdw s2)") (auto simp: set_current_def)
  then show ?thesis using assms(1) s3(1) s4 unfolding s2_def
    by (simp add: step_from_driver_with_fd_swap_def Let_def)
qed

text \<open>
  C8. Who waits for a process learns its exit code: in the turn of the driver in which the
  process exits with a code, every thread that waits for it in \<^verbatim>\<open>vproc_ffi_run_until_exit\<close>
  finds the code at its next look at its result cell, although the process is reaped in that same
  turn, and it is no longer among the waiters; a thread that asks later is told the same code as
  soon as it has the session's mutex.
\<close>

theorem waiter_gets_exit_code:
  assumes "objs h i = Some S" and "drivers h i = Some Iterate" and "\<not> shutdown S" and "spawn_queue S = []"
    and "exec_ok (executor S)" and "pick_next (vsys (enter S (shared h))) = (Some vpid, s1)"
    and "hm_get (vprocs (executor S)) vpid = Some c"
    and "e_run E (co c) = (\<lambda>s. (vproc_exit_with_code code s, dead))" and "\<And>a b. e_dup3 E a b"
    and "\<lparr>wait_vpid = vpid, wait_result = cell\<rparr> \<in> set (waiters S)" and "distinct (map wait_result (waiters S))" and "n < 30000"
  shows "\<exists>h' S'. run_session_driver E i h = Some h' \<and> wait_step True sid vpid cell (WAwait n) h' = (WDone code, h') \<and>
    objs h' i = Some S' \<and> hm_get (vprocs (executor S')) vpid = None \<and> (\<forall>w \<in> set (waiters S'). wait_vpid w \<noteq> vpid) \<and>
    wait_step True sid vpid cell' (WCheck i) h' = (WDone code, h')"
proof -
  let ?v = "enter S (shared h)"
  obtain s2 where s2: "step_from_driver_with_fd_swap (e_dup3 E) (saved_fds S) (e_run E) (vsys ?v) = Some s2" "ex_set s2"
    "hm_ok (vprocs (ex s2))" "hm_get (exit_codes (ex s2)) vpid = Some code" "\<exists>c'. hm_get (vprocs (ex s2)) vpid = Some c' \<and> is_done c'"
    using swap_exit [OF assms(6), of c "e_run E" code dead "e_dup3 E" "saved_fds S"] assms(7-9) exec_okD(1) [OF assms(5)] by auto
  obtain ws wc where cw: "check_waiters s2 (waiters S) (wait_cells h) = (ws, wc)" by fastforce
  have code: "get_exit_code vpid s2 = Some code" using s2(2,4) by (simp add: get_exit_code_def)
  have w: "ws = filter (\<lambda>w. get_exit_code (wait_vpid w) s2 = None) (waiters S)" "wc cell = Some code"
    using check_waiters_spec [OF cw assms(11)] assms(10) code by force+
  define S' where "S' = S\<lparr>executor := ex (reap_done_coroutines s2), spawn_queue := [], waiters := ws\<rparr>"
  obtain t where turn: "driver_turn (e_world E) (e_dup3 E) (e_run E) S (shared h) (spawn_cells h) (wait_cells h) = Some t"
    "t_session t = S'" "t_wait t = wc"
    using driver_turnI [OF _ s2(1) cw] assms(4) unfolding S'_def by fastforce
  define h' where "h' = put_phase i (t_phase t) (put_session i (t_session t)
    (h\<lparr>shared := t_shared t, spawn_cells := t_spawn t, wait_cells := t_wait t\<rparr>))"
  have run: "run_session_driver E i h = Some h'"
    using assms(1-3) turn by (simp add: run_session_driver_def driver_iterate_def h'_def)
  have h': "objs h' i = Some S'" "wait_cells h' = wc" using turn(2,3) by (simp_all add: h'_def put_phase_def put_session_def)
  have gone: "hm_get (vprocs (executor S')) vpid = None"
    using s2(5) hm_get_retain [OF s2(3)] by (auto simp: S'_def reap_done_ex)
  have stays: "hm_get (exit_codes (executor S')) vpid = Some code" using s2(4) by (simp add: S'_def reap_done_ex)
  show ?thesis using run h' gone stays w code assms(12)
    by (intro exI [of _ h'] exI [of _ S']) (auto simp: code_in_def known_code_def S'_def)
qed

text \<open>A process with one session, whose driver is in phase \<open>ph\<close>.\<close>

definition host_with :: "Session \<Rightarrow> phase \<Rightarrow> host" where
  "host_with S ph = \<lparr>SESSIONS = [(1, 0)], NEXT_SESSION_ID = 2, DEFAULT_SESSION = None, objs = [0 \<mapsto> S], drivers = [0 \<mapsto> ph],
     next_obj = 1, spawn_cells = Map.empty, wait_cells = Map.empty, next_cell = 1, shared = vst_sample fd_world_init\<rparr>"

definition env_with :: "(handle \<Rightarrow> sys \<Rightarrow> sys \<times> bool) \<Rightarrow> env" where
  "env_with run = \<lparr>e_world = (\<lambda>_. world_sample free_cell), e_dup3 = (\<lambda>_ _. True), e_run = run, e_libc = libc_sample, e_now = 0\<rparr>"

definition session_one :: "Waiter list \<Rightarrow> Session" where
  "session_one ws = (session_new 1)\<lparr>executor := ex sys_one, waiters := ws\<rparr>"

lemma session_one_sel [simp]: "executor (session_one ws) = ex sys_one" "waiters (session_one ws) = ws"
  "\<not> shutdown (session_one ws)" "spawn_queue (session_one ws) = []"
  by (simp_all add: session_one_def session_new_def)

lemma host_with_sel [simp]: "objs (host_with S ph) 0 = Some S" "drivers (host_with S ph) 0 = Some ph"
  "hm_get (SESSIONS (host_with S ph)) 1 = Some 0" "shared (host_with S ph) = vst_sample fd_world_init"
  "e_run (env_with run) = run" "e_dup3 (env_with run) a b" "e_world (env_with run) = (\<lambda>_. world_sample free_cell)"
  by (simp_all add: host_with_def env_with_def hm_get_def)

theorem waiter_gets_exit_code_witness:
  "\<exists>h'. run_session_driver (env_with (\<lambda>h s. (vproc_exit_with_code 7 s, True))) 0
       (host_with (session_one [\<lparr>wait_vpid = 1, wait_result = 0\<rparr>]) Iterate) = Some h' \<and>
     wait_step True 1 1 0 (WAwait 5) h' = (WDone 7, h')"
proof -
  let ?S = "session_one [\<lparr>wait_vpid = 1, wait_result = 0\<rparr>]"
  have ok: "exec_ok (ex sys_one)" using sys_one_facts(1) by (simp add: sched_ok_def)
  have pick: "pick_next (vsys (enter ?S (vst_sample fd_world_init))) = (Some 1, with_queue (\<lambda>_. []) (vsys (enter ?S (vst_sample fd_world_init))))"
    using sys_one_facts(5) sys_one_proc by (simp add: pick_next_def is_done_def)
  let ?h = "host_with ?S Iterate" and ?E = "env_with (\<lambda>h s. (vproc_exit_with_code 7 s, True))"
  obtain c where c: "hm_get (vprocs (executor ?S)) 1 = Some c" using sys_one_proc by simp
  note step = waiter_gets_exit_code [where h = ?h and i = 0 and S = ?S and E = ?E and vpid = 1 and c = c and code = 7 and dead = True
      and cell = 0 and n = 5 and sid = 1]
  have "\<exists>h' S'. run_session_driver ?E 0 ?h = Some h' \<and> wait_step True 1 1 0 (WAwait 5) h' = (WDone 7, h') \<and>
    objs h' 0 = Some S' \<and> hm_get (vprocs (executor S')) 1 = None \<and> (\<forall>w \<in> set (waiters S'). wait_vpid w \<noteq> 1) \<and>
    wait_step True 1 1 0 (WCheck 0) h' = (WDone 7, h')"
    by (rule step) (use ok pick c in simp_all)
  then show ?thesis by blast
qed

section \<open>Creating a process\<close>

lemma create_run_done [simp]: "create_run others free sid req n k (CDone v) h = (CDone v, h)"
  by (cases n) simp_all

lemma host_upd [simp]:
  "objs (put_session i S h) = (objs h)(i \<mapsto> S)" "drivers (put_session i S h) = drivers h"
  "objs (put_phase i ph h) = objs h" "drivers (put_phase i ph h) = (drivers h)(i \<mapsto> ph)"
  "spawn_cells (put_session i S h) = spawn_cells h" "spawn_cells (put_phase i ph h) = spawn_cells h"
  "wait_cells (put_session i S h) = wait_cells h" "wait_cells (put_phase i ph h) = wait_cells h"
  "SESSIONS (put_session i S h) = SESSIONS h" "SESSIONS (put_phase i ph h) = SESSIONS h"
  "shared (put_session i S h) = shared h" "shared (put_phase i ph h) = shared h"
  "next_obj (put_session i S h) = next_obj h" "next_obj (put_phase i ph h) = next_obj h"
  by (simp_all add: put_session_def put_phase_def)

definition create_over :: "create_pc \<Rightarrow> bool" where
  "create_over pc \<longleftrightarrow> (\<exists>v. pc = CDone v)"

lemma create_run_Suc:
  assumes "\<not> create_over pc" and "create_step (free k) sid req pc (others k h) = (pc', h')"
  shows "create_run others free sid req (Suc n) k pc h = create_run others free sid req n (Suc k) pc' h'"
  using assms by (cases pc) (simp_all add: create_over_def)

text \<open>A step of the driver of one session, if it does not panic.\<close>

definition lockstep :: "env \<Rightarrow> nat \<Rightarrow> host \<Rightarrow> host" where
  "lockstep E i h = (case run_session_driver E i h of None \<Rightarrow> h | Some h' \<Rightarrow> h')"

text \<open>The other threads: the driver of one session makes \<open>d k\<close> steps before the caller's \<open>k\<close>-th.\<close>

definition driver_only :: "env \<Rightarrow> nat \<Rightarrow> (nat \<Rightarrow> nat) \<Rightarrow> nat \<Rightarrow> host \<Rightarrow> host" where
  "driver_only E i d k = (lockstep E i ^^ d k)"

text \<open>Every stretch of \<open>B + 1\<close> steps has one at which \<open>P\<close> holds.\<close>

definition every :: "nat \<Rightarrow> (nat \<Rightarrow> bool) \<Rightarrow> bool" where
  "every B P \<longleftrightarrow> (\<forall>k. \<exists>j \<le> B. P (k + j))"

lemma everyD: "every B P \<Longrightarrow> \<exists>j \<le> B. P (k + j)"
  by (simp add: every_def)

subsection \<open>A caller alone with a sleeping driver\<close>

lemma create_advance:
  assumes "\<And>k. others k h = h" and "\<not> create_over pc" and "create_step False sid req pc h = (pc, h)"
    and "create_step True sid req pc h = (pc', h')" and "free (k + j)" and "j \<le> B"
  shows "\<exists>j \<le> B. \<forall>n. create_run others free sid req (n + Suc j) k pc h = create_run others free sid req n (k + Suc j) pc' h'"
  using assms(5,6)
proof (induction j arbitrary: k B)
  case 0
  then have "create_run others free sid req (n + Suc 0) k pc h = create_run others free sid req n (k + Suc 0) pc' h'" for n
    using create_run_Suc [OF assms(2), of free k sid req others h] assms(1,4) by simp
  then show ?case by blast
next
  case (Suc j)
  show ?case
  proof (cases "free k")
    case True
    then have "create_run others free sid req (n + Suc 0) k pc h = create_run others free sid req n (k + Suc 0) pc' h'" for n
      using create_run_Suc [OF assms(2), of free k sid req others h] assms(1,4) by simp
    then show ?thesis by blast
  next
    case False
    then have st: "create_run others free sid req (Suc n) k pc h = create_run others free sid req n (Suc k) pc h" for n
      using create_run_Suc [OF assms(2), of free k sid req others h] assms(1,3) by simp
    have "free (Suc k + j)" "j \<le> B - 1" using Suc.prems by simp_all
    then obtain i where i: "i \<le> B - 1" "\<And>n. create_run others free sid req (n + Suc i) (Suc k) pc h =
        create_run others free sid req n (Suc k + Suc i) pc' h'"
      using Suc.IH [of "Suc k" "B - 1"] by blast
    have "create_run others free sid req (n + Suc (Suc i)) k pc h = create_run others free sid req n (k + Suc (Suc i)) pc' h'" for n
      using st [of "n + Suc i"] i(2) [of n] by (simp only: add_Suc add_Suc_right)
    then show ?thesis using i(1) Suc.prems(2) by (intro exI [of _ "Suc i"]) (simp only: , simp)
  qed
qed

lemma create_locks:
  assumes "\<And>k. others k h = h" and "free (k + j)" and "j \<le> B" and "a + j < 100"
  shows "\<exists>j \<le> B. \<forall>n. create_run others free sid req (n + Suc j) k (CTryLock i a) h =
    create_run others free sid req n (k + Suc j) (CPush i) h"
  using assms(2-)
proof (induction j arbitrary: k B a)
  case 0
  then show ?case using assms(1) by (intro exI [of _ 0]) simp
next
  case (Suc j)
  show ?case
  proof (cases "free k")
    case True
    then show ?thesis using assms(1) by (intro exI [of _ 0]) simp
  next
    case False
    then have st: "create_run others free sid req (Suc n) k (CTryLock i a) h =
        create_run others free sid req n (Suc k) (CTryLock i (Suc a)) h" for n
      using assms(1) Suc.prems(3) by simp
    have "free (Suc k + j)" "j \<le> B - 1" "Suc a + j < 100" using Suc.prems by simp_all
    then obtain m where m: "m \<le> B - 1" "\<And>n. create_run others free sid req (n + Suc m) (Suc k) (CTryLock i (Suc a)) h =
        create_run others free sid req n (Suc k + Suc m) (CPush i) h"
      using Suc.IH [of "Suc k" "B - 1" "Suc a"] by blast
    have "create_run others free sid req (n + Suc (Suc m)) k (CTryLock i a) h = create_run others free sid req n (k + Suc (Suc m)) (CPush i) h" for n
      using st [of "n + Suc m"] m(2) [of n] by (simp only: add_Suc add_Suc_right)
    then show ?thesis using m(1) Suc.prems(2) by (intro exI [of _ "Suc m"]) (simp only: , simp)
  qed
qed

subsection \<open>Waiting for the driver to serve the request\<close>

text \<open>
  The driver has \<open>m\<close> steps to make until the cell is filled: it is at its test with the request in
  the queue (2), at the top of its loop (1), or past it, with no further request (0).
\<close>

definition stage :: "host \<Rightarrow> nat \<Rightarrow> Session \<Rightarrow> nat \<Rightarrow> u32 \<Rightarrow> nat \<Rightarrow> host \<Rightarrow> bool" where
  "stage h0 i S cell vpid m h \<longleftrightarrow>
     (if m = 0 then spawn_cells h cell = Some vpid \<and> (\<exists>S'. objs h i = Some S' \<and> spawn_queue S' = [])
      else m \<le> 2 \<and> objs h i = Some S \<and> drivers h i = Some (if m = 2 then Deciding else Iterate) \<and>
        shared h = shared h0 \<and> spawn_cells h = spawn_cells h0 \<and> wait_cells h = wait_cells h0)"

lemma driver_turn_queue:
  assumes "driver_turn W ok3 run S v sc wc = Some t"
  shows "spawn_queue (t_session t) = []" and "spawn_queue S = [] \<Longrightarrow> t_spawn t = sc"
  using assms by (auto simp: driver_turn_def bind_eq_Some_conv Let_def case_prod_beta)

lemma driver_no_request:
  assumes "run_session_driver E i h = Some h'" and "objs h i = Some S" and "spawn_queue S = []"
  shows "spawn_cells h' = spawn_cells h \<and> (\<exists>S'. objs h' i = Some S' \<and> spawn_queue S' = [])"
proof -
  obtain ph where ph: "drivers h i = Some ph" using assms(1,2) by (auto simp: run_session_driver_def bind_eq_Some_conv)
  show ?thesis
    using assms ph driver_turn_queue [where S = S]
    by (cases ph) (auto simp: run_session_driver_def driver_iterate_def driver_start_def driver_shutdown_def driver_wake_def Let_def
        case_prod_beta split: if_splits)
qed

lemma stage_step:
  assumes "spawn_queue S \<noteq> []" and "\<not> shutdown S"
    and "driver_turn (e_world E) (e_dup3 E) (e_run E) S (shared h0) (spawn_cells h0) (wait_cells h0) = Some t"
    and "t_spawn t cell = Some vpid" and "stage h0 i S cell vpid m h"
  shows "stage h0 i S cell vpid (m - 1) (lockstep E i h)"
proof -
  consider "m = 0" | "m = 1" | "m = 2" using assms(5) by (force simp: stage_def split: if_splits)
  then show ?thesis
  proof cases
    case 1
    then obtain S' where "spawn_cells h cell = Some vpid" "objs h i = Some S'" "spawn_queue S' = []"
      using assms(5) by (auto simp: stage_def)
    then show ?thesis
      using driver_no_request [of E i h _ S'] 1 by (cases "run_session_driver E i h") (auto simp: stage_def lockstep_def)
  next
    case 2
    have "spawn_queue (t_session t) = []" using driver_turn_queue(1) [OF assms(3)] .
    then show ?thesis
      using assms(2-5) 2 by (simp add: stage_def lockstep_def run_session_driver_def driver_iterate_def)
  next
    case 3
    then show ?thesis
      using assms(1,5) by (simp add: stage_def lockstep_def run_session_driver_def driver_decide_def has_work_def)
  qed
qed

lemma stage_steps:
  assumes "\<And>m h. stage h0 i S cell vpid m h \<Longrightarrow> stage h0 i S cell vpid (m - 1) (lockstep E i h)" and "stage h0 i S cell vpid m h"
  shows "stage h0 i S cell vpid (m - n) ((lockstep E i ^^ n) h)"
proof (induction n)
  case (Suc n)
  then show ?case using assms(1) [OF Suc] by simp
qed (simp add: assms(2))

lemma await_granted:
  assumes "\<And>m h. stage h0 i S cell vpid m h \<Longrightarrow> stage h0 i S cell vpid (m - 1) (lockstep E i h)"
    and "req_result req = cell" and "free (k + j)" and "j < n" and "stage h0 i S cell vpid 0 h"
  shows "\<exists>h'. create_run (driver_only E i d) free sid req n k (CAwait a) h = (CDone vpid, h')"
  using assms(3-)
proof (induction j arbitrary: k n h)
  case 0
  obtain n' where n: "n = Suc n'" using 0 by (cases n) auto
  have "stage h0 i S cell vpid 0 (driver_only E i d k h)"
    using stage_steps [OF assms(1) 0(3), of "d k"] by (simp add: driver_only_def)
  then have "spawn_cells (driver_only E i d k h) cell = Some vpid" by (simp add: stage_def)
  then show ?case using 0 assms(2) by (simp add: n)
next
  case (Suc j)
  obtain n' where n: "n = Suc n'" using Suc.prems by (cases n) auto
  have st: "stage h0 i S cell vpid 0 (driver_only E i d k h)"
    using stage_steps [OF assms(1) Suc.prems(3), of "d k"] by (simp add: driver_only_def)
  then have "spawn_cells (driver_only E i d k h) cell = Some vpid" by (simp add: stage_def)
  then show ?case using Suc.IH [of "Suc k" n', OF _ _ st] Suc.prems assms(2) by (cases "free k") (simp_all add: n)
qed

lemma await_served:
  assumes "\<And>m h. stage h0 i S cell vpid m h \<Longrightarrow> stage h0 i S cell vpid (m - 1) (lockstep E i h)"
    and "req_result req = cell" and "spawn_cells h0 cell = None" and "every B free"
    and "stage h0 i S cell vpid m h" and "m \<le> sum d {k..<k + T}" and "a + T \<le> 1000" and "T + Suc B \<le> n"
  shows "\<exists>h'. create_run (driver_only E i d) free sid req n k (CAwait a) h = (CDone vpid, h')"
  using assms(5-)
proof (induction T arbitrary: k m h a n)
  case 0
  then have st: "stage h0 i S cell vpid 0 h" by simp
  obtain j where "j \<le> B" "free (k + j)" using everyD [OF assms(4)] by blast
  then show ?case using await_granted [OF assms(1,2) _ _ st, of free k j n d sid a] 0 by simp
next
  case (Suc T)
  obtain n' where n: "n = Suc n'" using Suc.prems by (cases n) auto
  let ?h = "driver_only E i d k h" and ?m = "m - d k"
  have st: "stage h0 i S cell vpid ?m ?h"
    using stage_steps [OF assms(1) Suc.prems(1), of "d k"] by (simp add: driver_only_def)
  have "sum d {k..<k + Suc T} = d k + sum d {Suc k..<Suc k + T}" by (simp add: sum.atLeast_Suc_lessThan)
  then have m: "?m \<le> sum d {Suc k..<Suc k + T}" using Suc.prems(2) by linarith
  note IH = Suc.IH [OF st m]
  consider "\<not> free k" | "free k" "?m = 0" | "free k" "?m \<noteq> 0" by blast
  then show ?case
  proof cases
    case 1
    then show ?thesis using IH [of a n'] Suc.prems(3,4) by (simp add: n)
  next
    case 2
    then have "spawn_cells ?h cell = Some vpid" using st by (simp add: stage_def)
    then show ?thesis using 2 assms(2) by (simp add: n)
  next
    case 3
    then have "spawn_cells ?h cell = None" using st assms(3) by (simp add: stage_def)
    then show ?thesis using 3 assms(2) IH [of "Suc a" n'] Suc.prems(3,4) by (simp add: n)
  qed
qed

lemma every_sum:
  fixes d :: "nat \<Rightarrow> nat"
  assumes "every D (\<lambda>k. 0 < d k)"
  shows "2 \<le> sum d {k..<k + 2 * Suc D}"
proof -
  obtain i j where ij: "i \<le> D" "0 < d (k + i)" "j \<le> D" "0 < d (k + Suc D + j)" using everyD [OF assms] by metis
  have "sum d {k + i, k + Suc D + j} \<le> sum d {k..<k + 2 * Suc D}" by (intro sum_mono2) (use ij in auto)
  then show ?thesis using ij by auto
qed

lemma create_run_served:
  assumes "hm_get (SESSIONS h) sid = Some i" and "objs h i = Some S" and "drivers h i = Some Sleeping" and "\<not> shutdown S"
    and "spawn_queue S = []" and "spawn_cells h (req_result req) = None"
    and "driver_turn (e_world E) (e_dup3 E) (e_run E) (S\<lparr>spawn_queue := [req]\<rparr>) (shared h) (spawn_cells h) (wait_cells h) = Some t"
    and "t_spawn t (req_result req) = Some vpid"
    and "every B free" and "B < 100" and "every D (\<lambda>k. 0 < d k)" and "D < 500" and "5 * Suc B + 2 * Suc D \<le> n"
  shows "\<exists>h'. create_run (driver_only E i d) free sid req n 0 CLookup h = (CDone vpid, h')"
proof -
  let ?run = "create_run (driver_only E i d) free sid req"
  define h2 where "h2 = h\<lparr>objs := (objs h)(i := map_option (\<lambda>S. S\<lparr>spawn_queue := spawn_queue S @ [req]\<rparr>) (objs h i))\<rparr>"
  have h2: "objs h2 i = Some (S\<lparr>spawn_queue := [req]\<rparr>)" "drivers h2 i = Some Sleeping"
    using assms(2,3,5) by (simp_all add: h2_def)
  have idle: "driver_only E i d k g = g" if "objs g i \<noteq> None" "drivers g i = Some Sleeping" for k g
  proof -
    have "lockstep E i g = g" using that by (auto simp: lockstep_def run_session_driver_def)
    then have "(lockstep E i ^^ m) g = g" for m by (induction m) simp_all
    then show ?thesis by (simp add: driver_only_def)
  qed
  note still = idle [of h] idle [of h2]
  note adv = create_advance [where others = "driver_only E i d" and free = free and B = B and sid = sid and req = req]
  obtain l1 where l1: "l1 \<le> B" "free (0 + l1)" using everyD [OF assms(9), of 0] by auto
  obtain j1 where j1: "j1 \<le> B" "\<And>n. ?run (n + Suc j1) 0 CLookup h = ?run n (0 + Suc j1) (CTryLock i 0) h"
    using adv [of h CLookup "CTryLock i 0" h, OF still(1) _ _ _ l1(2,1)] assms(1-3) by (auto simp: create_over_def simp del: create_run.simps)
  define k1 where "k1 = 0 + Suc j1"
  obtain l2 where l2: "l2 \<le> B" "free (k1 + l2)" using everyD [OF assms(9), of k1] by auto
  obtain j2 where j2: "j2 \<le> B" "\<And>n. ?run (n + Suc j2) k1 (CTryLock i 0) h = ?run n (k1 + Suc j2) (CPush i) h"
    using create_locks [of "driver_only E i d" h free k1 l2 B 0 sid req i] still(1) assms(2,3,10) l2 by (auto simp del: create_run.simps)
  define k2 where "k2 = k1 + Suc j2"
  obtain l3 where l3: "l3 \<le> B" "free (k2 + l3)" using everyD [OF assms(9), of k2] by auto
  obtain j3 where j3: "j3 \<le> B" "\<And>n. ?run (n + Suc j3) k2 (CPush i) h = ?run n (k2 + Suc j3) (CNotify i) h2"
    using adv [of h "CPush i" "CNotify i" h2, OF still(1) _ _ _ l3(2,1)] assms(2,3) by (auto simp: create_over_def h2_def simp del: create_run.simps)
  define k3 where "k3 = k2 + Suc j3"
  obtain l4 where l4: "l4 \<le> B" "free (k3 + l4)" using everyD [OF assms(9), of k3] by auto
  obtain j4 where j4: "j4 \<le> B" "\<And>n. ?run (n + Suc j4) k3 (CNotify i) h2 = ?run n (k3 + Suc j4) (CAwait 0) (put_phase i Deciding h2)"
    using adv [of h2 "CNotify i" "CAwait 0" "put_phase i Deciding h2", OF still(2) _ _ _ l4(2,1)] h2
    by (auto simp: create_over_def notify_all_def simp del: create_run.simps)
  define n4 where "n4 = n - Suc j1 - Suc j2 - Suc j3 - Suc j4"
  have n: "n = n4 + Suc j4 + Suc j3 + Suc j2 + Suc j1" "2 * Suc D + Suc B \<le> n4"
    using assms(13) j1(1) j2(1) j3(1) j4(1) by (simp_all add: n4_def)
  have "?run n 0 CLookup h = ?run n4 (k3 + Suc j4) (CAwait 0) (put_phase i Deciding h2)"
    unfolding n(1) j1(2) k1_def [symmetric] j2(2) k2_def [symmetric] j3(2) k3_def [symmetric] j4(2) ..
  moreover have "stage h i (S\<lparr>spawn_queue := [req]\<rparr>) (req_result req) vpid 2 (put_phase i Deciding h2)"
    using h2(1) by (simp add: stage_def h2_def)
  moreover have "stage h i (S\<lparr>spawn_queue := [req]\<rparr>) (req_result req) vpid (m - 1) (lockstep E i g)"
    if "stage h i (S\<lparr>spawn_queue := [req]\<rparr>) (req_result req) vpid m g" for m g
    using stage_step [OF _ _ assms(7,8) that] assms(4) by simp
  moreover have "0 + 2 * Suc D \<le> 1000" using assms(12) by simp
  ultimately show ?thesis
    using await_served [OF _ refl assms(6,9) _ every_sum [OF assms(11)] _ n(2)] by metis
qed

text \<open>
  C7. Creating a process through the C interface works end to end, under these conditions: the
  session's driver sleeps with nothing queued, no other thread than this driver acts, every mutex
  the caller asks for is refused at most \<open>B < 100\<close> times in a row, and the driver makes a step at
  least in every 500 steps of the caller, at any speed otherwise. Then the caller's request wakes
  the driver, the driver starts the program in its next turn, and the call returns the id of the
  new process, or 0 when the program could not be started; the new process has the three
  descriptors of the request. (Without the conditions the call may return 0 although the program
  is started later, as it stops waiting after 1001 looks.)
\<close>

theorem create_process_returns_pid:
  assumes "hm_get (SESSIONS h) sid = Some i" and "objs h i = Some S" and "drivers h i = Some Sleeping" and "\<not> shutdown S"
    and "spawn_queue S = []"
    and "virtual_execve_via_entry (e_world E 0) (utf8_lossy path) (c_array_to_vec argv) (c_array_to_vec envp) (enter S (shared h)) = (r, v1)"
    and "r \<noteq> Panic"
    and "v2 = (case r of Ok vpid \<Rightarrow> with_fdw (create_table_with_fds vpid a b c) v1 | _ \<Rightarrow> v1)"
    and "step_from_driver_with_fd_swap (e_dup3 E) (saved_fds S) (e_run E) (vsys v2) = Some s2"
    and "every B free" and "B < 100" and "every D (\<lambda>k. 0 < d k)" and "D < 500" and "5 * Suc B + 2 * Suc D \<le> n"
  shows "(\<exists>h'. vproc_ffi_create_process n (driver_only E i d) free sid path argv envp a b c h =
      (CDone (case r of Ok vpid \<Rightarrow> vpid | _ \<Rightarrow> 0), h')) \<and>
    (\<forall>vpid. r = Ok vpid \<longrightarrow> vpid = next_pid (executor S) \<and> (\<exists>k. hm_get (vprocs (ex (vsys v2))) vpid = Some k \<and> state k = Ready) \<and>
      get_table vpid (fdw (vsys v2)) = Some (vt_new_with_fds a b c))"
proof -
  define req where "req = \<lparr>req_path = utf8_lossy path, req_argv = c_array_to_vec argv, req_envp = c_array_to_vec envp,
    stdin_fd = a, stdout_fd = b, stderr_fd = c, req_result = next_cell h\<rparr>"
  define h1 where "h1 = snd (fresh_cell h)"
  have h1: "hm_get (SESSIONS h1) sid = Some i" "objs h1 i = Some S" "drivers h1 i = Some Sleeping" "shared h1 = shared h"
    "spawn_cells h1 (req_result req) = None" using assms(1-3) by (simp_all add: h1_def req_def fresh_cell_def)
  let ?vpid = "case r of Ok vpid \<Rightarrow> vpid | _ \<Rightarrow> 0" and ?S = "S\<lparr>spawn_queue := [req]\<rparr>"
  have "serve_requests (e_world E) [req] (enter ?S (shared h)) (spawn_cells h1) = Some (v2, (spawn_cells h1)(next_cell h \<mapsto> ?vpid))"
    using assms(6-8) by (cases r) (simp_all add: req_def enter_def)
  moreover obtain ws wc where "check_waiters s2 (waiters ?S) (wait_cells h1) = (ws, wc)" by fastforce
  ultimately obtain t where "driver_turn (e_world E) (e_dup3 E) (e_run E) ?S (shared h1) (spawn_cells h1) (wait_cells h1) = Some t"
    "t_spawn t (req_result req) = Some ?vpid"
    using driver_turnI [of "e_world E" ?S "shared h1" "spawn_cells h1" v2 _ "e_dup3 E" "e_run E" s2 "wait_cells h1"] assms(9) h1(4)
    by (fastforce simp: req_def)
  then obtain h' where "create_run (driver_only E i d) free sid req n 0 CLookup h1 = (CDone ?vpid, h')"
    using create_run_served [OF h1(1-3) assms(4,5) h1(5) _ _ assms(10-14)] by blast
  moreover have "vpid = next_pid (executor S) \<and> (\<exists>k. hm_get (vprocs (ex (vsys v2))) vpid = Some k \<and> state k = Ready) \<and>
      get_table vpid (fdw (vsys v2)) = Some (vt_new_with_fds a b c)" if "r = Ok vpid" for vpid
    using via_entry_sys(2,5) [OF assms(6) [unfolded that]] assms(8) that by (simp add: get_table_create)
  ultimately show ?thesis
    by (auto simp: vproc_ffi_create_process_def Let_def fresh_cell_def h1_def req_def)
qed

text \<open>With a driver that makes two steps at every third step of the caller, and a mutex free at every second.\<close>

theorem create_process_returns_pid_witness:
  "\<exists>h'. vproc_ffi_create_process 100 (driver_only (env_with yielder) 0 (\<lambda>k. if k mod 3 = 0 then 2 else 0)) even 1
     [47, 98] None None 10 11 12 (host_with (session_new 1) Sleeping) = (CDone 1, h')"
proof -
  have "every 1 even" unfolding every_def by (metis even_add even_plus_one_iff le_numeral_extra(4) add_0_right zero_le)
  moreover have "\<exists>j \<le> 2. (k + j) mod 3 = 0" for k :: nat by presburger
  then have "every 2 (\<lambda>k. 0 < (if k mod 3 = 0 then 2 else 0 :: nat))" unfolding every_def by (metis (full_types) zero_less_numeral)
  ultimately have fair: "every 1 even" "every 2 (\<lambda>k. 0 < (if k mod 3 = 0 then 2 else 0 :: nat))" by blast+
  let ?S = "session_new 1" and ?E = "env_with yielder"
  let ?v = "enter ?S (vst_sample fd_world_init)"
  have ex: "executor ?S = executor_new" "next_pid executor_new = 1" by (simp_all add: session_new_def executor_new_def)
  have "BINARY_CACHE ?v = []" "\<not> exit_hooked ?v" "\<not> execve_hooked ?v"
    by (simp_all add: enter_def with_rt_def vst_sample_def)
  then obtain v1 where run: "virtual_execve_via_entry (world_sample free_cell) [47, 98] [] [] ?v = (Ok 1, v1)"
    using exec_runs [of "[]" ?v 1 free_cell] ex by auto
  let ?v2 = "with_fdw (create_table_with_fds 1 10 11 12) v1"
  have "idle_ok (vsys ?v)" using ex(1) by (intro idle_ok_init) simp
  then have "idle_ok (vsys v1)" using via_entry_keeps [OF run] ex by simp
  then have "idle_ok (vsys ?v2)" using idle_ok_cong [of "vsys ?v2" "vsys v1"] by simp
  then obtain s2 where "step_from_driver_with_fd_swap (e_dup3 ?E) (saved_fds ?S) yielder (vsys ?v2) = Some s2"
    using swap_total [OF yielder_ok(1), of _ "e_dup3 ?E"] by fastforce
  moreover have "utf8_lossy [47, 98] = [47, 98]" by (rule utf8_lossy_ascii) simp
  ultimately show ?thesis
    using create_process_returns_pid [of "host_with ?S Sleeping" 1 0 ?S ?E "[47, 98]" None None "Ok 1" v1 ?v2 10 11 12 s2
        1 even 2 "\<lambda>k. if k mod 3 = 0 then 2 else 0" 100] run fair
    by (simp add: c_array_to_vec_def session_new_def)
qed

section \<open>The calls return\<close>

text \<open>How many steps a call still makes at most, at the counters it can have.\<close>

fun create_rank :: "create_pc \<Rightarrow> nat" where
  "create_rank CLookup = 1104"
| "create_rank (CTryLock i n) = 1003 + (100 - n)"
| "create_rank (CPush i) = 1003"
| "create_rank (CNotify i) = 1002"
| "create_rank (CAwait n) = 1001 - n"
| "create_rank (CDone v) = 0"

fun create_counts :: "create_pc \<Rightarrow> bool" where
  "create_counts (CTryLock i n) = (n < 100)"
| "create_counts (CAwait n) = (n \<le> 1000)"
| "create_counts pc = True"

fun wait_rank :: "wait_pc \<Rightarrow> nat" where
  "wait_rank WLookup = 30004"
| "wait_rank (WCheck i) = 30003"
| "wait_rank (WRecheck i) = 30002"
| "wait_rank (WAwait n) = 30001 - n"
| "wait_rank (WDone c) = 0"

fun wait_counts :: "wait_pc \<Rightarrow> bool" where
  "wait_counts (WAwait n) = (n \<le> 30000)"
| "wait_counts pc = True"

definition wait_over :: "wait_pc \<Rightarrow> bool" where
  "wait_over pc \<longleftrightarrow> (\<exists>c. pc = WDone c)"

lemma create_step_rank:
  assumes "create_step free sid req pc h = (pc', h')" and "create_counts pc" and "\<not> create_over pc"
  shows "create_counts pc' \<and> (create_rank pc' < create_rank pc \<or> \<not> free \<and> pc' = pc)"
  using assms by (cases pc) (auto simp: create_over_def split: option.splits if_splits)

lemma wait_step_rank:
  assumes "wait_step free sid vpid cell pc h = (pc', h')" and "wait_counts pc" and "\<not> wait_over pc"
  shows "wait_counts pc' \<and> (wait_rank pc' < wait_rank pc \<or> \<not> free \<and> pc' = pc)"
  using assms by (cases pc) (auto simp: wait_over_def split: option.splits if_splits)

lemma wait_run_done [simp]: "wait_run others free sid vpid cell n k (WDone c) h = (WDone c, h)"
  by (cases n) simp_all

lemma wait_run_Suc:
  assumes "\<not> wait_over pc" and "wait_step (free k) sid vpid cell pc (others k h) = (pc', h')"
  shows "wait_run others free sid vpid cell (Suc n) k pc h = wait_run others free sid vpid cell n (Suc k) pc' h'"
  using assms by (cases pc) (simp_all add: wait_over_def)

interpretation creating: bounded_call "\<lambda>k pc h. create_step (free k) sid req pc (others k h)" "create_run others free sid req"
  create_over create_counts create_rank free for free sid req others
  by unfold_locales (auto simp: create_over_def intro: create_run_Suc dest: create_step_rank simp del: create_run.simps(2))

interpretation waiting: bounded_call "\<lambda>k pc h. wait_step (free k) sid vpid cell pc (others k h)" "wait_run others free sid vpid cell"
  wait_over wait_counts wait_rank free for free sid vpid cell others
  by unfold_locales (auto simp: wait_over_def intro: wait_run_Suc dest: wait_step_rank simp del: wait_run.simps(2))

text \<open>Calls that find the session in the table and then never get its mutex.\<close>

lemma create_gives_up:
  assumes "\<And>k. 0 < k \<Longrightarrow> \<not> free k" and "0 < k" and "a < 100"
  shows "create_over (fst (create_run others free sid req n k (CTryLock i a) h)) \<longleftrightarrow> 100 - a \<le> n"
    and "100 - a \<le> n \<Longrightarrow> fst (create_run others free sid req n k (CTryLock i a) h) = CDone 0"
proof -
  have "fst (create_run others free sid req n k (CTryLock i a) h) =
      (if 100 - a \<le> n then CDone 0 else CTryLock i (a + n))" using assms(2,3)
  proof (induction n arbitrary: k a h)
    case (Suc n)
    have "create_run others free sid req (Suc n) k (CTryLock i a) h =
        create_run others free sid req n (Suc k) (if Suc a < 100 then CTryLock i (Suc a) else CDone 0) (others k h)"
      using assms(1) [OF Suc.prems(1)] by simp
    then show ?case using Suc.IH [of "Suc k" "Suc a" "others k h"] Suc.prems(2) by (cases "Suc a < 100") auto
  qed simp
  then show "create_over (fst (create_run others free sid req n k (CTryLock i a) h)) \<longleftrightarrow> 100 - a \<le> n"
    and "100 - a \<le> n \<Longrightarrow> fst (create_run others free sid req n k (CTryLock i a) h) = CDone 0"
    by (simp_all add: create_over_def)
qed

lemma wait_stuck:
  assumes "\<And>k. 0 < k \<Longrightarrow> \<not> free k" and "0 < k"
  shows "fst (wait_run others free sid vpid cell n k (WCheck i) h) = WCheck i"
  using assms(2)
proof (induction n arbitrary: k h)
  case (Suc n)
  then show ?case using assms(1) [OF Suc.prems] by simp
qed simp

text \<open>
  C9. When the calls of the C interface return. If no mutex is refused to the caller more than \<open>B\<close>
  times in a row, then, whatever the other threads do otherwise and also when the driver never
  answers, creating a process returns within \<open>1104 (B + 1)\<close> steps of the caller and waiting for a
  process within \<open>30004 (B + 1)\<close>. A session's mutex that is never released, as while its driver runs
  a coroutine that does not yield, tells the two apart: creating a process gives up with 0
  after exactly a hundred attempts to lock it, but waiting for a process never returns.
\<close>

theorem session_calls_return:
  "(\<forall>B. every B free \<longrightarrow>
     (\<forall>n \<ge> 1104 * Suc B. \<exists>vpid h'. vproc_ffi_create_process n others free sid path argv envp i o' e h = (CDone vpid, h')) \<and>
     (\<forall>n \<ge> 30004 * Suc B. \<exists>code h'. vproc_ffi_run_until_exit n others free sid pid h = (WDone code, h'))) \<and>
   ((\<forall>k. free k = (k = 0)) \<and> hm_get (SESSIONS (others 0 (snd (fresh_cell h)))) sid = Some s \<longrightarrow>
     (\<forall>n. fst (vproc_ffi_create_process n others free sid path argv envp i o' e h) = CDone 0 \<longleftrightarrow> 101 \<le> n) \<and>
     (\<forall>n code. fst (vproc_ffi_run_until_exit n others free sid pid h) \<noteq> WDone code))"
proof (intro conjI allI impI)
  fix B n
  assume free: "every B free" and n: "1104 * Suc B \<le> n"
  have "create_over (fst (create_run others free sid req n 0 CLookup h1))" for req h1
    using creating.run_ends [of B free CLookup n] everyD [OF free] n by simp
  then show "\<exists>vpid h'. vproc_ffi_create_process n others free sid path argv envp i o' e h = (CDone vpid, h')"
    by (auto simp: vproc_ffi_create_process_def create_over_def Let_def split: prod.split) (metis surjective_pairing)
next
  fix B n
  assume free: "every B free" and n: "30004 * Suc B \<le> n"
  have "wait_over (fst (wait_run others free sid pid cell n 0 WLookup h1))" for cell h1
    using waiting.run_ends [of B free WLookup n] everyD [OF free] n by simp
  then show "\<exists>code h'. vproc_ffi_run_until_exit n others free sid pid h = (WDone code, h')"
    by (auto simp: vproc_ffi_run_until_exit_def wait_over_def split: prod.split) (metis surjective_pairing)
next
  fix n
  assume held: "(\<forall>k. free k = (k = 0)) \<and> hm_get (SESSIONS (others 0 (snd (fresh_cell h)))) sid = Some s"
  obtain cell h1 where h1: "fresh_cell h = (cell, h1)" by fastforce
  have "fst (create_run others free sid req n 0 CLookup h1) = CDone 0 \<longleftrightarrow> 101 \<le> n" for req
    using held h1 create_gives_up [where free = free and k = "Suc 0" and a = 0 and others = others and sid = sid and req = req and n = "n - 1"
        and i = s and h = "others 0 h1"]
    by (cases n) (auto simp: create_over_def)
  then show "fst (vproc_ffi_create_process n others free sid path argv envp i o' e h) = CDone 0 \<longleftrightarrow> 101 \<le> n"
    by (simp add: vproc_ffi_create_process_def h1)
next
  fix n code
  assume held: "(\<forall>k. free k = (k = 0)) \<and> hm_get (SESSIONS (others 0 (snd (fresh_cell h)))) sid = Some s"
  obtain cell h1 where h1: "fresh_cell h = (cell, h1)" by fastforce
  have "fst (wait_run others free sid pid cell n 0 WLookup h1) \<noteq> WDone code"
    using held h1 wait_stuck [where free = free and k = "Suc 0" and others = others and sid = sid and vpid = pid and cell = cell and n = "n - 1"
        and i = s and h = "others 0 h1"] by (cases n) auto
  then show "fst (vproc_ffi_run_until_exit n others free sid pid h) \<noteq> WDone code"
    by (simp add: vproc_ffi_run_until_exit_def h1)
qed

text \<open>
  With a mutex free at every second step, and with the session's mutex held after the lookup: the
  call gives up at its 101st step and not before.
\<close>

theorem session_calls_return_witness:
  "(\<exists>vpid h'. vproc_ffi_create_process 2208 (\<lambda>_ h. h) even 1 [47, 98] None None 10 11 12 (host_with (session_new 1) Sleeping) = (CDone vpid, h')) \<and>
   fst (vproc_ffi_create_process 101 (\<lambda>_ h. h) (\<lambda>k. k = 0) 1 [47, 98] None None 10 11 12 (host_with (session_new 1) Sleeping)) = CDone 0 \<and>
   fst (vproc_ffi_create_process 100 (\<lambda>_ h. h) (\<lambda>k. k = 0) 1 [47, 98] None None 10 11 12 (host_with (session_new 1) Sleeping)) \<noteq> CDone 0"
proof -
  have "every 1 even" unfolding every_def by (metis even_add even_plus_one_iff le_numeral_extra(4) add_0_right zero_le)
  then have "\<exists>vpid h'. vproc_ffi_create_process 2208 (\<lambda>_ h. h) even 1 [47, 98] None None 10 11 12 (host_with (session_new 1) Sleeping) = (CDone vpid, h')"
    using session_calls_return [where free = even and others = "\<lambda>_ h. h"] by (auto dest: spec [of _ 1] spec [of _ 2208])
  moreover have "hm_get (SESSIONS (snd (fresh_cell (host_with (session_new 1) Sleeping)))) 1 = Some 0"
    by (simp add: fresh_cell_def)
  ultimately show ?thesis
    using session_calls_return [where free = "\<lambda>k. k = 0" and others = "\<lambda>_ h. h" and sid = 1 and s = 0
        and h = "host_with (session_new 1) Sleeping"] by simp
qed

end
