(* ===== verification/Session_World.thy ===== *)
theory Session_World
  imports Session_Laws
begin

text \<open>
  All threads of a process that uses sessions, as a transition system: sessions are created
  and destroyed, their drivers make steps, and any number of calls that create a process or
  wait for one are under way. The invariant \<open>plant_ok\<close> says that every executor is in order
  and that no driver sleeps through a request or a waiter. The later sections state what the
  design gives away: \<open>forgotten\<close> describes a destroyed session whose driver stays asleep, a
  driver sleeps while its processes wait for input, and sessions share descriptor tables.
\<close>

section \<open>The transition system\<close>

record plant =
  p_host :: host
  p_creates :: "nat \<Rightarrow> (u32 \<times> SpawnRequest \<times> create_pc) option"
  p_waits :: "nat \<Rightarrow> (u32 \<times> u32 \<times> nat \<times> wait_pc) option"

text \<open>
  What the environment does: the coroutines use the runtime's operations and \<^verbatim>\<open>poll\<close> answers in place.
\<close>

definition env_ok :: "env \<Rightarrow> bool" where
  "env_ok E \<longleftrightarrow> run_ok (e_run E) \<and> (\<forall>pfs t. length (snd (l_poll (e_libc E) pfs t)) = length pfs)"

definition pid_room :: "nat \<Rightarrow> host \<Rightarrow> bool" where
  "pid_room i h \<longleftrightarrow> (\<forall>S. objs h i = Some S \<longrightarrow> unat (next_pid (executor S)) + length (spawn_queue S) < 2 ^ 32)"

inductive plant_step :: "plant \<Rightarrow> plant \<Rightarrow> bool" where
  create_session: "vproc_ffi_create_session True (p_host p) = Some (sid, h) \<Longrightarrow> plant_step p (p\<lparr>p_host := h\<rparr>)"
| destroy_session: "plant_step p (p\<lparr>p_host := vproc_ffi_destroy_session sid (p_host p)\<rparr>)"
| driver: "env_ok E \<Longrightarrow> pid_room i (p_host p) \<Longrightarrow> run_session_driver E i (p_host p) = Some h \<Longrightarrow>
    plant_step p (p\<lparr>p_host := h\<rparr>)"
| call_create: "p_creates p c = None \<Longrightarrow> fresh_cell (p_host p) = (cell, h) \<Longrightarrow> req_result req = cell \<Longrightarrow>
    plant_step p (p\<lparr>p_host := h, p_creates := (p_creates p)(c \<mapsto> (sid, req, CLookup))\<rparr>)"
| step_create: "p_creates p c = Some (sid, req, pc) \<Longrightarrow> create_step free sid req pc (p_host p) = (pc', h) \<Longrightarrow>
    plant_step p (p\<lparr>p_host := h, p_creates := (p_creates p)(c \<mapsto> (sid, req, pc'))\<rparr>)"
| call_wait: "p_waits p c = None \<Longrightarrow> fresh_cell (p_host p) = (cell, h) \<Longrightarrow>
    plant_step p (p\<lparr>p_host := h, p_waits := (p_waits p)(c \<mapsto> (sid, vpid, cell, WLookup))\<rparr>)"
| step_wait: "p_waits p c = Some (sid, vpid, cell, pc) \<Longrightarrow> wait_step free sid vpid cell pc (p_host p) = (pc', h) \<Longrightarrow>
    plant_step p (p\<lparr>p_host := h, p_waits := (p_waits p)(c \<mapsto> (sid, vpid, cell, pc'))\<rparr>)"

text \<open>A condition variable may also wake a thread for no reason.\<close>

inductive plant_move :: "plant \<Rightarrow> plant \<Rightarrow> bool" where
  step: "plant_step p p' \<Longrightarrow> plant_move p p'"
| spurious: "drivers (p_host p) i = Some Sleeping \<Longrightarrow> plant_move p (p\<lparr>p_host := put_phase i Deciding (p_host p)\<rparr>)"

definition plant_init :: "plant \<Rightarrow> bool" where
  "plant_init p \<longleftrightarrow> objs (p_host p) = Map.empty \<and> drivers (p_host p) = Map.empty \<and> SESSIONS (p_host p) = [] \<and>
     p_creates p = Map.empty \<and> p_waits p = Map.empty"

section \<open>The invariant\<close>

definition exec_idle :: "Executor \<Rightarrow> bool" where
  "exec_idle e \<longleftrightarrow> exec_ok e \<and> accounted e \<and> current e = None"

lemma exec_idle_iff: "exec_idle (ex s) = idle_ok s"
  by (auto simp: exec_idle_def idle_ok_def sched_ok_def)

text \<open>The descriptors a driver polls are those its executor waits for.\<close>

definition io_waits :: "Executor \<Rightarrow> pollfd list \<times> VPid list" where
  "io_waits e = collect_io_waits \<lparr>ex_set = True, ex = e, mco_running = None, fdw = fd_world_init, trace = []\<rparr>"

lemma io_waits_ex: "collect_io_waits s = io_waits (ex s)"
  by (simp add: io_waits_def collect_io_waits_def)

definition notifying :: "plant \<Rightarrow> nat \<Rightarrow> bool" where
  "notifying p i \<longleftrightarrow> (\<exists>c sid req. p_creates p c = Some (sid, req, CNotify i))"

text \<open>What holds of a session object in a phase of its driver.\<close>

fun phase_ok :: "bool \<Rightarrow> Session \<Rightarrow> phase \<Rightarrow> bool" where
  "phase_ok notif S Sleeping \<longleftrightarrow> waiters S = [] \<and> \<not> has_ready (executor S) \<and> (spawn_queue S = [] \<or> notif)"
| "phase_ok notif S (Polling pfs pids) \<longleftrightarrow> (pfs, pids) = io_waits (executor S)"
| "phase_ok notif S ph \<longleftrightarrow> True"

definition session_ok :: "plant \<Rightarrow> nat \<Rightarrow> bool" where
  "session_ok p i \<longleftrightarrow> (case objs (p_host p) i of
     None \<Rightarrow> drivers (p_host p) i = None
   | Some S \<Rightarrow> i < next_obj (p_host p) \<and> exec_idle (executor S) \<and>
       (\<exists>ph. drivers (p_host p) i = Some ph \<and> phase_ok (notifying p i) S ph))"

definition plant_ok :: "plant \<Rightarrow> bool" where
  "plant_ok p \<longleftrightarrow> (\<forall>i. session_ok p i)"

lemma plant_ok_init: "plant_init p \<Longrightarrow> plant_ok p"
  by (simp add: plant_ok_def plant_init_def session_ok_def)

lemma serve_idle:
  assumes "serve_requests W reqs v cells = Some (v', cells')" and "idle_ok (vsys v)"
    and "unat (next_pid (ex (vsys v))) + length reqs < 2 ^ 32"
  shows "idle_ok (vsys v')"
  using assms
proof (induction reqs arbitrary: W v cells)
  case (Cons req reqs)
  obtain vpid v1 where "serve_requests (\<lambda>i. W (Suc i)) reqs v1 (cells(req_result req \<mapsto> vpid)) = Some (v', cells')"
    "idle_ok (vsys v1)" "unat (next_pid (ex (vsys v1))) \<le> Suc (unat (next_pid (ex (vsys v))))"
    using serve_one [OF Cons.prems(1,2)] Cons.prems(3) by (metis length_Cons)
  then show ?case using Cons.IH Cons.prems(3) by (metis (no_types, lifting) add_Suc_right add_Suc add_le_cancel_right le_less_trans length_Cons)
qed simp

lemma enter_idle: "exec_idle (executor S) \<Longrightarrow> idle_ok (vsys (enter S v))"
  using exec_idle_iff [of "vsys (enter S v)"] by simp

lemma driver_turn_ok:
  assumes "driver_turn W ok3 run S v sc wc = Some t" and "run_ok run" and "exec_idle (executor S)"
    and "unat (next_pid (executor S)) + length (spawn_queue S) < 2 ^ 32"
  shows "exec_idle (executor (t_session t))" and "phase_ok b (t_session t) (t_phase t)"
proof -
  obtain v1 s2 where sv: "serve_requests W (spawn_queue S) (enter S v) sc = Some (v1, t_spawn t)"
    and st: "step_from_driver_with_fd_swap ok3 (saved_fds S) run (vsys v1) = Some s2"
    and S: "t_session t = S\<lparr>executor := ex (reap_done_coroutines s2), spawn_queue := [], waiters := waiters (t_session t)\<rparr>"
    and ph: "t_phase t = Deciding \<or> (\<exists>pfs pids. t_phase t = Polling pfs pids \<and> collect_io_waits (reap_done_coroutines s2) = (pfs, pids))"
    using driver_turnE [OF assms(1)] by metis
  have e: "executor (t_session t) = ex (reap_done_coroutines s2)" by (subst S) simp
  have "idle_ok (vsys v1)" using serve_idle [OF sv enter_idle [OF assms(3)]] assms(4) by simp
  then have "idle_ok (reap_done_coroutines s2)" using swap_keeps [OF assms(2) _ st] reap_idle by blast
  then show "exec_idle (executor (t_session t))" using e exec_idle_iff by simp
  show "phase_ok b (t_session t) (t_phase t)" using ph e io_waits_ex [of "reap_done_coroutines s2"] by auto
qed

lemma driver_wake_ok:
  assumes "driver_wake L now pfs pids S v = Some (S', v')" and "exec_idle (executor S)" and "(pfs, pids) = io_waits (executor S)"
    and "length (snd (l_poll L pfs 50)) = length pfs"
  shows "exec_idle (executor S')"
proof -
  let ?s = "vsys (enter S v)"
  have idle: "idle_ok ?s" using enter_idle [OF assms(2)] .
  have col: "collect_io_waits ?s = (pfs, pids)" using assms(3) io_waits_ex [of ?s] by simp
  obtain ready ans where p: "l_poll L pfs 50 = (ready, ans)" by fastforce
  show ?thesis
  proof (cases "0 \<le> sint ready")
    case True
    then obtain s' where s': "wake_io_ready ans pids now ?s = Some s'" "S' = S\<lparr>executor := ex s'\<rparr>"
      using assms(1) p by (auto simp: driver_wake_def Let_def)
    have "sched_step ?s s'"
      using idle s'(1) col assms(4) p by (intro sched_step.poll [of _ ans now]) (auto simp: idle_ok_def)
    then show ?thesis using sched_step_keeps idle s'(2) exec_idle_iff by auto
  next
    case False
    then show ?thesis using assms(1,2) p by (simp add: driver_wake_def Let_def)
  qed
qed

lemma driver_shutdown_ok: "exec_idle (executor S) \<Longrightarrow> exec_idle (executor (fst (driver_shutdown S v)))"
  using reap_idle [OF enter_idle [of S v]] exec_idle_iff [of "reap_done_coroutines (vsys (enter S v))"]
  by (simp add: driver_shutdown_def Let_def)

text \<open>A step of a driver changes its own session object and its own phase.\<close>

lemma driver_keeps:
  assumes "env_ok E" and "pid_room i h" and "run_session_driver E i h = Some h'" and "objs h i = Some S" and "drivers h i = Some ph"
    and "exec_idle (executor S)" and "phase_ok b S ph"
  shows "\<exists>S' ph'. objs h' = (objs h)(i \<mapsto> S') \<and> drivers h' = (drivers h)(i \<mapsto> ph') \<and> next_obj h' = next_obj h \<and>
    exec_idle (executor S') \<and> phase_ok b S' ph'"
proof (cases ph)
  case Starting
  then show ?thesis using assms
    by (intro exI [of _ "driver_start (l_dup (e_libc E)) S"] exI [of _ Iterate])
      (auto simp: run_session_driver_def driver_start_def Let_def)
next
  case Iterate
  note it = assms(3) [unfolded run_session_driver_def]
  show ?thesis
  proof (cases "shutdown S")
    case True
    then show ?thesis using it assms(4,5) Iterate driver_shutdown_ok [OF assms(6), of "shared h"]
      by (intro exI [of _ "fst (driver_shutdown S (shared h))"] exI [of _ Ended])
        (auto simp: driver_iterate_def case_prod_beta)
  next
    case False
    then obtain t where t: "driver_turn (e_world E) (e_dup3 E) (e_run E) S (shared h) (spawn_cells h) (wait_cells h) = Some t"
      "h' = put_phase i (t_phase t) (put_session i (t_session t)
        (h\<lparr>shared := t_shared t, spawn_cells := t_spawn t, wait_cells := t_wait t\<rparr>))"
      using it assms(4,5) Iterate by (auto simp: driver_iterate_def)
    then show ?thesis using driver_turn_ok [OF t(1) _ assms(6)] assms(1,2,4)
      by (intro exI [of _ "t_session t"] exI [of _ "t_phase t"]) (auto simp: env_ok_def pid_room_def)
  qed
next
  case (Polling pfs pids)
  then obtain S' v where w: "driver_wake (e_libc E) (e_now E) pfs pids S (shared h) = Some (S', v)"
    "h' = put_phase i Deciding (put_session i S' (h\<lparr>shared := v\<rparr>))"
    using assms(3-5) by (auto simp: run_session_driver_def)
  then show ?thesis using driver_wake_ok [OF w(1) assms(6)] assms(1,7) Polling
    by (intro exI [of _ S'] exI [of _ Deciding]) (auto simp: env_ok_def)
next
  case Deciding
  then show ?thesis using assms
    by (intro exI [of _ S] exI [of _ "driver_decide S"])
      (auto simp: run_session_driver_def driver_decide_def has_work_def fun_upd_idem)
next
  case Sleeping
  then show ?thesis using assms by (intro exI [of _ S] exI [of _ ph]) (auto simp: run_session_driver_def fun_upd_idem)
next
  case Ended
  then show ?thesis using assms by (intro exI [of _ S] exI [of _ ph]) (auto simp: run_session_driver_def fun_upd_idem)
qed

lemma phase_ok_simps:
  "phase_ok b S ph \<Longrightarrow> b \<longrightarrow> b' \<Longrightarrow> phase_ok b' S ph"
  "phase_ok b S ph \<Longrightarrow> phase_ok True (S\<lparr>spawn_queue := q\<rparr>) ph"
  "phase_ok b S ph \<Longrightarrow> ph \<noteq> Sleeping \<Longrightarrow> phase_ok b' S ph"
  "phase_ok b S ph \<Longrightarrow> ph \<noteq> Sleeping \<Longrightarrow> phase_ok b (S\<lparr>waiters := ws\<rparr>) ph"
  "phase_ok b S ph \<Longrightarrow> phase_ok b (S\<lparr>shutdown := d\<rparr>) ph"
  by (cases ph; auto)+

lemma session_ok_mono:
  assumes "session_ok p i" and "objs (p_host p') i = objs (p_host p) i" and "drivers (p_host p') i = drivers (p_host p) i"
    and "next_obj (p_host p) \<le> next_obj (p_host p')" and "notifying p i \<longrightarrow> notifying p' i"
  shows "session_ok p' i"
  using assms phase_ok_simps(1) by (fastforce simp: session_ok_def split: option.splits)

lemma notifying_upd:
  assumes "\<forall>sid req. p_creates p c \<noteq> Some (sid, req, CNotify i)"
  shows "notifying p i \<longrightarrow> notifying (p\<lparr>p_host := h, p_creates := (p_creates p)(c \<mapsto> x)\<rparr>) i"
proof
  assume "notifying p i"
  then obtain d e r where d: "p_creates p d = Some (e, r, CNotify i)" by (auto simp: notifying_def)
  then have "d \<noteq> c" using assms by auto
  then show "notifying (p\<lparr>p_host := h, p_creates := (p_creates p)(c \<mapsto> x)\<rparr>) i"
    using d by (auto simp: notifying_def)
qed

lemma notify_all_sel [simp]: "objs (notify_all i h) = objs h" "next_obj (notify_all i h) = next_obj h"
  "SESSIONS (notify_all i h) = SESSIONS h"
  by (simp_all add: notify_all_def)

lemma drivers_notify: "drivers (notify_all i h) j = (if j = i \<and> drivers h i = Some Sleeping then Some Deciding else drivers h j)"
  by (simp add: notify_all_def)

text \<open>A call that waits for a mutex changes nothing.\<close>

lemma waiting_call_keeps:
  assumes "session_ok p j" and "p_creates p c = Some x"
  shows "session_ok (p\<lparr>p_host := p_host p, p_creates := (p_creates p)(c \<mapsto> x)\<rparr>) j"
  using assms by (simp add: fun_upd_idem)

lemma step_create_keeps:
  assumes "plant_ok p" and "p_creates p c = Some (sid, req, pc)" and "create_step free sid req pc (p_host p) = (pc', h)"
  shows "session_ok (p\<lparr>p_host := h, p_creates := (p_creates p)(c \<mapsto> (sid, req, pc'))\<rparr>) j"
    (is "session_ok ?p j")
proof -
  have ok: "session_ok p j" using assms(1) by (simp add: plant_ok_def)
  consider (push) i where "pc = CPush i" | (notify) i where "pc = CNotify i" | (rest) "\<forall>i. pc \<noteq> CPush i \<and> pc \<noteq> CNotify i"
    by blast
  then show ?thesis
  proof cases
    case push
    show ?thesis
    proof (cases free)
      case blocked: False
      then show ?thesis using push assms(2,3) waiting_call_keeps [OF ok] by simp
    next
      case True
      then have st: "pc' = CNotify i" "h = (p_host p)\<lparr>objs := (objs (p_host p))(i := map_option (\<lambda>S. S\<lparr>spawn_queue := spawn_queue S @ [req]\<rparr>)
        (objs (p_host p) i))\<rparr>" using assms(3) push by auto
      show ?thesis
      proof (cases "j = i")
        case True
        have "notifying ?p i" using st by (auto simp: notifying_def)
        then show ?thesis using ok True st by (auto simp: session_ok_def intro: phase_ok_simps(2) split: option.splits)
      next
        case False
        then show ?thesis using notifying_upd [of p c j] assms(2) push st by (intro session_ok_mono [OF ok]) auto
      qed
    qed
  next
    case notify
    show ?thesis
    proof (cases free)
      case blocked: False
      then show ?thesis using notify assms(2,3) waiting_call_keeps [OF ok] by simp
    next
      case True
      then have st: "pc' = CAwait 0" "h = notify_all i (p_host p)" using assms(3) notify by auto
      show ?thesis
      proof (cases "j = i \<and> drivers (p_host p) i = Some Sleeping")
        case True
        then show ?thesis using ok st by (auto simp: session_ok_def drivers_notify split: option.splits)
      next
        case False
        then show ?thesis
          using st ok notifying_upd [of p c j] assms(2) notify session_ok_mono [OF ok, of ?p]
          by (cases "j = i") (auto simp: session_ok_def drivers_notify intro: phase_ok_simps(3) split: option.splits)
      qed
    qed
  next
    case rest
    then have "h = p_host p" using assms(3) by (cases pc) (auto split: option.splits if_splits)
    moreover have "notifying p j \<longrightarrow> notifying ?p j" using assms(2) rest by (intro notifying_upd) simp
    ultimately show ?thesis by (intro session_ok_mono [OF ok]) simp_all
  qed
qed

lemma step_wait_keeps:
  assumes "plant_ok p" and "wait_step free sid vpid cell pc (p_host p) = (pc', h)"
  shows "session_ok (p\<lparr>p_host := h, p_waits := w\<rparr>) j" (is "session_ok ?p j")
proof -
  have ok: "session_ok p j" using assms(1) by (simp add: plant_ok_def)
  have notif: "notifying ?p j = notifying p j" by (simp add: notifying_def)
  show ?thesis
  proof (cases "h = p_host p")
    case True
    then show ?thesis using notif by (intro session_ok_mono [OF ok]) simp_all
  next
    case False
    then obtain i where h: "h = notify_all i (push_waiter i \<lparr>wait_vpid = vpid, wait_result = cell\<rparr> (p_host p))"
      using assms(2) by (cases pc) (auto split: option.splits if_splits)
    show ?thesis
    proof (cases "j = i")
      case True
      then show ?thesis using ok h notif
        by (auto simp: session_ok_def drivers_notify push_waiter_def intro: phase_ok_simps(4) split: option.splits)
    next
      case False
      then show ?thesis using h notif by (intro session_ok_mono [OF ok]) (simp_all add: drivers_notify push_waiter_def)
    qed
  qed
qed

lemma create_session_keeps:
  assumes "plant_ok p" and "vproc_ffi_create_session True (p_host p) = Some (sid, h)"
  shows "session_ok (p\<lparr>p_host := h\<rparr>) j" (is "session_ok ?p j")
proof -
  have ok: "session_ok p j" using assms(1) by (simp add: plant_ok_def)
  have h: "objs h = (objs (p_host p))(next_obj (p_host p) \<mapsto> session_new sid)" "next_obj h = Suc (next_obj (p_host p))"
    "drivers h = (drivers (p_host p))(next_obj (p_host p) \<mapsto> Starting)"
    using assms(2) by (auto simp: vproc_ffi_create_session_def Let_def put_phase_def put_session_def)
  have new: "exec_idle executor_new" using idle_ok_init [of sys_init] exec_idle_iff [of sys_init] by (simp add: sys_init_def)
  show ?thesis
  proof (cases "j = next_obj (p_host p)")
    case True
    then show ?thesis using h new by (simp add: session_ok_def session_new_def)
  next
    case False
    then show ?thesis using h by (intro session_ok_mono [OF ok]) (simp_all add: notifying_def)
  qed
qed

lemma plant_step_keeps:
  assumes "plant_step p p'" and "plant_ok p"
  shows "plant_ok p'"
  using assms
proof (induction rule: plant_step.induct)
  case (create_session p sid h)
  then show ?case using create_session_keeps by (simp add: plant_ok_def)
next
  case (destroy_session p sid)
  have "session_ok (p\<lparr>p_host := vproc_ffi_destroy_session sid (p_host p)\<rparr>) j" if "session_ok p j" for j
    using that phase_ok_simps(5)
    by (auto simp: session_ok_def vproc_ffi_destroy_session_def notifying_def Let_def split: option.splits)
  then show ?case using destroy_session by (simp add: plant_ok_def)
next
  case (driver E i p h)
  then obtain S ph where S: "objs (p_host p) i = Some S" "drivers (p_host p) i = Some ph" "exec_idle (executor S)"
    "phase_ok (notifying p i) S ph" "i < next_obj (p_host p)"
    by (auto simp: plant_ok_def session_ok_def run_session_driver_def bind_eq_Some_conv split: option.splits)
      (metis option.distinct(1) option.inject)
  obtain S' ph' where h: "objs h = (objs (p_host p))(i \<mapsto> S')" "drivers h = (drivers (p_host p))(i \<mapsto> ph')"
    "next_obj h = next_obj (p_host p)" "exec_idle (executor S')" "phase_ok (notifying p i) S' ph'"
    using driver_keeps [OF driver.hyps S(1-4)] by blast
  have "session_ok (p\<lparr>p_host := h\<rparr>) j" for j
  proof (cases "j = i")
    case True
    then show ?thesis using h S(5) by (simp add: session_ok_def notifying_def)
  next
    case False
    have "session_ok p j" using driver.prems by (simp add: plant_ok_def)
    then show ?thesis by (rule session_ok_mono) (use h False in \<open>simp_all add: notifying_def\<close>)
  qed
  then show ?case by (simp add: plant_ok_def)
next
  case (call_create p c cell h req sid)
  have "session_ok (p\<lparr>p_host := h, p_creates := (p_creates p)(c \<mapsto> (sid, req, CLookup))\<rparr>) j" if "session_ok p j" for j
    using call_create.hyps notifying_upd [of p c j] by (intro session_ok_mono [OF that]) (auto simp: fresh_cell_def)
  then show ?case using call_create.prems by (simp add: plant_ok_def)
next
  case (call_wait p c cell h sid vpid)
  have "session_ok (p\<lparr>p_host := h, p_waits := (p_waits p)(c \<mapsto> (sid, vpid, cell, WLookup))\<rparr>) j" if "session_ok p j" for j
    using call_wait.hyps by (intro session_ok_mono [OF that]) (auto simp: fresh_cell_def notifying_def)
  then show ?case using call_wait.prems by (simp add: plant_ok_def)
qed (simp_all add: plant_ok_def [of "_\<lparr>p_host := _, p_creates := _\<rparr>"] plant_ok_def [of "_\<lparr>p_host := _, p_waits := _\<rparr>"]
    step_create_keeps step_wait_keeps)

lemma plant_move_keeps:
  assumes "plant_move p p'" and "plant_ok p"
  shows "plant_ok p'"
  using assms
proof (induction rule: plant_move.induct)
  case (spurious p i)
  have "session_ok (p\<lparr>p_host := put_phase i Deciding (p_host p)\<rparr>) j" if "session_ok p j" for j
    using that spurious.hyps by (auto simp: session_ok_def notifying_def split: option.splits)
  then show ?case using spurious.prems by (simp add: plant_ok_def)
qed (rule plant_step_keeps)

interpretation sessions: transition_system plant_init plant_move plant_ok
  by unfold_locales (auto intro: plant_ok_init plant_move_keeps)

text \<open>
  C6. No driver sleeps through work: in every state that any interleaving of the threads
  reaches, spurious wakeups included, a driver that sleeps has no waiter to tell and no
  process to run, and if a request is in its queue then a thread that put one there has its
  notification still to make; and the executor of every session is in order, with process
  ids below the next one, an acyclic process tree and every live process queued or waiting.
\<close>

theorem no_lost_wakeup:
  assumes "plant_init p\<^sub>0" and "plant_move\<^sup>*\<^sup>* p\<^sub>0 p" and "objs (p_host p) i = Some S"
  shows "exec_ok (executor S) \<and> accounted (executor S) \<and> current (executor S) = None \<and>
    (drivers (p_host p) i = Some Sleeping \<longrightarrow> waiters S = [] \<and> \<not> has_ready (executor S) \<and>
       (spawn_queue S \<noteq> [] \<longrightarrow> (\<exists>c sid req. p_creates p c = Some (sid, req, CNotify i))))"
proof -
  have "session_ok p i" using sessions.reachable_inv [OF assms(1,2)] by (simp add: plant_ok_def)
  then show ?thesis using assms(3) by (auto simp: session_ok_def exec_idle_def notifying_def)
qed

definition host_empty :: host where
  "host_empty = \<lparr>SESSIONS = [], NEXT_SESSION_ID = 1, DEFAULT_SESSION = None, objs = Map.empty, drivers = Map.empty,
     next_obj = 0, spawn_cells = Map.empty, wait_cells = Map.empty, next_cell = 0, shared = vst_sample fd_world_init\<rparr>"

definition plant_empty :: plant where
  "plant_empty = \<lparr>p_host = host_empty, p_creates = Map.empty, p_waits = Map.empty\<rparr>"

theorem no_lost_wakeup_witness:
  "\<exists>h. vproc_ffi_create_session True host_empty = Some (1, h) \<and> objs h 0 = Some (session_new 1) \<and>
     exec_ok (executor (session_new 1)) \<and> accounted (executor (session_new 1))"
proof -
  obtain h where h: "vproc_ffi_create_session True host_empty = Some (1, h)" "objs h 0 = Some (session_new 1)"
    by (simp add: vproc_ffi_create_session_def host_empty_def put_session_def put_phase_def Let_def)
  have "plant_step plant_empty (plant_empty\<lparr>p_host := h\<rparr>)"
    using h(1) by (intro plant_step.create_session) (simp add: plant_empty_def)
  then have "plant_move\<^sup>*\<^sup>* plant_empty (plant_empty\<lparr>p_host := h\<rparr>)" using plant_move.step by blast
  moreover have "plant_init plant_empty" by (simp add: plant_init_def plant_empty_def host_empty_def)
  ultimately show ?thesis using no_lost_wakeup [of plant_empty "plant_empty\<lparr>p_host := h\<rparr>" 0 "session_new 1"] h by auto
qed

section \<open>Destroyed sessions\<close>

text \<open>No thread can reach the session object any more, and its driver sleeps.\<close>

fun create_holds :: "nat \<Rightarrow> create_pc \<Rightarrow> bool" where
  "create_holds i (CTryLock j n) = (j = i)"
| "create_holds i (CPush j) = (j = i)"
| "create_holds i (CNotify j) = (j = i)"
| "create_holds i pc = False"

fun wait_holds :: "nat \<Rightarrow> wait_pc \<Rightarrow> bool" where
  "wait_holds i (WCheck j) = (j = i)"
| "wait_holds i (WRecheck j) = (j = i)"
| "wait_holds i pc = False"

definition unheld :: "nat \<Rightarrow> plant \<Rightarrow> bool" where
  "unheld i p \<longleftrightarrow> (\<forall>c sid req pc. p_creates p c = Some (sid, req, pc) \<longrightarrow> \<not> create_holds i pc) \<and>
     (\<forall>c sid vpid cell pc. p_waits p c = Some (sid, vpid, cell, pc) \<longrightarrow> \<not> wait_holds i pc)"

definition forgotten :: "nat \<Rightarrow> plant \<Rightarrow> bool" where
  "forgotten i p \<longleftrightarrow> drivers (p_host p) i = Some Sleeping \<and> i < next_obj (p_host p) \<and>
     (\<forall>sid. hm_get (SESSIONS (p_host p)) sid \<noteq> Some i) \<and> unheld i p"

lemma driver_frame:
  assumes "run_session_driver E j h = Some h'"
  shows "SESSIONS h' = SESSIONS h" and "next_obj h' = next_obj h" and "drivers h i = Some Sleeping \<Longrightarrow> drivers h' i = Some Sleeping"
proof -
  obtain S ph where S: "objs h j = Some S" "drivers h j = Some ph" using assms by (auto simp: run_session_driver_def bind_eq_Some_conv)
  then show "SESSIONS h' = SESSIONS h" "next_obj h' = next_obj h" "drivers h i = Some Sleeping \<Longrightarrow> drivers h' i = Some Sleeping"
    using assms by (cases ph; auto simp: run_session_driver_def driver_iterate_def case_prod_beta split: if_splits)+
qed

lemma create_step_frame:
  assumes "create_step free sid req pc h = (pc', h')" and "\<not> create_holds i pc" and "\<forall>sid. hm_get (SESSIONS h) sid \<noteq> Some i"
  shows "\<not> create_holds i pc'" and "SESSIONS h' = SESSIONS h" and "next_obj h' = next_obj h" and "drivers h' i = drivers h i"
  using assms by (cases pc; auto simp: drivers_notify split: option.splits if_splits)+

lemma wait_step_frame:
  assumes "wait_step free sid vpid cell pc h = (pc', h')" and "\<not> wait_holds i pc" and "\<forall>sid. hm_get (SESSIONS h) sid \<noteq> Some i"
  shows "\<not> wait_holds i pc'" and "SESSIONS h' = SESSIONS h" and "next_obj h' = next_obj h" and "drivers h' i = drivers h i"
  using assms by (cases pc; auto simp: drivers_notify push_waiter_def split: option.splits if_splits)+

lemma forgotten_step:
  assumes "plant_step p p'" and "forgotten i p"
  shows "forgotten i p'"
  using assms
proof (induction rule: plant_step.induct)
  case (create_session p sid h)
  then show ?case
    by (auto simp: forgotten_def unheld_def vproc_ffi_create_session_def Let_def put_phase_def put_session_def split: if_splits)
next
  case (destroy_session p sid)
  then show ?case
    by (auto simp: forgotten_def unheld_def vproc_ffi_destroy_session_def Let_def split: option.splits)
next
  case (driver E j p h)
  then show ?case using driver_frame [OF driver.hyps(3)] by (auto simp: forgotten_def unheld_def)
next
  case (call_create p c cell h req sid)
  then show ?case by (auto simp: forgotten_def unheld_def fresh_cell_def)
next
  case (step_create p c sid req pc free pc' h)
  have "\<not> create_holds i pc" "\<forall>sid. hm_get (SESSIONS (p_host p)) sid \<noteq> Some i"
    using step_create.hyps(1) step_create.prems by (auto simp: forgotten_def unheld_def)
  then show ?case using create_step_frame [OF step_create.hyps(2)] step_create.prems by (auto simp: forgotten_def unheld_def)
next
  case (call_wait p c cell h sid vpid)
  then show ?case by (auto simp: forgotten_def unheld_def fresh_cell_def)
next
  case (step_wait p c sid vpid cell pc free pc' h)
  have "\<not> wait_holds i pc" "\<forall>sid. hm_get (SESSIONS (p_host p)) sid \<noteq> Some i"
    using step_wait.hyps(1) step_wait.prems by (auto simp: forgotten_def unheld_def)
  then show ?case using wait_step_frame [OF step_wait.hyps(2)] step_wait.prems by (auto simp: forgotten_def unheld_def)
qed

text \<open>
  All moves but a wakeup of the driver of \<open>i\<close> for no reason.
\<close>

inductive quiet_move :: "nat \<Rightarrow> plant \<Rightarrow> plant \<Rightarrow> bool" for i where
  step: "plant_step p p' \<Longrightarrow> quiet_move i p p'"
| other: "drivers (p_host p) j = Some Sleeping \<Longrightarrow> j \<noteq> i \<Longrightarrow> quiet_move i p (p\<lparr>p_host := put_phase j Deciding (p_host p)\<rparr>)"

lemma quiet_move_plant_move: "quiet_move i p p' \<Longrightarrow> plant_move p p'"
  by (induction rule: quiet_move.induct) (auto intro: plant_move.intros)

lemma forgotten_quiet: "quiet_move i p p' \<Longrightarrow> forgotten i p \<Longrightarrow> forgotten i p'"
proof (induction rule: quiet_move.induct)
  case (step p p')
  then show ?case using forgotten_step by blast
next
  case (other p j)
  then show ?case by (auto simp: forgotten_def unheld_def)
qed

interpretation destroyed: transition_system "forgotten i" "quiet_move i" "forgotten i" for i
  by unfold_locales (auto intro: forgotten_quiet)

text \<open>
  C37. Destroying a session whose driver sleeps does not end the driver: the call marks the
  session but notifies nobody. If no call in flight holds the session and no other id leads to
  it, the driver sleeps on, whatever any thread does afterwards and however other drivers wake, as
  long as its own condition variable does not wake it for no reason; until then its session is
  not cleaned up. Only such a spurious wakeup can end it, since the test it then makes sees the
  mark.
\<close>

theorem destroyed_session_sleeps_on:
  assumes "plant_ok p" and "hm_get (SESSIONS (p_host p)) sid = Some i" and "drivers (p_host p) i = Some Sleeping" and "unheld i p"
    and "\<forall>sid'. hm_get (SESSIONS (p_host p)) sid' = Some i \<longrightarrow> sid' = sid"
    and "(quiet_move i)\<^sup>*\<^sup>* (p\<lparr>p_host := vproc_ffi_destroy_session sid (p_host p)\<rparr>) p'"
  shows "(\<exists>S. objs (vproc_ffi_destroy_session sid (p_host p)) i = Some S \<and> shutdown S) \<and>
    drivers (p_host p') i = Some Sleeping \<and>
    (\<forall>S. shutdown S \<longrightarrow> driver_decide S = Iterate)"
proof (intro conjI)
  show "\<forall>S. shutdown S \<longrightarrow> driver_decide S = Iterate" by (simp add: driver_decide_def)
  have "session_ok p i" using assms(1) by (simp add: plant_ok_def)
  then obtain S where S: "objs (p_host p) i = Some S" "i < next_obj (p_host p)"
    using assms(3) by (auto simp: session_ok_def split: option.splits)
  then show "\<exists>S. objs (vproc_ffi_destroy_session sid (p_host p)) i = Some S \<and> shutdown S"
    using assms(2) by (simp add: vproc_ffi_destroy_session_def Let_def)
  let ?h = "vproc_ffi_destroy_session sid (p_host p)"
  have h: "SESSIONS ?h = hm_remove sid (SESSIONS (p_host p))" "drivers ?h = drivers (p_host p)" "next_obj ?h = next_obj (p_host p)"
    using assms(2) by (simp_all add: vproc_ffi_destroy_session_def Let_def)
  have "hm_get (SESSIONS ?h) sid' \<noteq> Some i" for sid' using assms(5) h(1) by simp blast
  moreover have "unheld i (p\<lparr>p_host := ?h\<rparr>)" using assms(4) by (simp add: unheld_def)
  ultimately have "forgotten i (p\<lparr>p_host := ?h\<rparr>)" using assms(3) S(2) h by (simp add: forgotten_def)
  then show "drivers (p_host p') i = Some Sleeping"
    using destroyed.run_inv [OF assms(6)] by (simp add: forgotten_def)
qed

lemma plant_ok_sample: "plant_ok \<lparr>p_host = host_with (session_new 1) Sleeping, p_creates = Map.empty, p_waits = Map.empty\<rparr>"
proof -
  have "exec_idle executor_new" using idle_ok_init [of sys_init] exec_idle_iff [of sys_init] by (simp add: sys_init_def)
  moreover have "\<not> has_ready executor_new" by (simp add: has_ready_def executor_new_def)
  ultimately show ?thesis
    by (auto simp: plant_ok_def session_ok_def host_with_def session_new_def)
qed

text \<open>A session is destroyed while its driver sleeps, and another one is created.\<close>

theorem destroyed_session_sleeps_on_witness:
  "\<exists>S h. objs (vproc_ffi_destroy_session 1 (host_with (session_new 1) Sleeping)) 0 = Some S \<and> shutdown S \<and>
     vproc_ffi_create_session True (vproc_ffi_destroy_session 1 (host_with (session_new 1) Sleeping)) = Some (2, h) \<and>
     drivers h 0 = Some Sleeping"
proof -
  let ?p = "\<lparr>p_host = host_with (session_new 1) Sleeping, p_creates = Map.empty, p_waits = Map.empty\<rparr>"
  define p1 where "p1 = ?p\<lparr>p_host := vproc_ffi_destroy_session 1 (p_host ?p)\<rparr>"
  have "NEXT_SESSION_ID (p_host p1) = 2"
    by (simp add: p1_def vproc_ffi_destroy_session_def host_with_def hm_get_def Let_def)
  then obtain h where h: "vproc_ffi_create_session True (p_host p1) = Some (2, h)"
    by (simp add: vproc_ffi_create_session_def Let_def)
  then have "(quiet_move 0)\<^sup>*\<^sup>* p1 (p1\<lparr>p_host := h\<rparr>)"
    using quiet_move.step [OF plant_step.create_session [OF h]] by blast
  moreover have only: "\<forall>sid'. hm_get (SESSIONS (p_host ?p)) sid' = Some 0 \<longrightarrow> sid' = 1" by (simp add: host_with_def hm_get_def)
  moreover have "unheld 0 ?p" by (simp add: unheld_def)
  ultimately show ?thesis
    using destroyed_session_sleeps_on [OF plant_ok_sample, of 1 0 "p1\<lparr>p_host := h\<rparr>"] h by (auto simp: p1_def)
qed

section \<open>Processes that wait for I/O\<close>

lemma collect_revents: "f \<in> set (fst (collect_io_waits s)) \<Longrightarrow> revents f = 0"
  by (auto simp: collect_io_waits_def Let_def split: option.splits)

lemma wake_none:
  assumes "exec_ok (ex s)" and "\<And>pid c. hm_get (vprocs (ex s)) pid = Some c \<Longrightarrow> \<not> expired now c"
  shows "wake_io_ready (fst (collect_io_waits s)) (snd (collect_io_waits s)) now s = Some s"
proof -
  obtain ps where ps: "wake_io_ready (fst (collect_io_waits s)) (snd (collect_io_waits s)) now s = Some (fold wake_one ps s)"
    "set ps = {pid. \<exists>c. hm_get (vprocs (ex s)) pid = Some c \<and>
      ((\<exists>i < length (fst (collect_io_waits s)). snd (collect_io_waits s) ! i = pid \<and> revents (fst (collect_io_waits s) ! i) \<noteq> 0)
        \<or> expired now c)}"
    using wake_eq [OF assms(1) refl, of now] by blast
  then have "set ps = {}" using assms(2) collect_revents [OF nth_mem] by auto
  then show ?thesis using ps(1) by simp
qed

text \<open>
  C38. A session can sleep while its processes wait for input: when all live processes of a
  session wait for descriptors, no thread waits for one of them and a poll of 50 milliseconds
  finds nothing ready, the driver goes to sleep with the processes still waiting. From then
  on it makes no step by itself, whatever becomes ready: the descriptors are not
  polled again before another thread calls into the session.
\<close>

theorem io_wait_session_sleeps:
  assumes "objs h i = Some S" and "drivers h i = Some (Polling pfs pids)" and "(pfs, pids) = io_waits (executor S)"
    and "exec_ok (executor S)" and "waiters S = []" and "spawn_queue S = []" and "\<not> shutdown S"
    and "l_poll (e_libc E) pfs 50 = (0, pfs)"
    and "\<forall>pid c. hm_get (vprocs (executor S)) pid = Some c \<longrightarrow> (is_done c \<or> io_wait c \<noteq> None) \<and> \<not> expired (e_now E) c"
  shows "\<exists>h1 h2 S'. run_session_driver E i h = Some h1 \<and> run_session_driver E i h1 = Some h2 \<and> drivers h2 i = Some Sleeping \<and>
    objs h2 i = Some S' \<and> executor S' = executor S \<and> (\<forall>E'. run_session_driver E' i h2 = Some h2)"
proof -
  let ?v = "enter S (shared h)"
  have col: "collect_io_waits (vsys ?v) = (pfs, pids)" using assms(3) io_waits_ex [of "vsys ?v"] by simp
  have "wake_io_ready pfs pids (e_now E) (vsys ?v) = Some (vsys ?v)"
    using wake_none [of "vsys ?v" "e_now E"] assms(4,9) col by simp
  then have wake: "driver_wake (e_libc E) (e_now E) pfs pids S (shared h) = Some (S, with_rt (\<lambda>_. vsys ?v) ?v)"
    using assms(8) by (simp add: driver_wake_def Let_def)
  define h1 where "h1 = put_phase i Deciding (put_session i S (h\<lparr>shared := with_rt (\<lambda>_. vsys ?v) ?v\<rparr>))"
  have "list_all (\<lambda>(pid, c). is_done c \<or> io_wait c \<noteq> None) (vprocs (executor S))"
    using assms(9) exec_okD(1) [OF assms(4)] by (auto simp: list_all_iff hm_ok_get_iff)
  then have "driver_decide S = Sleeping" using assms(5-7) by (simp add: driver_decide_def has_work_def has_ready_def)
  then have "run_session_driver E i h = Some h1" "run_session_driver E i h1 = Some (put_phase i Sleeping h1)"
    using assms(1,2) wake by (simp_all add: run_session_driver_def h1_def)
  then show ?thesis by (intro exI [of _ h1] exI [of _ "put_phase i Sleeping h1"] exI [of _ S])
      (simp add: h1_def, simp add: run_session_driver_def)
qed

definition exec_waiting :: Executor where
  "exec_waiting = (ex sys_one)\<lparr>vprocs := hm_modify 1 (\<lambda>c. c\<lparr>io_wait := Some \<lparr>io_fds = [(0, 1)], deadline = None\<rparr>\<rparr>) (vprocs (ex sys_one))\<rparr>"

theorem io_wait_session_sleeps_witness:
  "\<exists>h1 h2. run_session_driver ((env_with yielder)\<lparr>e_libc := libc_sample\<lparr>l_poll := (\<lambda>pfs t. (0, pfs))\<rparr>\<rparr>) 0
       (host_with ((session_new 1)\<lparr>executor := exec_waiting\<rparr>) (Polling (fst (io_waits exec_waiting)) (snd (io_waits exec_waiting)))) = Some h1 \<and>
     run_session_driver ((env_with yielder)\<lparr>e_libc := libc_sample\<lparr>l_poll := (\<lambda>pfs t. (0, pfs))\<rparr>\<rparr>) 0 h1 = Some h2 \<and>
     drivers h2 0 = Some Sleeping"
proof -
  let ?S = "(session_new 1)\<lparr>executor := exec_waiting\<rparr>" and ?E = "(env_with yielder)\<lparr>e_libc := libc_sample\<lparr>l_poll := (\<lambda>pfs t. (0, pfs))\<rparr>\<rparr>"
  let ?io = "io_waits exec_waiting"
  have "exec_ok exec_waiting" using sys_one_facts(1) by (auto simp: exec_waiting_def sched_ok_def intro: exec_ok_modify)
  moreover have "hm_get (vprocs exec_waiting) pid = Some c \<Longrightarrow> (is_done c \<or> io_wait c \<noteq> None) \<and> \<not> expired 0 c" for pid c
  proof -
    assume get: "hm_get (vprocs exec_waiting) pid = Some c"
    have "hm_get (vprocs (ex sys_one)) q = None" if "q \<noteq> 1" for q
      using that by (simp add: sys_one_def spawn_def coroutine_new_def sys_init_def executor_new_def sys_defs Let_def)
    then have "pid = 1" using get by (cases "pid = 1") (auto simp: exec_waiting_def)
    then show ?thesis using get sys_one_proc by (auto simp: exec_waiting_def expired_def)
  qed
  ultimately show ?thesis
    using io_wait_session_sleeps [of "host_with ?S (Polling (fst ?io) (snd ?io))" 0 ?S "fst ?io" "snd ?io" ?E]
    by (fastforce simp: session_new_def env_with_def)
qed

section \<open>Sessions share the descriptor tables\<close>

text \<open>
  Sessions number their processes independently but share one map of descriptor tables:
  the first program a new session starts is process 1, and starting it replaces the
  descriptor table that process 1 of any other session has, while all other tables stay.
\<close>

theorem sessions_share_process_ids:
  assumes "virtual_execve_via_entry (W 0) (req_path req) (req_argv req) (req_envp req) (enter (session_new sid) v) = (Ok vpid, v1)"
  shows "vpid = 1 \<and> (\<exists>v'. serve_requests W [req] (enter (session_new sid) v) cells = Some (v', cells(req_result req \<mapsto> 1)) \<and>
    get_table 1 (fdw (vsys v')) = Some (vt_new_with_fds (stdin_fd req) (stdout_fd req) (stderr_fd req)) \<and>
    (\<forall>q. q \<noteq> 1 \<longrightarrow> get_table q (fdw (vsys v')) = get_table q (fdw (vsys v))))"
proof -
  have e: "executor (session_new sid) = executor_new" "next_pid executor_new = 1" "current executor_new = None"
    by (simp_all add: session_new_def executor_new_def)
  note s = via_entry_sys [OF assms(1)]
  have pid: "vpid = 1" using s(2) e by simp
  then have "fdw (vsys v1) = exec_world None 1 (fdw (vsys v))" using s(6) e by simp
  then show ?thesis using assms pid by (auto simp: get_table_create get_table_other)
qed

theorem sessions_share_process_ids_witness:
  "\<exists>v'. serve_requests (\<lambda>_. world_sample free_cell) [\<lparr>req_path = [47, 98], req_argv = [], req_envp = [], stdin_fd = 20, stdout_fd = 21,
       stderr_fd = 22, req_result = 0\<rparr>] (enter (session_new 2) (vst_sample fd_sample)) Map.empty = Some (v', [0 \<mapsto> 1]) \<and>
     get_table 1 (fdw (vsys (vst_sample fd_sample))) = Some (vt_new_with_fds 0 1 2) \<and>
     get_table 1 (fdw (vsys v')) = Some (vt_new_with_fds 20 21 22)"
proof -
  let ?r = "\<lparr>req_path = [47, 98], req_argv = [], req_envp = [], stdin_fd = 20, stdout_fd = 21, stderr_fd = 22, req_result = 0\<rparr>"
  let ?v = "enter (session_new 2) (vst_sample fd_sample)"
  have "BINARY_CACHE ?v = []" "\<not> exit_hooked ?v" "\<not> execve_hooked ?v" "next_pid (ex (vsys ?v)) = 1"
    by (simp_all add: enter_def with_rt_def vst_sample_def vsys_def with_sys_def session_new_def executor_new_def)
  then obtain v1 where "virtual_execve_via_entry (world_sample free_cell) [47, 98] [] [] ?v = (Ok 1, v1)"
    using exec_runs [of "[]" ?v 1 free_cell] by auto
  then show ?thesis
    using sessions_share_process_ids [of "\<lambda>_. world_sample free_cell" ?r 2 "vst_sample fd_sample" 1 v1 Map.empty] by simp
qed

lemma fold_vt_drop_pipes:
  "pipes (fold vt_drop ts st) a =
     (if \<exists>t \<in> set ts. list_ex (refs_pipe a) (hm_values (fds t)) then map_option pipe_close (pipes st a) else pipes st a)"
  by (induction ts arbitrary: st) (auto simp: vt_drop_pipes option.map_comp comp_def)

lemma cleanup_effect:
  shows "get_table vpid (cleanup w) = None"
    and "get_table vpid w = Some t \<Longrightarrow> list_ex (refs_pipe a) (hm_values (fds t)) \<Longrightarrow>
      pipes (wstore (cleanup w)) a = map_option pipe_close (pipes (wstore w) a)"
proof -
  show "get_table vpid (cleanup w) = None" by (simp add: cleanup_def get_table_def hm_get_def)
  assume "get_table vpid w = Some t" and refs: "list_ex (refs_pipe a) (hm_values (fds t))"
  then have "(vpid, t) \<in> set (tables w)" by (auto simp: get_table_def dest: hm_get_Some_mem)
  then have "t \<in> set (hm_values (tables w))" by (force simp: hm_values_def)
  then show "pipes (wstore (cleanup w)) a = map_option pipe_close (pipes (wstore w) a)"
    using refs by (auto simp: cleanup_def fold_vt_drop_pipes)
qed

lemma reap_nothing:
  assumes "\<forall>(pid, c) \<in> set (vprocs (ex s)). \<not> is_done c"
  shows "fdw (reap_done_coroutines s) = fdw s"
proof -
  have "\<forall>(pid, c) \<in> set vs. \<not> is_done c \<Longrightarrow> fdw (snd (reap_loop vs s)) = fdw s" for vs s
    by (induction vs arbitrary: s) (auto simp: case_prod_beta)
  then show ?thesis using assms by (simp add: reap_done_coroutines_def Let_def case_prod_beta with_children_def with_vprocs_def)
qed

text \<open>
  The end of one session takes the descriptors of all: when the driver of a session that
  was destroyed stops, with no finished process left to reap, no process of any session has a
  descriptor table any more and every pipe that one of them referred to is closed, while the
  other sessions go on with their processes.
\<close>

theorem shutdown_clears_all_sessions:
  assumes "objs h i = Some S" and "drivers h i = Some Iterate" and "shutdown S"
    and "\<forall>(pid, c) \<in> set (vprocs (executor S)). \<not> is_done c"
  shows "\<exists>h'. run_session_driver E i h = Some h' \<and> drivers h' i = Some Ended \<and>
    (\<forall>vpid. get_table vpid (fdw (vsys (shared h'))) = None) \<and>
    (\<forall>vpid t a. get_table vpid (fdw (vsys (shared h))) = Some t \<longrightarrow> list_ex (refs_pipe a) (hm_values (fds t)) \<longrightarrow>
       pipes (wstore (fdw (vsys (shared h')))) a = map_option pipe_close (pipes (wstore (fdw (vsys (shared h)))) a)) \<and>
    (\<forall>j. j \<noteq> i \<longrightarrow> objs h' j = objs h j \<and> drivers h' j = drivers h j)"
proof -
  obtain S' v where sd: "driver_shutdown S (shared h) = (S', v)" by fastforce
  have w: "fdw (vsys v) = cleanup (fdw (vsys (shared h)))"
    using sd reap_nothing [of "vsys (enter S (shared h))"] assms(4) by (auto simp: driver_shutdown_def Let_def)
  have "run_session_driver E i h = Some (put_phase i Ended (put_session i S' (h\<lparr>shared := v\<rparr>)))"
    using assms(1-3) sd by (simp add: run_session_driver_def driver_iterate_def)
  then show ?thesis using cleanup_effect [where w = "fdw (vsys (shared h))"] w by auto
qed

theorem shutdown_clears_all_sessions_witness:
  "\<exists>h'. run_session_driver (env_with yielder) 0 ((host_with ((session_new 1)\<lparr>shutdown := True\<rparr>) Iterate)\<lparr>shared := vst_sample fd_sample\<rparr>) = Some h' \<and>
     get_table 1 (fdw (vsys (vst_sample fd_sample))) = Some (vt_new_with_fds 0 1 2) \<and> get_table 1 (fdw (vsys (shared h'))) = None"
  using shutdown_clears_all_sessions [of "(host_with ((session_new 1)\<lparr>shutdown := True\<rparr>) Iterate)\<lparr>shared := vst_sample fd_sample\<rparr>" 0
      "(session_new 1)\<lparr>shutdown := True\<rparr>" "env_with yielder"]
  by (auto simp: host_with_def session_new_def executor_new_def)

end
