(* ===== verification/Preload_Wait.thy ===== *)
theory Preload_Wait
  imports Preload_Laws
begin

unbundle bit_operations_syntax

text \<open>
  Properties of the calls that wait, \<^verbatim>\<open>waitpid\<close>, \<^verbatim>\<open>poll\<close> and \<^verbatim>\<open>select\<close>, and the places where
  the interposed calls depart from what their callers expect.
\<close>

section \<open>Loops that switch\<close>

lemma until_return_final:
  "until_return S f n i p = Some (r, p') \<Longrightarrow> \<not> switches r \<and> (\<exists>j q. f j q = Some (r, p'))"
proof (induction n arbitrary: i p)
  case (Suc n)
  then obtain x q where f: "f i p = Some (x, q)" by (auto simp: bind_eq_Some_conv)
  show ?case
  proof (cases "switches x")
    case True
    then obtain q' where "until_return S f n (Suc i) q' = Some (r, p')"
      using Suc.prems f by (auto simp: bind_eq_Some_conv)
    then show ?thesis by (rule Suc.IH)
  qed (use Suc.prems f in auto)
qed simp

lemma until_return_chain:
  assumes "\<forall>j < k. f (i + j) (st j) = Some (x j, q j) \<and> switches (x j) \<and>
      switch_out S (i + j) (x j) (q j) = Some (st (Suc j))"
    and "f (i + k) (st k) = Some (r, p')" and "\<not> switches r" and "k < n"
  shows "until_return S f n i (st 0) = Some (r, p')"
  using assms
proof (induction k arbitrary: n i st x q)
  case 0
  then show ?case by (cases n) auto
next
  case (Suc k)
  obtain m where m: "n = Suc m" using Suc.prems(4) by (cases n) auto
  have "until_return S f m (Suc i) (st (Suc 0)) = Some (r, p')"
    using Suc.prems m by (intro Suc.IH [where st = "\<lambda>j. st (Suc j)" and x = "\<lambda>j. x (Suc j)" and q = "\<lambda>j. q (Suc j)"])
      (auto simp: less_Suc_eq_0_disj)
  moreover have "f i (st 0) = Some (x 0, q 0) \<and> switches (x 0) \<and> switch_out S i (x 0) (q 0) = Some (st (Suc 0))"
    using Suc.prems(1) by force
  ultimately show ?case by (simp add: m)
qed

section \<open>Waiting for a process\<close>

lemma wait_status_decodes:
  "drop_bit 8 (wait_status code) AND 0xff = code AND 0xff" "wait_status code AND 0x7f = 0"
proof -
  have m: "(0xff :: c_int) = mask 8" "(0x7f :: c_int) = mask 7" by (simp_all add: mask_eq_exp_minus_1)
  show "drop_bit 8 (wait_status code) AND 0xff = code AND 0xff"
    unfolding wait_status_def m by (rule bit_word_eqI) (auto simp: bit_simps)
  show "wait_status code AND 0x7f = 0"
    unfolding wait_status_def m by (rule bit_word_eqI) (auto simp: bit_simps)
qed

text \<open>
  C18. Waiting for a virtual child returns its exit code: when the child is known and the
  scheduler keeps giving the processor back, \<^verbatim>\<open>waitpid\<close> returns the child's pid in the first
  round after the exit code is recorded, after exactly the rounds before it, and the status
  decodes with the standard macros to a normal exit with the low byte of the code.
\<close>

theorem waitpid_returns_exit_code:
  assumes "inside v c p" and "is_virtual_pid pid p" and "st 0 = p\<lparr>vflag := True\<rparr>"
    and "\<forall>j < k. get_exit_code pid (psys (st j)) = None \<and> is_virtual_pid pid (st j) \<and>
      map_option (\<lambda>s. (st j)\<lparr>psys := sc_others S j s\<rparr>) (do_yield (sc_run S) (psys (st j))) = Some (st (Suc j))"
    and "get_exit_code pid (psys (st k)) = Some code" and "k < rounds"
  shows "\<exists>status. waitpid S L rounds pid options p = Some (Return (pid, Some status), st k) \<and>
    status AND 0x7f = 0 \<and> drop_bit 8 status AND 0xff = code AND 0xff"
proof -
  have "until_return S (\<lambda>i p. Some (wait_virtual pid p, p)) rounds 0 (st 0) =
      Some (Return (pid, Some (wait_status code)), st k)"
    using assms(4-6)
    by (intro until_return_chain [where k = k and x = "\<lambda>_. Yield" and q = st])
      (auto simp: wait_virtual_def switches_def switch_out_def)
  then have "waitpid S L rounds pid options p = Some (Return (pid, Some (wait_status code)), st k)"
    using assms(2,3) by (simp add: waitpid_def inside_simps [OF assms(1)] case_prod_beta)
  then show ?thesis using wait_status_decodes by blast
qed

text \<open>In the witness the child exits with code 256 + 3 while the parent waits.\<close>

definition sched_child_exits :: schedule where
  "sched_child_exits = sched_sample\<lparr>sc_others :=
     (\<lambda>_ s. set_current (Some 1) (vproc_exit_with_code 259 (set_current (Some 2) s)))\<rparr>"

theorem waitpid_returns_exit_code_witness:
  "\<exists>status p'. waitpid sched_child_exits (\<lambda>_. libc_sample) 2 2 0 (pst_with fd_sample) = Some (Return (2, Some status), p') \<and>
    drop_bit 8 status AND 0xff = 3"
proof -
  let ?p = "(pst_with fd_sample)\<lparr>vflag := True\<rparr>"
  define q where "q = ?p\<lparr>psys := sc_others sched_child_exits 0 (requeue_alive (Some 1) (psys ?p))\<rparr>"
  have y: "do_yield r (psys ?p) = Some (requeue_alive (Some 1) (psys ?p))" for r
    by (simp add: do_yield_def)
  have "get_exit_code 2 (psys ?p) = None" "is_virtual_pid 2 ?p"
    by (simp_all add: get_exit_code_def is_virtual_pid_def hm_contains_def hm_get_def is_done_def)
  moreover have "get_exit_code 2 (psys q) = Some 259"
    by (simp add: q_def sched_child_exits_def sched_sample_def get_exit_code_def vproc_exit_with_code_def
        set_current_def with_exit_codes_def with_vprocs_def requeue_alive_def with_queue_def hm_get_def hm_insert_def is_done_def)
  ultimately have "\<exists>status. waitpid sched_child_exits (\<lambda>_. libc_sample) 2 2 0 (pst_with fd_sample) =
      Some (Return (2, Some status), q) \<and> status AND 0x7f = 0 \<and> drop_bit 8 status AND 0xff = (259 :: c_int) AND 0xff"
    using waitpid_returns_exit_code [OF inside_sample, of 2 fd_sample "\<lambda>j. if j = 0 then ?p else q" 1
        sched_child_exits 259 2 "\<lambda>_. libc_sample" 0] y
    by (simp add: q_def is_virtual_pid_def)
  then show ?thesis by auto
qed

text \<open>
  A child that was reaped cannot be waited for: its exit code is still recorded, but
  \<^verbatim>\<open>waitpid\<close> looks for the process and not for the code, asks the kernel, which knows no such
  child, and fails; the error is reported as \<^verbatim>\<open>EPERM\<close>, since the wrapper takes the -1 that
  \<^verbatim>\<open>libc::syscall\<close> returns for a negated error number.
\<close>

theorem waitpid_after_reap_fails:
  assumes "inside v c p" and "get_exit_code pid (psys p) = Some code"
    and "hm_get (vprocs (ex (psys p))) pid = None" and "l_wait4 (L 0) pid WNOHANG = (- 1, None)"
  shows "waitpid S L (Suc n) pid 0 p = Some (Return (- 1, None), p\<lparr>vflag := True, errno := 1\<rparr>)"
proof -
  have "\<not> is_virtual_pid pid (p\<lparr>vflag := True\<rparr>)"
    using assms(3) by (simp add: is_virtual_pid_def hm_contains_def)
  then show ?thesis
    using assms(4) by (simp add: waitpid_def inside_simps [OF assms(1)] wait_real_def raw_wait4_def
        switches_def case_prod_beta)
qed

theorem waitpid_after_reap_fails_witness:
  "\<exists>p. get_exit_code 3 (psys p) = Some 0 \<and>
     waitpid sched_sample (\<lambda>_. libc_sample) 1 3 0 p = Some (Return (- 1, None), p\<lparr>vflag := True, errno := 1\<rparr>)"
proof -
  let ?p = "with_sys (with_exit_codes (hm_insert 3 0)) (pst_with fd_sample)"
  have "inside 1 (co_sample 1) ?p" "get_exit_code 3 (psys ?p) = Some 0" "hm_get (vprocs (ex (psys ?p))) 3 = None"
    by (simp_all add: inside_def with_sys_def with_exit_codes_def get_exit_code_def hm_get_def pst_with_def
        executor_new_def hm_insert_def)
  then show ?thesis
    using waitpid_after_reap_fails [of 1 "co_sample 1" ?p 3 0 "\<lambda>_. libc_sample" sched_sample 0] by auto
qed

section \<open>Timeouts of poll\<close>

text \<open>
  A \<^verbatim>\<open>poll\<close> with a positive timeout never times out: as long as no descriptor becomes
  ready, every round waits again with the full timeout, however far the clock has moved on,
  and no number of rounds makes the call return 0.
\<close>

theorem poll_timeout_never_expires:
  assumes "inside v c p" and "pfds \<noteq> []" and "timeout \<noteq> 0" and "P (p\<lparr>vflag := True\<rparr>)"
    and quiet: "\<And>i q. P q \<Longrightarrow> \<exists>fs ws. poll_scan (L i) v q pfds = Some (fs, ws) \<and>
      (\<forall>f \<in> set fs. revents f = 0) \<and>
      P (q\<lparr>psys := sc_others S i (yield_for_io ws timeout (sc_clock S i) (psys q))\<rparr>)"
  shows "poll_call S L rounds pfds timeout p = None"
proof -
  have "until_return S (\<lambda>i. poll_round (L i) v pfds timeout) n i q = None" if "P q" for n i q
    using that
  proof (induction n arbitrary: i q)
    case (Suc n)
    obtain fs ws where fs: "poll_scan (L i) v q pfds = Some (fs, ws)" "\<forall>f \<in> set fs. revents f = 0"
      "P (q\<lparr>psys := sc_others S i (yield_for_io ws timeout (sc_clock S i) (psys q))\<rparr>)"
      using quiet [OF Suc.prems] by blast
    then have "filter (\<lambda>f. revents f \<noteq> 0) fs = []" by (simp add: filter_empty_conv)
    then have "poll_round (L i) v pfds timeout q = Some (WaitIo ws timeout, q)"
      using fs(1) assms(3) by (simp add: poll_round_def)
    then show ?case using Suc.IH [OF fs(3)] by (simp add: switches_def switch_out_def)
  qed simp
  then show ?thesis
    using assms(2,4) by (simp add: poll_call_def inside_simps [OF assms(1)])
qed

theorem poll_timeout_never_expires_witness:
  "poll_call sched_sample (\<lambda>_. libc_sample) 5 [\<lparr>pfd = 0, events = POLLIN, revents = 0\<rparr>] 10 (pst_with fd_sample) = None"
proof (rule poll_timeout_never_expires [OF inside_sample, where P = "\<lambda>q. fd_entry 1 0 q = Some (Real 0)"])
  fix i and q :: pst
  assume q: "fd_entry 1 0 q = Some (Real 0)"
  have io: "fdw (yield_for_io ws t n s) = fdw s" for ws t n and s :: sys
    by (simp add: yield_for_io_def Let_def with_vprocs_def split: option.split)
  show "\<exists>fs ws. poll_scan libc_sample 1 q [\<lparr>pfd = 0, events = POLLIN, revents = 0\<rparr>] = Some (fs, ws) \<and>
      (\<forall>f \<in> set fs. revents f = 0) \<and>
      fd_entry 1 0 (q\<lparr>psys := sc_others sched_sample i (yield_for_io ws 10 (sc_clock sched_sample i) (psys q))\<rparr>) = Some (Real 0)"
    using q by (simp add: poll_one_def poll_real_def sched_sample_def fd_entry_def table_of_def io)
qed (simp_all add: fd_entry_def table_of_def)

section \<open>The sets of select\<close>

definition io_event :: "u16 \<Rightarrow> bool" where
  "io_event ev \<longleftrightarrow> ev = POLLIN \<or> ev = POLLOUT \<or> ev = POLLPRI"

text \<open>
  The documented behaviour of \<^verbatim>\<open>poll\<close> on one descriptor: among the events of \<^verbatim>\<open>select\<close> only those
  asked for are reported.
\<close>

definition polls_requested :: "libc \<Rightarrow> bool" where
  "polls_requested L \<longleftrightarrow> (\<forall>fd want r fs g ev. l_poll L [\<lparr>pfd = fd, events = want, revents = 0\<rparr>] 0 = (r, fs) \<longrightarrow>
     g \<in> set fs \<longrightarrow> io_event ev \<longrightarrow> revents g AND ev \<noteq> 0 \<longrightarrow> want AND ev \<noteq> 0)"

definition honest :: "pollfd \<Rightarrow> pollfd \<Rightarrow> bool" where
  "honest f g \<longleftrightarrow> pfd g = pfd f \<and> (\<forall>ev. io_event ev \<longrightarrow> revents g AND ev \<noteq> 0 \<longrightarrow> events f AND ev \<noteq> 0)"

lemma poll_real_honest:
  assumes "polls_requested L"
  shows "honest f (fst (poll_real L rfd f))"
proof -
  obtain r fs where p: "l_poll L [\<lparr>pfd = rfd, events = events f, revents = 0\<rparr>] 0 = (r, fs)" by fastforce
  have asked: "events f AND ev \<noteq> 0" if "g \<in> set fs" "io_event ev" "revents g AND ev \<noteq> 0" for g ev
    using assms p that unfolding polls_requested_def by fastforce
  show ?thesis
  proof (cases fs)
    case (Cons g gs)
    then have "g \<in> set fs" by simp
    then have "events f AND ev \<noteq> 0" if "io_event ev" "revents g AND ev \<noteq> 0" for ev
      using that by (rule asked)
    then show ?thesis using p Cons by (simp add: poll_real_def honest_def)
  qed (use p in \<open>simp add: poll_real_def honest_def\<close>)
qed

lemma poll_one_honest:
  assumes "polls_requested L" and "poll_one L v p f = Some (g, w)"
  shows "honest f g"
proof -
  have "honest f (f\<lparr>revents := poll_pipe_read b (events f)\<rparr>)" "honest f (f\<lparr>revents := poll_pipe_write b (events f)\<rparr>)" for b
    by (auto simp: honest_def io_event_def poll_pipe_read_def poll_pipe_write_def split: if_splits)
  then show ?thesis
    using assms(2) poll_real_honest [OF assms(1), of f]
    by (auto simp: poll_one_def split: option.splits vfd.splits) (metis fst_conv)+
qed

lemma poll_scan_honest:
  "polls_requested L \<Longrightarrow> poll_scan L v p fs = Some (gs, w) \<Longrightarrow> list_all2 honest fs gs"
  by (induction fs arbitrary: gs w) (auto simp: bind_eq_Some_conv dest: poll_one_honest)

lemma select_pollfds_mem:
  assumes "f \<in> set (select_pollfds nfds rs ws es)"
  shows "events f = select_events rs ws es (pfd f)" and "sint (pfd f) < sint nfds"
    and "unat (pfd f) < 1024"
proof -
  obtain i where i: "i < nat (min (sint nfds) 1024)"
    and f: "f = \<lparr>pfd = of_nat i, events = select_events rs ws es (of_nat i), revents = 0\<rparr>"
    using assms by (auto simp: select_pollfds_def FD_SETSIZE_def Let_def split: if_splits)
  have lt: "i < 1024" "int i < sint nfds" using i by auto
  then have "unat (of_nat i :: c_int) = i" by (simp add: unat_of_nat)
  moreover have "sint (of_nat i :: c_int) = int i"
    using lt by (simp add: signed_of_nat signed_take_bit_int_eq_self)
  ultimately show "events f = select_events rs ws es (pfd f)" "sint (pfd f) < sint nfds" "unat (pfd f) < 1024"
    using lt f by simp_all
qed

lemma select_events_bits:
  "select_events rs ws es fd AND POLLIN \<noteq> 0 \<longleftrightarrow> in_set fd rs"
  "select_events rs ws es fd AND POLLOUT \<noteq> 0 \<longleftrightarrow> in_set fd ws"
  "select_events rs ws es fd AND POLLPRI \<noteq> 0 \<longleftrightarrow> in_set fd es"
  by (simp_all add: select_events_def)

lemma FD_ISSET_SET [simp]: "FD_ISSET fd (FD_SET fd' s) \<longleftrightarrow> FD_ISSET fd s \<or> fd = fd' \<and> unat fd < 1024"
  by (auto simp: FD_ISSET_def FD_SET_def bit_set_bit_iff simp flip: word_unat_eq_iff)

lemma FD_ISSET_0 [simp]: "\<not> FD_ISSET fd 0"
  by (simp add: FD_ISSET_def)

lemma select_result_mem:
  "in_set fd (select_result ev ret fs s) \<Longrightarrow> \<exists>f \<in> set fs. pfd f = fd \<and> revents f AND ev \<noteq> 0"
proof -
  let ?add = "\<lambda>f acc. if sint (pfd f) < sint FD_SETSIZE \<and> revents f AND ev \<noteq> 0 then FD_SET (pfd f) acc else acc"
  have added: "FD_ISSET fd (fold ?add fs acc) \<Longrightarrow>
      FD_ISSET fd acc \<or> (\<exists>f \<in> set fs. pfd f = fd \<and> revents f AND ev \<noteq> 0)" for acc
  proof (induction fs arbitrary: acc)
    case (Cons f fs)
    then have "FD_ISSET fd (fold ?add fs (?add f acc))" by simp
    from Cons.IH [OF this] show ?case by (auto split: if_splits)
  qed simp
  show "in_set fd (select_result ev ret fs s) \<Longrightarrow> \<exists>f \<in> set fs. pfd f = fd \<and> revents f AND ev \<noteq> 0"
    using added [of 0] by (auto simp: in_set_def select_result_def split: option.splits if_splits)
qed

lemma poll_call_honest:
  assumes "inside v c p" and "\<forall>i. polls_requested (L i)" and "pfds \<noteq> []"
    and "poll_call S L rounds pfds timeout p = Some (Return (ret, gs), p')"
  shows "list_all2 honest pfds gs"
proof -
  have "until_return S (\<lambda>i. poll_round (L i) v pfds timeout) rounds 0 (p\<lparr>vflag := True\<rparr>) = Some (Return (ret, gs), p')"
    using assms(3,4) by (simp add: poll_call_def inside_simps [OF assms(1)])
  then obtain i q where "poll_round (L i) v pfds timeout q = Some (Return (ret, gs), p')"
    using until_return_final by blast
  then obtain w where "poll_scan (L i) v q pfds = Some (gs, w)"
    by (auto simp: poll_round_def Let_def split: if_splits)
  then show ?thesis using poll_scan_honest assms(2) by blast
qed

text \<open>
  C19. \<^verbatim>\<open>select\<close> reports only what was asked for: every descriptor in a returned set was in the
  corresponding set passed in and lies below \<^verbatim>\<open>nfds\<close> and 1024. The hypothesis on the real
  \<^verbatim>\<open>poll\<close> is its documented behaviour, that it reports only requested events besides errors.
\<close>

theorem select_reports_only_requested:
  assumes "inside v c p" and "\<forall>i. polls_requested (L i)" and "select_pollfds nfds rs ws es \<noteq> []"
    and "select_call S L rounds real_select nfds rs ws es timeout p = Some (Return (ret, rs', ws', es'), p')"
  shows "(in_set fd rs' \<longrightarrow> in_set fd rs) \<and> (in_set fd ws' \<longrightarrow> in_set fd ws) \<and>
    (in_set fd es' \<longrightarrow> in_set fd es) \<and>
    (in_set fd rs' \<or> in_set fd ws' \<or> in_set fd es' \<longrightarrow> sint fd < sint nfds \<and> unat fd < 1024)"
proof -
  let ?fs = "select_pollfds nfds rs ws es"
  have ins: "inside v c (p\<lparr>vflag := True\<rparr>)" using assms(1) by simp
  obtain x q where x: "poll_call S L rounds ?fs (select_timeout timeout) (p\<lparr>vflag := True\<rparr>) = Some (x, q)"
    using assms(4) by (auto simp: select_call_def inside_simps [OF assms(1)] bind_eq_Some_conv)
  obtain gs where poll: "poll_call S L rounds ?fs (select_timeout timeout) (p\<lparr>vflag := True\<rparr>) = Some (Return (ret, gs), p')"
    and sets: "rs' = select_result POLLIN ret gs rs" "ws' = select_result POLLOUT ret gs ws"
      "es' = select_result POLLPRI ret gs es"
    using assms(4) x by (cases x) (auto simp: select_call_def inside_simps [OF assms(1)])
  have asked: "select_events rs ws es fd AND ev \<noteq> 0 \<and> sint fd < sint nfds \<and> unat fd < 1024"
    if ev: "io_event ev" and res: "in_set fd (select_result ev ret gs s)" for ev s
  proof -
    obtain g where g: "g \<in> set gs" "pfd g = fd" "revents g AND ev \<noteq> 0"
      using select_result_mem [OF res] by blast
    then obtain f where f: "f \<in> set ?fs" "honest f g"
      using poll_call_honest [OF ins assms(2,3) poll] by (metis list_all2_conv_all_nth in_set_conv_nth)
    then have "events f AND ev \<noteq> 0" "pfd f = fd" using ev g by (auto simp: honest_def)
    then show ?thesis using select_pollfds_mem [OF f(1)] by simp
  qed
  have "io_event POLLIN" "io_event POLLOUT" "io_event POLLPRI" by (simp_all add: io_event_def)
  then show ?thesis using asked sets select_events_bits [of rs ws es fd] by meson
qed

lemma polls_requested_sample: "polls_requested libc_sample"
  by (auto simp: polls_requested_def)

lemma select_sample_pollfds:
  "select_pollfds 5 (Some (FD_SET 3 0)) None None = [\<lparr>pfd = 3, events = POLLIN, revents = 0\<rparr>]"
proof -
  have "[0..<5] = [0, 1, 2, 3, 4 :: nat]" by (simp add: upt_rec)
  then show ?thesis by (simp add: select_pollfds_def FD_SETSIZE_def select_events_def in_set_def)
qed

theorem select_reports_only_requested_witness:
  "\<exists>rs p'. select_call sched_sample (\<lambda>_. libc_sample) 1 (0, None, None, None) 5 (Some (FD_SET 3 0)) None None None
      (pst_with (fd_pipe (pipe_close pipe_new))) = Some (Return (1, Some rs, None, None), p') \<and>
    FD_ISSET 3 rs \<and> \<not> FD_ISSET 4 rs"
proof -
  let ?p = "pst_with (fd_pipe (pipe_close pipe_new))"
  have entry: "poll_one libc_sample 1 (?p\<lparr>vflag := True\<rparr>) \<lparr>pfd = 3, events = POLLIN, revents = 0\<rparr> =
      Some (\<lparr>pfd = 3, events = POLLIN, revents = 17\<rparr>, [])"
    by (simp add: poll_one_def poll_pipe_read_def is_closed_def pipe_close_def)
  have "poll_call sched_sample (\<lambda>_. libc_sample) 1 [\<lparr>pfd = 3, events = POLLIN, revents = 0\<rparr>] (- 1) (?p\<lparr>vflag := True\<rparr>) =
      Some (Return (1, [\<lparr>pfd = 3, events = POLLIN, revents = 17\<rparr>]), ?p\<lparr>vflag := True\<rparr>)"
    using entry by (simp add: poll_call_def inside_simps [OF inside_vflag [OF inside_sample]]
        inside_vpid [OF inside_sample] poll_round_def switches_def)
  then have call: "select_call sched_sample (\<lambda>_. libc_sample) 1 (0, None, None, None) 5 (Some (FD_SET 3 0)) None None None ?p =
      Some (Return (1, Some (FD_SET 3 0), None, None), ?p\<lparr>vflag := True\<rparr>)"
    by (simp add: select_call_def inside_simps [OF inside_sample] select_sample_pollfds select_timeout_def
        select_result_def FD_SETSIZE_def)
  from select_reports_only_requested [OF inside_sample _ _ call, of 4] have "\<not> FD_ISSET 4 (FD_SET 3 0)"
    by (simp add: polls_requested_sample select_sample_pollfds in_set_def)
  then show ?thesis using call by auto
qed

section \<open>Replacing a descriptor\<close>

lemma dup2_real_inside:
  assumes "inside v c p" and "get_table v (fdw (psys p)) = Some t"
    and "vt_get t old = Some x" and "backing_fd x = Some rfd" and "0 \<le> sint (l_dup2 L rfd new)"
  shows "dup2_call L old new p =
    (new, set_table v (vt_insert_at new (fst (new_file new (wstore (fdw (psys p)))))
        (snd (new_file new (wstore (fdw (psys p))))) t)
      (with_sys (emit [RealDup2 rfd new]) (p\<lparr>vflag := True\<rparr>)))"
  using assms(2-5)
  by (simp add: dup2_call_def inside_simps [OF assms(1)] own_table_inside [OF assms(1)] dup2_own_def
      case_prod_beta the_store_def with_sys_def emit_def)

text \<open>
  \<^verbatim>\<open>dup2\<close> over an open file leaks its real descriptor: when the target descriptor is the
  only reference to a file whose real descriptor has another number, the entry is replaced,
  no reference to the file is left in the table, and the real descriptor is not closed;
  \<^verbatim>\<open>close\<close> on the same entry would have closed it.
\<close>

theorem dup2_leaks_replaced_file:
  assumes "inside v c p" and "world_ok (fdw (psys p))" and "get_table v (fdw (psys p)) = Some t"
    and "vt_get t old = Some x" and "backing_fd x = Some rfd" and "0 \<le> sint (l_dup2 L rfd new)"
    and "vt_get t new = Some (File a f)" and "\<not> list_ex (refs_file a) (hm_values (fds (vt_remove new t)))"
    and "0 \<le> sint new"
  shows "\<exists>p'. dup2_call L old new p = (new, p') \<and> trace (psys p') = trace (psys p) @ [RealDup2 rfd new] \<and>
    (\<forall>fd g. fd_entry v fd p' \<noteq> Some (File a g)) \<and>
    trace (psys (snd (close_call L' new p))) = trace (psys p) @ [RealClose (real_fd f)]"
proof -
  let ?st = "wstore (fdw (psys p))"
  let ?nf = "File (next_arc ?st) \<lparr>real_fd = new, cloexec = False\<rparr>"
  have tok: "tab_ok ?st t" using world_okD(3) [OF assms(2,3)] .
  then have ok: "hm_ok (fds (vt_remove new t))" by (simp add: tab_ok_def vt_wf_def)
  have "arc_ok ?st (File a f)" using tok assms(7) unfolding tab_ok_def vt_get_def by blast
  then have "a \<noteq> next_arc ?st" by simp
  have at: "fds (snd (vt_insert_at new ?nf st t)) = hm_insert new ?nf (fds (vt_remove new t))" for st
    using assms(7) by (simp add: vt_insert_at_def hm_contains_def vt_get_def vt_close_def Let_def)
  have "vt_get (snd (vt_insert_at new ?nf st t)) fd \<noteq> Some (File a g)" for st fd g
  proof (cases "fd = new")
    case False
    have "hm_get (fds (vt_remove new t)) fd \<noteq> Some (File a g)"
      using assms(8) ok by (auto simp: list_ex_iff set_hm_values refs_file_iff)
    then show ?thesis using False by (simp add: vt_get_def at)
  qed (use \<open>a \<noteq> next_arc ?st\<close> in \<open>simp add: vt_get_def at\<close>)
  moreover have "trace (psys (snd (close_call L' new p))) = trace (psys p) @ [RealClose (real_fd f)]"
    using close_file_inside [OF assms(1,9,3,7,8), of L'] by simp
  ultimately show ?thesis
    using dup2_real_inside [OF assms(1,3-6)]
    by (simp add: new_file_def) (simp add: with_sys_def emit_def)
qed

definition fd_file :: fd_world where
  "fd_file = \<lparr>wstore = \<lparr>pipes = Map.empty, next_arc = 1\<rparr>, tables = [(1,
     \<lparr>fds = [(0, Real 0), (5, File 0 \<lparr>real_fd = 7, cloexec = False\<rparr>)], next_fd = 6\<rparr>)]\<rparr>"

theorem dup2_leaks_replaced_file_witness:
  "\<exists>p'. dup2_call libc_sample 0 5 (pst_with fd_file) = (5, p') \<and> trace (psys p') = [RealDup2 0 5] \<and>
    (\<forall>fd g. fd_entry 1 fd p' \<noteq> Some (File 0 g)) \<and>
    trace (psys (snd (close_call libc_sample 5 (pst_with fd_file)))) = [RealClose 7]"
proof -
  let ?t = "\<lparr>fds = [(0, Real 0), (5, File 0 \<lparr>real_fd = 7, cloexec = False\<rparr>)], next_fd = 6\<rparr>"
  have "world_ok fd_file"
    by (auto simp: world_ok_def fd_file_def store_ok_def tab_ok_def vt_wf_def hm_ok_def
        hm_keys_def hm_get_def hm_contains_def split: if_splits)
  moreover have "get_table 1 fd_file = Some ?t" by (simp add: get_table_def fd_file_def hm_get_def)
  moreover have "vt_get ?t 0 = Some (Real 0)" "vt_get ?t 5 = Some (File 0 \<lparr>real_fd = 7, cloexec = False\<rparr>)"
    "\<not> list_ex (refs_file 0) (hm_values (fds (vt_remove 5 ?t)))"
    by (simp_all add: vt_get_def hm_get_def vt_remove_def hm_remove_def hm_values_def AList.delete_eq)
  ultimately show ?thesis
    using dup2_leaks_replaced_file [OF inside_sample, of fd_file ?t 0 "Real 0" 0 libc_sample 5 0
        "\<lparr>real_fd = 7, cloexec = False\<rparr>" libc_sample] by simp
qed

end
