(* ===== verification/Log.thy ===== *)
theory Log
  imports Prelude
begin

text \<open>
  Logging: \<^verbatim>\<open>src/src/log.rs\<close> and the diagnostics switch \<^verbatim>\<open>vdiag!\<close> of \<^verbatim>\<open>src/src/vexec.rs\<close>. The log
  library is found at run time; the dynamic linker is the parameter \<open>log_linker\<close>, with null
  pointers 0. The calls that leave the module, to the linker and to the log function, are
  recorded in order. Laws: where the log library is found, every message reaches the log exactly once, in order and with its
  priority, without being cut at an embedded null byte, and the log library is looked up
  once; where it is missing, messages are dropped.
\<close>

section \<open>Finding the log function\<close>

definition LOG_DEBUG :: c_int where "LOG_DEBUG = 3"
definition LOG_ERROR :: c_int where "LOG_ERROR = 6"

datatype Level = Debug | Error

record log_linker =
  ll_dlopen :: "u8 list \<Rightarrow> usize"
  ll_dlsym :: "usize \<Rightarrow> u8 list \<Rightarrow> usize"

text \<open>
  \<open>LogCall f prio tag fmt msg\<close> is a call of the function at address \<open>f\<close>; strings are passed as
  the bytes of their buffers, the null byte included.
\<close>

datatype log_event =
    LogOpen "u8 list"
  | LogFind usize "u8 list"
  | LogCall usize c_int "u8 list" "u8 list" "u8 list"

record log_state =
  LOGGER :: "usize option option"
  log_trace :: "log_event list"

definition log_init :: log_state where
  "log_init = \<lparr>LOGGER = None, log_trace = []\<rparr>"

definition find_log_fn :: "log_linker \<Rightarrow> usize option \<times> log_event list" where
  "find_log_fn D =
     (let lib = bytes_of ''liblog.so''; sym = bytes_of ''__android_log_print'';
          handle = ll_dlopen D lib
      in if handle = 0 then (None, [LogOpen lib])
         else (let f = ll_dlsym D handle sym
               in (if f = 0 then None else Some f, [LogOpen lib, LogFind handle sym])))"

definition get_log_fn :: "log_linker \<Rightarrow> log_state \<Rightarrow> usize option \<times> log_state" where
  "get_log_fn D s =
     (case LOGGER s of
        Some f \<Rightarrow> (f, s)
      | None \<Rightarrow> (let (f, es) = find_log_fn D
                 in (f, s\<lparr>LOGGER := Some f, log_trace := log_trace s @ es\<rparr>)))"

section \<open>Writing a message\<close>

text \<open>\<^verbatim>\<open>CString::new\<close>: the bytes with a null byte behind them, unless they contain one.\<close>

definition CString_new :: "u8 list \<Rightarrow> u8 list option" where
  "CString_new bs = (if 0 \<in> set bs then None else Some (bs @ [0]))"

definition replace_nul :: "u8 list \<Rightarrow> u8 list" where
  "replace_nul = map (\<lambda>b. if b = 0 then 63 else b)"

definition c_msg :: "u8 list \<Rightarrow> u8 list" where
  "c_msg msg =
     (case CString_new msg of
        Some c \<Rightarrow> c
      | None \<Rightarrow> (case CString_new (replace_nul msg) of Some c \<Rightarrow> c | None \<Rightarrow> [0]))"

definition log_prio :: "Level \<Rightarrow> c_int" where
  "log_prio level = (case level of Debug \<Rightarrow> LOG_DEBUG | Error \<Rightarrow> LOG_ERROR)"

definition log_emit :: "log_linker \<Rightarrow> Level \<Rightarrow> u8 list \<Rightarrow> log_state \<Rightarrow> log_state" where
  "log_emit D level msg s =
     (case get_log_fn D s of
        (None, s') \<Rightarrow> s'
      | (Some f, s') \<Rightarrow>
          s'\<lparr>log_trace := log_trace s' @
              [LogCall f (log_prio level) (bytes_of ''vproc'' @ [0]) (bytes_of ''%s'' @ [0]) (c_msg msg)]\<rparr>)"

definition vlog :: "log_linker \<Rightarrow> u8 list \<Rightarrow> log_state \<Rightarrow> log_state" where
  "vlog D msg s = log_emit D Debug msg s"

definition vlog_error :: "log_linker \<Rightarrow> u8 list \<Rightarrow> log_state \<Rightarrow> log_state" where
  "vlog_error D msg s = log_emit D Error msg s"

section \<open>Diagnostics\<close>

text \<open>
  \<^verbatim>\<open>vdiag!\<close>: the environment is asked once whether \<^verbatim>\<open>VPROC_DIAG\<close> exists (\<open>var_set\<close>), and the
  message is logged if it did.
\<close>

record vdiag_state =
  CHECKED :: bool
  ENABLED :: bool
  vdiag_log :: log_state

definition vdiag_check :: "bool \<Rightarrow> vdiag_state \<Rightarrow> bool \<times> vdiag_state" where
  "vdiag_check var_set d =
     (let d = (if \<not> CHECKED d then d\<lparr>ENABLED := var_set, CHECKED := True\<rparr> else d) in (ENABLED d, d))"

definition vdiag :: "bool \<Rightarrow> log_linker \<Rightarrow> u8 list \<Rightarrow> vdiag_state \<Rightarrow> vdiag_state" where
  "vdiag var_set D msg d =
     (let (on, d) = vdiag_check var_set d
      in if on then d\<lparr>vdiag_log := log_emit D Debug msg (vdiag_log d)\<rparr> else d)"

section \<open>Laws\<close>

interpretation logger: once_cell LOGGER get_log_fn
  by unfold_locales (auto simp: get_log_fn_def case_prod_unfold Let_def)

interpretation diag_switch: once_cell "\<lambda>d. if CHECKED d then Some (ENABLED d) else None" vdiag_check
  by unfold_locales (auto simp: vdiag_check_def Let_def split: if_splits)

text \<open>What the log function reads of a buffer: the bytes before the first null byte.\<close>

definition c_string :: "u8 list \<Rightarrow> u8 list" where
  "c_string = takeWhile (\<lambda>b. b \<noteq> 0)"

lemma replace_nul_free [simp]: "0 \<notin> set (replace_nul msg)"
  by (auto simp: replace_nul_def)

lemma replace_nul_id: "0 \<notin> set msg \<Longrightarrow> replace_nul msg = msg"
  by (induction msg) (auto simp: replace_nul_def)

lemma c_msg_eq: "c_msg msg = replace_nul msg @ [0]"
  by (simp add: c_msg_def CString_new_def replace_nul_id)

lemma c_string_c_msg: "c_string (c_msg msg) = replace_nul msg"
  by (auto simp: c_msg_eq c_string_def takeWhile_append)

lemma log_emit_known:
  "LOGGER s = Some f \<Longrightarrow>
   log_emit D level msg s =
     s\<lparr>log_trace := log_trace s @
        (case f of None \<Rightarrow> []
         | Some a \<Rightarrow> [LogCall a (log_prio level) (bytes_of ''vproc'' @ [0]) (bytes_of ''%s'' @ [0]) (c_msg msg)])\<rparr>"
  by (cases s) (simp add: log_emit_def get_log_fn_def split: option.split)

lemma log_emit_first:
  "LOGGER s = None \<Longrightarrow>
   log_emit D level msg s =
     log_emit D level msg (s\<lparr>LOGGER := Some (fst (find_log_fn D)), log_trace := log_trace s @ snd (find_log_fn D)\<rparr>)"
  by (simp add: log_emit_def get_log_fn_def case_prod_unfold Let_def)

text \<open>The messages in a trace, as the log receives them.\<close>

fun received :: "log_event list \<Rightarrow> (usize \<times> c_int \<times> u8 list) list" where
  "received [] = []"
| "received (LogCall f prio tag fmt msg # es) = (f, prio, c_string msg) # received es"
| "received (_ # es) = received es"

fun lookups :: "log_event list \<Rightarrow> log_event list" where
  "lookups [] = []"
| "lookups (LogCall f prio tag fmt msg # es) = lookups es"
| "lookups (e # es) = e # lookups es"

lemma received_append [simp]: "received (xs @ ys) = received xs @ received ys"
  by (induction xs rule: received.induct) simp_all

lemma lookups_append [simp]: "lookups (xs @ ys) = lookups xs @ lookups ys"
  by (induction xs rule: lookups.induct) simp_all

lemma trace_of_find [simp]:
  "received (snd (find_log_fn D)) = []" "lookups (snd (find_log_fn D)) = snd (find_log_fn D)"
  by (simp_all add: find_log_fn_def Let_def)

type_synonym log_entry = "log_linker \<times> Level \<times> u8 list"

definition emit_all :: "log_entry list \<Rightarrow> log_state \<Rightarrow> log_state" where
  "emit_all ms s = fold (\<lambda>(D, level, msg). log_emit D level msg) ms s"

definition as_received :: "usize option \<Rightarrow> log_entry list \<Rightarrow> (usize \<times> c_int \<times> u8 list) list" where
  "as_received f ms =
     (case f of None \<Rightarrow> [] | Some a \<Rightarrow> map (\<lambda>(D, level, msg). (a, log_prio level, replace_nul msg)) ms)"

lemma emit_all_known:
  assumes "LOGGER s = Some f"
  shows "received (log_trace (emit_all ms s)) = received (log_trace s) @ as_received f ms
    \<and> lookups (log_trace (emit_all ms s)) = lookups (log_trace s)"
  using assms
proof (induction ms arbitrary: s)
  case (Cons m ms)
  obtain D level msg where m: "m = (D, level, msg)" by (metis prod_cases3)
  let ?s = "log_emit D level msg s"
  have "LOGGER ?s = Some f" and "received (log_trace ?s) = received (log_trace s) @ as_received f [m]"
    and "lookups (log_trace ?s) = lookups (log_trace s)"
    using Cons.prems m by (simp_all add: log_emit_known as_received_def c_string_c_msg split: option.split)
  then show ?case using Cons.IH [of ?s] m by (simp add: emit_all_def as_received_def split: option.split)
qed (simp add: emit_all_def as_received_def split: option.split)

lemma emit_all_fresh:
  "received (log_trace (emit_all ((D, level, msg) # ms) log_init)) =
     as_received (fst (find_log_fn D)) ((D, level, msg) # ms)
   \<and> lookups (log_trace (emit_all ((D, level, msg) # ms) log_init)) = snd (find_log_fn D)"
proof -
  let ?s = "log_init\<lparr>LOGGER := Some (fst (find_log_fn D)), log_trace := snd (find_log_fn D)\<rparr>"
  have "emit_all ((D, level, msg) # ms) log_init = emit_all ((D, level, msg) # ms) ?s"
    by (simp add: emit_all_def log_init_def log_emit_first)
  then show ?thesis
    using emit_all_known [of ?s "fst (find_log_fn D)" "(D, level, msg) # ms"] by simp
qed

text \<open>
  C36. If the log library and its function are found when the first message is logged, the log
  receives every message, once and in order, with the priority of its level and with each null
  byte shown as a question mark, so that no message is cut short; and the library is looked up at
  the first message only: which linker later messages meet makes no difference. (Without the
  library every message is dropped, where the comment of \<^verbatim>\<open>emit\<close> promises a fallback; see
  \<open>log_silent_without_library\<close>.)
\<close>

theorem log_receives_all:
  assumes "fst (find_log_fn D) = Some f"
  shows "received (log_trace (emit_all ((D, level, msg) # ms) log_init)) =
      map (\<lambda>(D, level, msg). (f, log_prio level, replace_nul msg)) ((D, level, msg) # ms)
    \<and> lookups (log_trace (emit_all ((D, level, msg) # ms) log_init)) = snd (find_log_fn D)"
  using emit_all_fresh [of D level msg ms] assms by (simp add: as_received_def)

definition linker_sample :: log_linker where
  "linker_sample = \<lparr>ll_dlopen = (\<lambda>_. 1), ll_dlsym = (\<lambda>_ _. 7)\<rparr>"

theorem log_receives_all_witness:
  "received (log_trace (emit_all [(linker_sample, Debug, [104, 0]), (linker_sample, Error, [105])] log_init)) =
     [(7, LOG_DEBUG, [104, 63]), (7, LOG_ERROR, [105])]"
proof -
  have "fst (find_log_fn linker_sample) = Some 7" by (simp add: find_log_fn_def linker_sample_def)
  from log_receives_all [OF this, of Debug "[104, 0]" "[(linker_sample, Error, [105])]"]
  show ?thesis by (simp add: log_prio_def replace_nul_def)
qed

text \<open>
  Diagnostics are decided at the first use: if \<^verbatim>\<open>VPROC_DIAG\<close> did not exist then, no later message
  reaches the log even after the variable has been set.
\<close>

lemma vdiag_off_for_good:
  assumes "CHECKED d" and "\<not> ENABLED d"
  shows "fold (\<lambda>(var_set, D, msg). vdiag var_set D msg) ms d = d"
  by (induction ms) (use assms in \<open>auto simp: vdiag_def vdiag_check_def\<close>)

lemma vdiag_first_use:
  "\<not> CHECKED d \<Longrightarrow> CHECKED (vdiag False D msg d) \<and> \<not> ENABLED (vdiag False D msg d)
     \<and> vdiag_log (vdiag False D msg d) = vdiag_log d"
  by (simp add: vdiag_def vdiag_check_def)

text \<open>
  Without the log library a message changes nothing that leaves the process: there is no
  other channel, in particular nothing is written to the standard error output.
\<close>

lemma log_silent_without_library:
  assumes "ll_dlopen D (bytes_of ''liblog.so'') = 0"
  shows "received (log_trace (emit_all ((D, level, msg) # ms) log_init)) = []"
  using emit_all_fresh [of D level msg ms] assms by (simp add: find_log_fn_def as_received_def)

end
