(* ===== verification/Startup.thy ===== *)
theory Startup
  imports Preload Log
begin

unbundle bit_operations_syntax

text \<open>
  What the interposition layer sets up before and between calls (\<^verbatim>\<open>src/src/preload.rs\<close>, first
  part): the library constructor and the switch \<^verbatim>\<open>VPROC\<close>, the crash handler, the cache of real
  libc functions, and the clearing of descriptor ownership tags; further the query for memory
  tagging of \<^verbatim>\<open>src/src/vexec.rs\<close>.
\<close>

section \<open>The switch and the signal dispositions\<close>

definition SIGILL :: c_int where "SIGILL = 4"
definition SIGABRT :: c_int where "SIGABRT = 6"
definition SIGBUS :: c_int where "SIGBUS = 7"
definition SIGSEGV :: c_int where "SIGSEGV = 11"
definition SA_SIGINFO :: c_int where "SA_SIGINFO = 4"

datatype handler = SIG_DFL | Crash_handler

record sigaction =
  sa_sigaction :: handler
  sa_flags :: c_int

text \<open>\<open>environ\<close> holds the values of the variables, without their null byte.\<close>

record startup =
  environ :: "(u8 list, u8 list) hmap"
  VPROC_ENABLED :: "8 word"
  CRASH_HANDLER_INSTALLED :: bool
  dispositions :: "(c_int, sigaction) hmap"

definition vproc_auto_enable :: "startup \<Rightarrow> startup" where
  "vproc_auto_enable s = s\<lparr>environ := hm_insert (bytes_of ''VPROC'') (bytes_of ''1'') (environ s)\<rparr>"

definition install_crash_handler :: "startup \<Rightarrow> startup" where
  "install_crash_handler s =
     (if CRASH_HANDLER_INSTALLED s then s
      else (let sa = \<lparr>sa_sigaction = Crash_handler, sa_flags = SA_SIGINFO\<rparr>
            in s\<lparr>CRASH_HANDLER_INSTALLED := True,
                 dispositions := fold (\<lambda>sig. hm_insert sig sa) [SIGSEGV, SIGBUS, SIGILL, SIGABRT] (dispositions s)\<rparr>))"

text \<open>The variable is set and its first byte, or its null byte if it is empty, is \<^verbatim>\<open>'1'\<close>.\<close>

definition env_on :: "startup \<Rightarrow> bool" where
  "env_on s =
     (case hm_get (environ s) (bytes_of ''VPROC'') of None \<Rightarrow> False | Some val \<Rightarrow> hd (val @ [0]) = 49)"

definition startup_enabled :: "startup \<Rightarrow> bool \<times> startup" where
  "startup_enabled s =
     (if VPROC_ENABLED s = 1 then (True, s)
      else if env_on s then (True, install_crash_handler (s\<lparr>VPROC_ENABLED := 1\<rparr>))
      else (False, s))"

section \<open>The crash handler\<close>

text \<open>
  \<open>peek\<close> reads a word of the crashed process, \<^const>\<open>None\<close> where the address is not readable;
  \<open>pfmt\<close> is how the C library prints a pointer. The handler's own accesses may fault, and
  its slice \<^verbatim>\<open>&buf[..n]\<close> may be out of range, which aborts.
\<close>

datatype crash_end = Exit_status c_int | Fault | Abort

fun dec_digits :: "nat \<Rightarrow> u8 list" where
  "dec_digits n = (if n < 10 then [of_nat (48 + n)] else dec_digits (n div 10) @ [of_nat (48 + n mod 10)])"

declare dec_digits.simps [simp del]

definition fmt_d :: "c_int \<Rightarrow> u8 list" where
  "fmt_d x = (if sint x < 0 then 45 # dec_digits (nat (- sint x)) else dec_digits (nat (sint x)))"

text \<open>\<^verbatim>\<open>snprintf\<close> into the buffer of 256 bytes, and the slice of the length it returns.\<close>

definition snprintf_slice :: "u8 list \<Rightarrow> u8 list option" where
  "snprintf_slice text =
     (if length text \<le> 255 then Some text
      else if length text = 256 then Some (take 255 text @ [0]) else None)"

definition crash_line :: "(usize \<Rightarrow> u8 list) \<Rightarrow> c_int \<Rightarrow> usize \<Rightarrow> u8 list" where
  "crash_line pfmt sig fault_addr =
     [10] @ bytes_of ''[SIGSEGV] signal='' @ fmt_d sig @ bytes_of '' fault_addr='' @ pfmt fault_addr @ [10]"

definition frame_line :: "(usize \<Rightarrow> u8 list) \<Rightarrow> nat \<Rightarrow> usize \<Rightarrow> u64 \<Rightarrow> u8 list" where
  "frame_line pfmt i fp lr =
     bytes_of ''  #'' @ fmt_d (of_nat i) @ bytes_of '' fp='' @ pfmt fp @ bytes_of '' lr='' @ pfmt lr @ [10]"

fun walk_frames ::
  "(usize \<Rightarrow> u8 list) \<Rightarrow> (usize \<Rightarrow> u64 option) \<Rightarrow> nat \<Rightarrow> nat \<Rightarrow> usize \<Rightarrow> u8 list list \<times> crash_end option" where
  "walk_frames pfmt peek 0 i fp = ([], None)"
| "walk_frames pfmt peek (Suc n) i fp =
     (if fp = 0 then ([], None)
      else (case peek (fp + 8) of
              None \<Rightarrow> ([], Some Fault)
            | Some lr \<Rightarrow>
                (case snprintf_slice (frame_line pfmt i fp lr) of
                   None \<Rightarrow> ([], Some Abort)
                 | Some msg \<Rightarrow>
                     (case peek fp of
                        None \<Rightarrow> ([msg], Some Fault)
                      | Some fp' \<Rightarrow>
                          (let (out, e) = walk_frames pfmt peek n (Suc i) fp' in (msg # out, e))))))"

text \<open>
  \<open>fp\<close> is the frame pointer register; the result is what is written to descriptor 2, and the end.
  This is one run of the handler. A fault in a run for \<^verbatim>\<open>SIGSEGV\<close>, which is blocked then, ends the
  process; a fault in a run for another signal is delivered as a new \<^verbatim>\<open>SIGSEGV\<close>, since the mask of
  the handler is empty, and starts a further run, with \<^const>\<open>SIGSEGV\<close> as its signal.
\<close>

definition crash_handler ::
  "(usize \<Rightarrow> u8 list) \<Rightarrow> (usize \<Rightarrow> u64 option) \<Rightarrow> c_int \<Rightarrow> usize \<Rightarrow> usize \<Rightarrow> u8 list list \<times> crash_end" where
  "crash_handler pfmt peek sig fault_addr fp =
     (case snprintf_slice (crash_line pfmt sig fault_addr) of
        None \<Rightarrow> ([], Abort)
      | Some msg \<Rightarrow>
          (let (out, e) = walk_frames pfmt peek 16 0 fp
           in (msg # out, case e of Some stop \<Rightarrow> stop | None \<Rightarrow> Exit_status (128 + sig))))"

section \<open>The cache of real functions\<close>

text \<open>
  A symbol is given by the address of its literal, which is also the key of the cache;
  \<open>lit\<close> gives the bytes of the literal, its null byte included. The linker's answer for
  the next definition of a name is the parameter \<open>dlsym\<close>.
\<close>

record dlsym_cache =
  CACHE :: "(usize \<times> usize) list"
  COUNT :: usize

text \<open>
  What a request ends in: a pointer, the message and status of \<^verbatim>\<open>_exit\<close>, or a panic of the index
  into the array.
\<close>

datatype resolved = Resolved usize | Unresolved "u8 list" c_int | Index_panic

definition dlsym_cache_init :: dlsym_cache where
  "dlsym_cache_init = \<lparr>CACHE = replicate 64 (0, 0), COUNT = 0\<rparr>"

text \<open>The debug format of a string whose characters are printable, the null byte apart.\<close>

definition debug_str :: "u8 list \<Rightarrow> u8 list" where
  "debug_str bs =
     [34] @ concat (map (\<lambda>b. if b = 0 then [92, 48] else if b = 34 \<or> b = 92 then [92, b] else [b]) bs) @ [34]"

definition real :: "(usize \<Rightarrow> u8 list) \<Rightarrow> (u8 list \<Rightarrow> usize) \<Rightarrow> usize \<Rightarrow> dlsym_cache \<Rightarrow> resolved \<times> dlsym_cache" where
  "real lit dlsym symb c =
     (case List.find (\<lambda>(key, val). key = symb) (take (unat (COUNT c)) (CACHE c)) of
        Some (key, val) \<Rightarrow> (Resolved val, c)
      | None \<Rightarrow>
          (let ptr = dlsym (c_string (lit symb))
           in if ptr = 0
              then (Unresolved (bytes_of ''vproc: cannot resolve '' @ debug_str (lit symb) @ [10]) 99, c)
              else (let idx = COUNT c;
                        c = c\<lparr>COUNT := idx + 1\<rparr>
                    in if idx < 64
                       then (if unat idx < length (CACHE c)
                             then (Resolved ptr, c\<lparr>CACHE := (CACHE c)[unat idx := (symb, ptr)]\<rparr>)
                             else (Index_panic, c))
                       else (Resolved ptr, c))))"

section \<open>Ownership tags of descriptors\<close>

text \<open>
  The functions of the platform are called through the pointers the linker returned: \<open>get\<close> and
  \<open>exchange\<close> are their effects on the tags \<open>'t\<close>.
\<close>

record 't fdsan =
  FUNCS :: "(usize option \<times> usize option) option"
  tags :: 't

definition non_null :: "usize \<Rightarrow> usize option" where
  "non_null p = (if p = 0 then None else Some p)"

definition fdsan_funcs :: "(u8 list \<Rightarrow> usize) \<Rightarrow> 't fdsan \<Rightarrow> (usize option \<times> usize option) \<times> 't fdsan" where
  "fdsan_funcs dlsym s =
     (case FUNCS s of
        Some f \<Rightarrow> (f, s)
      | None \<Rightarrow> (let f = (non_null (dlsym (bytes_of ''android_fdsan_get_fd_tag'')),
                         non_null (dlsym (bytes_of ''android_fdsan_exchange_owner_tag'')))
                 in (f, s\<lparr>FUNCS := Some f\<rparr>)))"

definition fdsan_clear_tag ::
  "(u8 list \<Rightarrow> usize) \<Rightarrow> (usize \<Rightarrow> c_int \<Rightarrow> 't \<Rightarrow> u64) \<Rightarrow> (usize \<Rightarrow> c_int \<Rightarrow> u64 \<Rightarrow> u64 \<Rightarrow> 't \<Rightarrow> 't) \<Rightarrow>
   c_int \<Rightarrow> 't fdsan \<Rightarrow> 't fdsan" where
  "fdsan_clear_tag dlsym get exchange fd s =
     (case fdsan_funcs dlsym s of
        ((Some gt, Some et), s) \<Rightarrow>
          (let tag = get gt fd (tags s)
           in if tag \<noteq> 0 then s\<lparr>tags := exchange et fd tag 0 (tags s)\<rparr> else s)
      | (_, s) \<Rightarrow> s)"

section \<open>Memory tagging\<close>

text \<open>The cached answer, with -1 for none yet; \<open>hwcap\<close> is the auxiliary vector's \<^verbatim>\<open>AT_HWCAP\<close>.\<close>

definition mte_available :: "u64 \<Rightarrow> 8 word \<Rightarrow> bool \<times> 8 word" where
  "mte_available hwcap cached =
     (if 0 \<le> sint cached then (cached \<noteq> 0, cached)
      else (let has = (hwcap AND push_bit 18 1 \<noteq> 0) in (has, if has then 1 else 0)))"

end
