(* ===== verification/Startup_Laws.thy ===== *)
theory Startup_Laws
  imports Startup
begin

text \<open>
  Laws of \<open>Startup\<close>: the switch is latched and refines \<open>enabled\<close> of \<open>Preload\<close>, the crash handler is
  installed once, the cache of libc functions is transparent, a crash report is bounded and
  shows the chain of frames, and ownership tags are cleared where the platform has them.
\<close>

section \<open>Laws of the switch\<close>

text \<open>
  Between two calls the program may change its environment at will.
\<close>

inductive startup_step :: "startup \<Rightarrow> startup \<Rightarrow> bool" where
  setenv: "startup_step s (s\<lparr>environ := e\<rparr>)"
| ask: "startup_step s (snd (startup_enabled s))"

definition crash_ready :: "startup \<Rightarrow> bool" where
  "crash_ready s \<longleftrightarrow> (\<forall>sig \<in> {SIGSEGV, SIGBUS, SIGILL, SIGABRT}.
     hm_get (dispositions s) sig = Some \<lparr>sa_sigaction = Crash_handler, sa_flags = SA_SIGINFO\<rparr>)"

definition startup_init :: "startup \<Rightarrow> bool" where
  "startup_init s \<longleftrightarrow> VPROC_ENABLED s = - 1 \<and> \<not> CRASH_HANDLER_INSTALLED s \<and> dispositions s = []"

definition startup_inv :: "startup \<Rightarrow> bool" where
  "startup_inv s \<longleftrightarrow> (VPROC_ENABLED s = 1 \<longrightarrow> CRASH_HANDLER_INSTALLED s) \<and> (CRASH_HANDLER_INSTALLED s \<longrightarrow> crash_ready s)"

lemma install_crash_handler_ready:
  "\<not> CRASH_HANDLER_INSTALLED s \<Longrightarrow> crash_ready (install_crash_handler s)"
  by (simp add: install_crash_handler_def crash_ready_def Let_def SIGSEGV_def SIGBUS_def SIGILL_def SIGABRT_def)

lemma installed [simp]: "CRASH_HANDLER_INSTALLED (install_crash_handler s)"
  by (simp add: install_crash_handler_def Let_def)

lemma install_keeps [simp]:
  "VPROC_ENABLED (install_crash_handler s) = VPROC_ENABLED s" "environ (install_crash_handler s) = environ s"
  by (simp_all add: install_crash_handler_def Let_def)

lemma install_once: "install_crash_handler (install_crash_handler s) = install_crash_handler s"
  by (simp add: install_crash_handler_def Let_def)

lemma startup_enabled_inv: "startup_inv s \<Longrightarrow> startup_inv (snd (startup_enabled s))"
proof -
  assume inv: "startup_inv s"
  let ?s = "s\<lparr>VPROC_ENABLED := 1\<rparr>"
  have "crash_ready (install_crash_handler ?s)"
  proof (cases "CRASH_HANDLER_INSTALLED s")
    case True
    then have "install_crash_handler ?s = ?s" by (simp add: install_crash_handler_def)
    then show ?thesis using inv True by (simp add: startup_inv_def crash_ready_def)
  qed (simp add: install_crash_handler_ready)
  then show ?thesis using inv by (simp add: startup_enabled_def startup_inv_def)
qed

interpretation startup: transition_system startup_init startup_step startup_inv
proof
  fix s :: startup
  assume "startup_init s"
  then show "startup_inv s" by (simp add: startup_init_def startup_inv_def)
next
  fix s t :: startup
  assume inv: "startup_inv s" and st: "startup_step s t"
  from st show "startup_inv t"
  proof (cases rule: startup_step.cases)
    case (setenv e)
    then show ?thesis using inv by (simp add: startup_inv_def crash_ready_def)
  qed (simp add: startup_enabled_inv inv)
qed

lemma enabled_kept: "startup_step\<^sup>*\<^sup>* s t \<Longrightarrow> VPROC_ENABLED s = 1 \<Longrightarrow> VPROC_ENABLED t = 1"
  by (induction rule: rtranclp_induct) (auto simp: startup_enabled_def elim: startup_step.cases)

text \<open>
  Once the library is loaded and the switch has been asked for the first time, the layer
  stays enabled and its crash handler stays installed for all four signals, whatever the
  program does to its environment, and asking again changes nothing.
\<close>

theorem enabled_for_good:
  assumes "startup_init s" and "startup_step\<^sup>*\<^sup>* (snd (startup_enabled (vproc_auto_enable s))) t"
  shows "startup_enabled t = (True, t) \<and> crash_ready t"
proof -
  let ?s = "snd (startup_enabled (vproc_auto_enable s))"
  have "env_on (vproc_auto_enable s)"
    by (simp add: env_on_def vproc_auto_enable_def) (simp add: bytes_of_def)
  then have on: "VPROC_ENABLED ?s = 1" by (simp add: startup_enabled_def)
  have "startup_init (vproc_auto_enable s)" using assms(1) by (simp add: startup_init_def vproc_auto_enable_def)
  then have "startup_inv t"
    using startup.reachable_inv assms(2) startup_step.ask converse_rtranclp_into_rtranclp by metis
  then show ?thesis
    using enabled_kept [OF assms(2) on] by (simp add: startup_inv_def startup_enabled_def)
qed

text \<open>
  The detailed switch and the two flags of \<open>Preload\<close> agree.
\<close>

definition startup_rel :: "startup \<Rightarrow> pst \<Rightarrow> bool" where
  "startup_rel s p \<longleftrightarrow> (vflag p \<longleftrightarrow> VPROC_ENABLED s = 1) \<and> (venv_one p \<longleftrightarrow> env_on s)"

lemma startup_enabled_refines:
  assumes "startup_rel s p"
  shows "fst (startup_enabled s) = fst (enabled p) \<and> startup_rel (snd (startup_enabled s)) (snd (enabled p))"
  using assms by (auto simp: startup_rel_def startup_enabled_def enabled_def env_on_def)

section \<open>Laws of the cache\<close>

text \<open>What \<^verbatim>\<open>real\<close> would answer without a cache.\<close>

definition resolve_uncached :: "(usize \<Rightarrow> u8 list) \<Rightarrow> (u8 list \<Rightarrow> usize) \<Rightarrow> usize \<Rightarrow> resolved" where
  "resolve_uncached lit dlsym symb =
     (let ptr = dlsym (c_string (lit symb))
      in if ptr = 0 then Unresolved (bytes_of ''vproc: cannot resolve '' @ debug_str (lit symb) @ [10]) 99
         else Resolved ptr)"

text \<open>The entries in use are correct; after more than 64 symbols all entries are in use.\<close>

definition cache_inv :: "(usize \<Rightarrow> u8 list) \<Rightarrow> (u8 list \<Rightarrow> usize) \<Rightarrow> dlsym_cache \<Rightarrow> bool" where
  "cache_inv lit dlsym c \<longleftrightarrow> length (CACHE c) = 64 \<and>
     (\<forall>(key, val) \<in> set (take (unat (COUNT c)) (CACHE c)). val \<noteq> 0 \<and> val = dlsym (c_string (lit key)))"

lemma find_mem: "List.find P xs = Some x \<Longrightarrow> x \<in> set xs \<and> P x"
  by (induction xs) (auto split: if_splits)

lemma cache_inv_init: "cache_inv lit dlsym dlsym_cache_init"
  by (simp add: cache_inv_def dlsym_cache_init_def)

lemma take_Suc_update: "n < length xs \<Longrightarrow> take (Suc n) (xs[n := x]) = take n xs @ [x]"
  by (simp add: take_Suc_conv_app_nth)

lemma cache_inv_add:
  assumes inv: "cache_inv lit dlsym c" and ptr: "ptr \<noteq> 0" "ptr = dlsym (c_string (lit symb))"
  shows "cache_inv lit dlsym (let idx = COUNT c; c = c\<lparr>COUNT := idx + 1\<rparr>
    in if idx < 64 then c\<lparr>CACHE := (CACHE c)[unat idx := (symb, ptr)]\<rparr> else c)"
proof (cases "COUNT c < 64")
  case True
  then have n: "unat (COUNT c) < 64" by (simp add: word_less_nat_alt)
  then have "COUNT c \<noteq> - 1" using True by auto
  then have "unat (COUNT c + 1) = Suc (unat (COUNT c))" by (simp add: unat_succ)
  then show ?thesis using True inv ptr n by (auto simp: cache_inv_def take_Suc_update Let_def)
next
  case False
  then have "64 \<le> unat (COUNT c)" by (simp add: word_less_nat_alt)
  then have all: "\<forall>(key, val) \<in> set (CACHE c). val \<noteq> 0 \<and> val = dlsym (c_string (lit key))"
    using inv by (simp add: cache_inv_def)
  have "set (take k (CACHE c)) \<subseteq> set (CACHE c)" for k by (rule set_take_subset)
  then show ?thesis using False inv all by (fastforce simp: cache_inv_def Let_def)
qed

lemma real_correct:
  assumes "cache_inv lit dlsym c"
  shows "fst (real lit dlsym symb c) = resolve_uncached lit dlsym symb \<and> cache_inv lit dlsym (snd (real lit dlsym symb c))"
proof (cases "List.find (\<lambda>(key, val). key = symb) (take (unat (COUNT c)) (CACHE c))")
  case None
  show ?thesis
  proof (cases "dlsym (c_string (lit symb)) = 0")
    case False
    have "unat (COUNT c) < length (CACHE c)" if "COUNT c < 64"
      using that assms by (simp add: cache_inv_def word_less_nat_alt)
    then show ?thesis
      using None False cache_inv_add [OF assms False refl]
      by (cases "COUNT c < 64") (simp_all add: real_def resolve_uncached_def Let_def)
  qed (use None assms in \<open>simp add: real_def resolve_uncached_def\<close>)
next
  case (Some kv)
  obtain key val where kv: "kv = (key, val)" by fastforce
  then have "key = symb" "val \<noteq> 0" "val = dlsym (c_string (lit key))"
    using find_mem [OF Some] assms by (auto simp: cache_inv_def)
  then show ?thesis using Some kv assms by (simp add: real_def resolve_uncached_def)
qed

text \<open>
  C33. The cache of libc functions is transparent: over any sequence of requests, also of more
  symbols than the cache holds, every answer is the one the dynamic linker gives for that
  symbol, and an unknown symbol ends the process with status 99; no request indexes the array of
  64 entries out of its range, which would panic.
\<close>

theorem real_is_dlsym:
  "fst (calls (real lit dlsym) syms dlsym_cache_init) = map (resolve_uncached lit dlsym) syms"
proof -
  have "cache_inv lit dlsym c \<Longrightarrow> fst (calls (real lit dlsym) syms c) = map (resolve_uncached lit dlsym) syms" for c
  proof (induction syms arbitrary: c)
    case (Cons symb syms)
    then show ?case using real_correct [OF Cons.prems, of symb] by (simp add: case_prod_unfold Let_def)
  qed simp
  then show ?thesis using cache_inv_init by blast
qed

text \<open>
  While no more than 64 different symbols are asked for, each of them is looked up once:
  \<^verbatim>\<open>COUNT\<close> counts the successful look-ups.
\<close>

definition cached_keys :: "dlsym_cache \<Rightarrow> usize list" where
  "cached_keys c = map fst (take (unat (COUNT c)) (CACHE c))"

lemma find_key_None: "List.find (\<lambda>(key, val). key = k) xs = None \<longleftrightarrow> k \<notin> set (map fst xs)"
  by (induction xs) auto

lemma real_cached: "symb \<in> set (cached_keys c) \<Longrightarrow> snd (real lit dlsym symb c) = c"
  using find_key_None [of symb "take (unat (COUNT c)) (CACHE c)"]
  by (auto simp: cached_keys_def real_def split: option.split)

lemma real_adds_key:
  assumes "symb \<notin> set (cached_keys c)" and "dlsym (c_string (lit symb)) \<noteq> 0"
    and "length (CACHE c) = 64" and "unat (COUNT c) < 64"
  shows "cached_keys (snd (real lit dlsym symb c)) = cached_keys c @ [symb]
    \<and> unat (COUNT (snd (real lit dlsym symb c))) = Suc (unat (COUNT c))
    \<and> length (CACHE (snd (real lit dlsym symb c))) = 64"
proof -
  have "COUNT c < 64" using assms(4) by (simp add: word_less_nat_alt)
  moreover from this have "COUNT c \<noteq> - 1" by auto
  then have "unat (COUNT c + 1) = Suc (unat (COUNT c))" by (simp add: unat_succ)
  ultimately show ?thesis
    using assms find_key_None [of symb "take (unat (COUNT c)) (CACHE c)"]
    by (simp add: cached_keys_def real_def Let_def take_Suc_update)
qed

lemma real_looks_up_once:
  assumes "\<forall>symb \<in> set syms. dlsym (c_string (lit symb)) \<noteq> 0" and "card (set (cached_keys c @ syms)) \<le> 64"
    and "length (CACHE c) = 64" and "distinct (cached_keys c)" and "unat (COUNT c) \<le> 64"
  shows "unat (COUNT (snd (calls (real lit dlsym) syms c))) = card (set (cached_keys c @ syms))"
  using assms
proof (induction syms arbitrary: c)
  case Nil
  then have "length (cached_keys c) = unat (COUNT c)" by (simp add: cached_keys_def)
  then show ?case using Nil.prems(4) distinct_card by fastforce
next
  case (Cons symb syms)
  let ?c = "snd (real lit dlsym symb c)"
  have step: "snd (calls (real lit dlsym) (symb # syms) c) = snd (calls (real lit dlsym) syms ?c)"
    by (simp add: case_prod_unfold Let_def)
  have len: "length (cached_keys c) = unat (COUNT c)" using Cons.prems(3,5) by (simp add: cached_keys_def)
  show ?case
  proof (cases "symb \<in> set (cached_keys c)")
    case True
    then have "set (cached_keys c @ symb # syms) = set (cached_keys c @ syms)" by auto
    then show ?thesis using Cons step real_cached [OF True, of lit dlsym] by simp
  next
    case False
    have "card (insert symb (set (cached_keys c))) \<le> card (set (cached_keys c @ symb # syms))"
      by (rule card_mono) auto
    then have "unat (COUNT c) < 64"
      using False Cons.prems(2,4) len distinct_card [of "cached_keys c"] by simp
    then have "cached_keys ?c = cached_keys c @ [symb] \<and> unat (COUNT ?c) \<le> 64 \<and> length (CACHE ?c) = 64"
      using real_adds_key [OF False _ Cons.prems(3), of dlsym lit] Cons.prems(1) by simp
    moreover have "set ((cached_keys c @ [symb]) @ syms) = set (cached_keys c @ symb # syms)" by simp
    ultimately show ?thesis using Cons.IH [of ?c] Cons.prems(1,2,4) False step by simp
  qed
qed

section \<open>Laws of the crash handler\<close>

lemma dec_digits_length: "n < 10 ^ Suc k \<Longrightarrow> length (dec_digits n) \<le> Suc k"
proof (induction k arbitrary: n)
  case (Suc k)
  then have "n div 10 < 10 ^ Suc k" by (simp add: less_mult_imp_div_less)
  then show ?case using Suc.IH [of "n div 10"] by (subst dec_digits.simps) simp
qed (simp add: dec_digits.simps)

lemma fmt_d_length: "length (fmt_d x) \<le> 11"
proof -
  have "- (2 ^ 31) \<le> sint x \<and> sint x < 2 ^ 31" using sint_greater_eq [of x] sint_lt [of x] by simp
  then have "nat (- sint x) < 10 ^ Suc 9" "nat (sint x) < 10 ^ Suc 9" by (simp, linarith)+
  then show ?thesis
    using dec_digits_length [of "nat (- sint x)" 9] dec_digits_length [of "nat (sint x)" 9] by (simp add: fmt_d_def)
qed

text \<open>A pointer is printed as \<^verbatim>\<open>0x\<close> and at most sixteen digits.\<close>

definition pfmt_ok :: "(usize \<Rightarrow> u8 list) \<Rightarrow> bool" where
  "pfmt_ok pfmt \<longleftrightarrow> (\<forall>p. length (pfmt p) \<le> 18)"

lemma crash_line_length: "pfmt_ok pfmt \<Longrightarrow> length (crash_line pfmt sig addr) \<le> 60"
  using fmt_d_length [of sig] by (auto simp: crash_line_def bytes_of_def pfmt_ok_def dest: spec [of _ addr])

lemma frame_line_length: "pfmt_ok pfmt \<Longrightarrow> length (frame_line pfmt i fp lr) \<le> 59"
proof -
  assume "pfmt_ok pfmt"
  then have "length (pfmt fp) \<le> 18" "length (pfmt lr) \<le> 18" by (simp_all add: pfmt_ok_def)
  then show ?thesis using fmt_d_length [of "of_nat i"] by (simp add: frame_line_def bytes_of_def)
qed

lemma crash_slices:
  assumes "pfmt_ok pfmt"
  shows "snprintf_slice (crash_line pfmt sig addr) = Some (crash_line pfmt sig addr)"
    and "snprintf_slice (frame_line pfmt i fp lr) = Some (frame_line pfmt i fp lr)"
  using crash_line_length [OF assms, of sig addr] frame_line_length [OF assms, of i fp lr]
  by (simp_all add: snprintf_slice_def)

text \<open>
  The chain of frames in memory: a frame holds the next frame pointer and, eight bytes above,
  the return address; a null frame pointer ends it.
\<close>

inductive fp_chain :: "(usize \<Rightarrow> u64 option) \<Rightarrow> usize \<Rightarrow> (usize \<times> u64) list \<Rightarrow> bool" for peek where
  stop: "fp_chain peek 0 []"
| frame: "fp \<noteq> 0 \<Longrightarrow> peek (fp + 8) = Some lr \<Longrightarrow> peek fp = Some fp' \<Longrightarrow> fp_chain peek fp' fs \<Longrightarrow>
    fp_chain peek fp ((fp, lr) # fs)"

definition frame_lines :: "(usize \<Rightarrow> u8 list) \<Rightarrow> nat \<Rightarrow> nat \<Rightarrow> (usize \<times> u64) list \<Rightarrow> u8 list list" where
  "frame_lines pfmt n i fs = map (\<lambda>(j, fp, lr). frame_line pfmt j fp lr) (zip [i..<i + n] fs)"

lemma walk_chain:
  assumes "fp_chain peek fp fs" and "pfmt_ok pfmt"
  shows "walk_frames pfmt peek n i fp = (frame_lines pfmt n i fs, None)"
  using assms
proof (induction arbitrary: n i rule: fp_chain.induct)
  case stop
  then show ?case by (cases n) (simp_all add: frame_lines_def)
next
  case (frame fp lr fp' fs)
  show ?case
  proof (cases n)
    case (Suc m)
    have "[i..<i + Suc m] = i # [Suc i..<Suc i + m]" by (simp add: upt_rec)
    then show ?thesis using frame Suc by (simp add: crash_slices frame_lines_def)
  qed (simp add: frame_lines_def)
qed

lemma walk_bounded:
  "pfmt_ok pfmt \<Longrightarrow> walk_frames pfmt peek n i fp = (out, e) \<Longrightarrow>
     length out \<le> n \<and> (\<forall>w \<in> set out. length w \<le> 60) \<and> e \<noteq> Some Abort"
proof (induction n arbitrary: i fp out e)
  case (Suc n)
  show ?case
  proof (cases "fp = 0 \<or> peek (fp + 8) = None \<or> peek fp = None")
    case True
    moreover have "length (frame_line pfmt i fp lr) \<le> 60" for lr
      using frame_line_length [OF Suc.prems(1), of i fp lr] by simp
    ultimately show ?thesis using Suc.prems by (auto simp: crash_slices split: option.splits if_splits)
  next
    case False
    then obtain lr fp' where m: "fp \<noteq> 0" "peek (fp + 8) = Some lr" "peek fp = Some fp'" by auto
    obtain out' e' where rest: "walk_frames pfmt peek n (Suc i) fp' = (out', e')" by fastforce
    then have "out = frame_line pfmt i fp lr # out'" "e = e'"
      using Suc.prems m by (simp_all add: crash_slices)
    then show ?thesis
      using Suc.IH [OF Suc.prems(1) rest] frame_line_length [OF Suc.prems(1), of i fp lr] by auto
  qed
qed simp

text \<open>
  C34. A crash report is finite whatever the memory of the crashed process holds, a cyclic chain of
  frames included: at most 17 lines of at most 60 bytes, and the handler never runs over
  its buffer. If the chain of frames is intact the report shows its first sixteen frames
  in order, and the process ends with status 128 plus the signal.
\<close>

theorem crash_report:
  assumes "pfmt_ok pfmt"
  shows "length (fst (crash_handler pfmt peek sig addr fp)) \<le> 17
    \<and> (\<forall>w \<in> set (fst (crash_handler pfmt peek sig addr fp)). length w \<le> 60)
    \<and> snd (crash_handler pfmt peek sig addr fp) \<noteq> Abort
    \<and> (fp_chain peek fp fs \<longrightarrow>
        crash_handler pfmt peek sig addr fp =
          (crash_line pfmt sig addr # frame_lines pfmt 16 0 fs, Exit_status (128 + sig)))"
proof -
  obtain out e where w: "walk_frames pfmt peek 16 0 fp = (out, e)" by fastforce
  have ch: "crash_handler pfmt peek sig addr fp =
      (crash_line pfmt sig addr # out, case e of Some stop \<Rightarrow> stop | None \<Rightarrow> Exit_status (128 + sig))"
    using w by (simp add: crash_handler_def crash_slices [OF assms])
  have "fp_chain peek fp fs \<longrightarrow> out = frame_lines pfmt 16 0 fs \<and> e = None"
    using walk_chain [of peek fp fs pfmt 16 0] w assms by auto
  then show ?thesis
    using walk_bounded [OF assms w] crash_line_length [OF assms, of sig addr]
    by (auto simp: ch split: option.split)
qed

text \<open>A process that crashes by signal 11 with one frame on its stack.\<close>

definition demo_peek :: "usize \<Rightarrow> u64 option" where
  "demo_peek a = (if a = 0x1000 then Some 0 else if a = 0x1008 then Some 0x4000 else None)"

theorem crash_report_witness:
  "pfmt_ok (\<lambda>p. [48, 120]) \<and> fp_chain demo_peek 0x1000 [(0x1000, 0x4000)]
   \<and> snd (crash_handler (\<lambda>p. [48, 120]) demo_peek 11 0 0x1000) = Exit_status 139"
proof -
  have ok: "pfmt_ok (\<lambda>p. [48, 120])" by (simp add: pfmt_ok_def)
  have chain: "fp_chain demo_peek 0x1000 [(0x1000, 0x4000)]"
    by (rule fp_chain.frame [where fp' = 0]) (simp_all add: demo_peek_def fp_chain.stop)
  show ?thesis using crash_report [OF ok, of demo_peek 11 0 "0x1000" "[(0x1000, 0x4000)]"] ok chain by simp
qed

theorem enabled_for_good_witness:
  "startup_enabled (snd (startup_enabled (vproc_auto_enable
      \<lparr>environ = [], VPROC_ENABLED = - 1, CRASH_HANDLER_INSTALLED = False, dispositions = []\<rparr>)))
    = (True, snd (startup_enabled (vproc_auto_enable
      \<lparr>environ = [], VPROC_ENABLED = - 1, CRASH_HANDLER_INSTALLED = False, dispositions = []\<rparr>)))"
  using enabled_for_good [OF _ rtranclp.rtrancl_refl,
      of "\<lparr>environ = [], VPROC_ENABLED = - 1, CRASH_HANDLER_INSTALLED = False, dispositions = []\<rparr>"]
  by (simp add: startup_init_def)

section \<open>Laws of the ownership tags and of the memory tagging query\<close>

interpretation fdsan_cell: once_cell FUNCS fdsan_funcs
  by unfold_locales (auto simp: fdsan_funcs_def Let_def)

interpretation mte_cell: once_cell "\<lambda>c. if 0 \<le> sint c then Some (c \<noteq> 0) else None" mte_available
  by unfold_locales (auto simp: mte_available_def Let_def split: if_splits)

text \<open>The documented effect of exchanging a tag: it happens if the expected tag is the current one.\<close>

definition fdsan_ok :: "(usize \<Rightarrow> c_int \<Rightarrow> 't \<Rightarrow> u64) \<Rightarrow> (usize \<Rightarrow> c_int \<Rightarrow> u64 \<Rightarrow> u64 \<Rightarrow> 't \<Rightarrow> 't) \<Rightarrow> bool" where
  "fdsan_ok get exchange \<longleftrightarrow> (\<forall>gt et fd fd' old new t.
     get gt fd' (exchange et fd old new t) = (if fd' = fd \<and> get gt fd t = old then new else get gt fd' t))"

lemma fdsan_clears:
  assumes "fdsan_ok get exchange" and "FUNCS s = Some (Some gt, Some et)"
  shows "get gt fd' (tags (fdsan_clear_tag dlsym get exchange fd s)) = (if fd' = fd then 0 else get gt fd' (tags s))"
  using assms by (auto simp: fdsan_clear_tag_def fdsan_funcs_def fdsan_ok_def Let_def)

lemma fdsan_without_functions:
  assumes "FUNCS s = None" and "dlsym (bytes_of ''android_fdsan_get_fd_tag'') = 0"
  shows "tags (fold (fdsan_clear_tag dlsym get exchange) nums s) = tags s"
proof -
  have none: "FUNCS s' = Some (None, et) \<Longrightarrow> fold (fdsan_clear_tag dlsym get exchange) nums s' = s'" for s' et nums
    by (induction nums) (simp_all add: fdsan_clear_tag_def fdsan_funcs_def)
  show ?thesis
  proof (cases nums)
    case (Cons fd rest)
    have "\<exists>et. FUNCS (fdsan_clear_tag dlsym get exchange fd s) = Some (None, et)"
      and "tags (fdsan_clear_tag dlsym get exchange fd s) = tags s"
      using assms by (simp_all add: fdsan_clear_tag_def fdsan_funcs_def non_null_def Let_def)
    then show ?thesis using none Cons by auto
  qed simp
qed

end
