(* ===== verification/Examples.thy ===== *)
theory Examples
  imports Ffi_Laws
begin

text \<open>
  Programs written against the crate's own interface: the process layer of
  \<^verbatim>\<open>src/examples/fork_sim.rs\<close> (fork and wait on top of \<^verbatim>\<open>spawn\<close> and \<^verbatim>\<open>yield\<close>), the fork of
  \<^verbatim>\<open>src/examples/fork_exec_demo.rs\<close> and the writer and reader of \<^verbatim>\<open>src/examples/pipe_demo.rs\<close>. What
  they print is left out. Laws: process ids are fresh, a wait returns with the child's code
  once the child is done, the fork of the demonstration agrees with \<^verbatim>\<open>vproc_ffi_fork\<close> except for
  the mark of the child, and the reader gets what the writer wrote under every schedule.
\<close>

section \<open>Fork and wait of \<^verbatim>\<open>fork_sim.rs\<close>\<close>

record ChildInfo =
  ci_done :: bool
  ci_exit_code :: c_int

record VirtualProc =
  vp_next_pid :: VPid
  vp_children :: "(VPid, ChildInfo) hmap"

definition VP_init :: VirtualProc where
  "VP_init = \<lparr>vp_next_pid = 10000, vp_children = []\<rparr>"

text \<open>The thread-local \<^verbatim>\<open>VP\<close> beside the runtime.\<close>

record fsim =
  fvp :: VirtualProc
  fsys :: sys

definition add_child :: "VirtualProc \<Rightarrow> VPid \<times> VirtualProc" where
  "add_child v =
     (vp_next_pid v,
      v\<lparr>vp_next_pid := vp_next_pid v + 1,
        vp_children := hm_insert (vp_next_pid v) \<lparr>ci_done = False, ci_exit_code = 0\<rparr> (vp_children v)\<rparr>)"

text \<open>\<open>f\<close> is the closure given to \<^verbatim>\<open>spawn\<close>, which runs the child and then \<open>child_end\<close>.\<close>

definition virtual_fork :: "nat \<Rightarrow> handle option \<Rightarrow> fsim \<Rightarrow> (VPid \<times> fsim) option" where
  "virtual_fork f mco st =
     (let (child_pid, v) = add_child (fvp st)
      in map_option (\<lambda>(pid, s). (child_pid, \<lparr>fvp = v, fsys = s\<rparr>)) (lib_spawn f mco (fsys st)))"

definition child_end :: "VPid \<Rightarrow> VirtualProc \<Rightarrow> VirtualProc" where
  "child_end child_pid v = v\<lparr>vp_children := hm_modify child_pid (\<lambda>info. info\<lparr>ci_done := True\<rparr>) (vp_children v)\<rparr>"

definition wait_look :: "VPid \<Rightarrow> VirtualProc \<Rightarrow> c_int round" where
  "wait_look pid v =
     (case hm_get (vp_children v) pid of
        Some info \<Rightarrow> if ci_done info then Return (ci_exit_code info) else Yield
      | None \<Rightarrow> Return (- 1))"

text \<open>
  The loop, for at most \<open>n\<close> rounds. \<open>others i\<close> is what the other coroutines do during the \<open>i\<close>-th
  switch.
\<close>

definition sim_yield ::
  "(handle \<Rightarrow> sys \<Rightarrow> sys \<times> bool) \<Rightarrow> (nat \<Rightarrow> fsim \<Rightarrow> fsim) \<Rightarrow> nat \<Rightarrow> fsim \<Rightarrow> fsim option" where
  "sim_yield run others i st = map_option (\<lambda>s. others i (st\<lparr>fsys := s\<rparr>)) (lib_yield run (fsys st))"

fun virtual_waitpid ::
  "(handle \<Rightarrow> sys \<Rightarrow> sys \<times> bool) \<Rightarrow> (nat \<Rightarrow> fsim \<Rightarrow> fsim) \<Rightarrow> nat \<Rightarrow> nat \<Rightarrow> VPid \<Rightarrow> fsim \<Rightarrow> (c_int \<times> fsim) option" where
  "virtual_waitpid run others 0 i pid st = None"
| "virtual_waitpid run others (Suc n) i pid st =
     (case wait_look pid (fvp st) of
        Return code \<Rightarrow> Some (code, st)
      | _ \<Rightarrow> Option.bind (sim_yield run others i st) (virtual_waitpid run others n (Suc i) pid))"

section \<open>Fork of \<^verbatim>\<open>fork_exec_demo.rs\<close>\<close>

definition demo_fork_begin :: "nat \<Rightarrow> handle option \<Rightarrow> sys \<Rightarrow> (u32 round \<times> sys) option" where
  "demo_fork_begin f mco s =
     (if \<not> ex_set s then None
      else Option.bind (current (ex s)) (\<lambda>pid.
           Option.bind (hm_get (vprocs (ex s)) pid) (\<lambda>c.
             if is_fork_child c
             then Some (Return 0, with_vprocs (hm_modify pid (\<lambda>c. c\<lparr>is_fork_child := False\<rparr>)) s)
             else map_option (\<lambda>(h, s). (Yield, s)) (lib_spawn_front f mco s))))"

definition demo_fork_resume :: "sys \<Rightarrow> u32 option" where
  "demo_fork_resume s =
     (if \<not> ex_set s then None
      else Option.bind (current (ex s)) (\<lambda>pid. map_option fork_child_pid (hm_get (vprocs (ex s)) pid)))"

definition wait_child_look :: "VPid \<Rightarrow> sys \<Rightarrow> c_int round" where
  "wait_child_look pid s = (case lib_get_exit_code pid s of Some code \<Rightarrow> Return code | None \<Rightarrow> Yield)"

section \<open>Writer and reader of \<^verbatim>\<open>pipe_demo.rs\<close>\<close>

text \<open>
  The shared buffer, whether the writer is done, and what the reader printed. One step is a
  round of one of the two loops; a loop that is over does nothing.
\<close>

record pipe_demo =
  pd_buf :: pipe_buffer
  pd_written :: bool
  pd_got :: "u8 list option"

definition pd_msg :: "u8 list" where
  "pd_msg = bytes_of ''hello pipe!'' @ [10]"

definition writer_round :: "pipe_demo \<Rightarrow> pipe_demo option" where
  "writer_round d =
     (if pd_written d then Some d
      else map_option (\<lambda>(n, b). d\<lparr>pd_buf := b, pd_written := 0 < n\<rparr>) (write_to (pd_buf d) pd_msg))"

definition reader_round :: "pipe_demo \<Rightarrow> pipe_demo option" where
  "reader_round d =
     (if pd_got d \<noteq> None then Some d
      else map_option (\<lambda>(n, data, b). d\<lparr>pd_buf := b, pd_got := if 0 < n then Some (take (nat n) data) else None\<rparr>)
             (read_from (pd_buf d) (replicate 64 0)))"

text \<open>A schedule says for each turn whether the writer runs.\<close>

fun pipe_demo_run :: "bool list \<Rightarrow> pipe_demo \<Rightarrow> pipe_demo option" where
  "pipe_demo_run [] d = Some d"
| "pipe_demo_run (wr # sched) d =
     Option.bind (if wr then writer_round d else reader_round d) (pipe_demo_run sched)"

definition pipe_demo_init :: pipe_demo where
  "pipe_demo_init = \<lparr>pd_buf = pipe_new, pd_written = False, pd_got = None\<rparr>"

section \<open>Running everything: \<^verbatim>\<open>stress.rs\<close>\<close>

text \<open>\<^verbatim>\<open>block_on_all\<close> of \<^verbatim>\<open>src/src/lib.rs\<close> has an empty body.\<close>

definition block_on_all :: "sys \<Rightarrow> sys" where
  "block_on_all s = s"

fun spawn_n :: "nat \<Rightarrow> (nat \<Rightarrow> handle option) \<Rightarrow> sys \<Rightarrow> sys option" where
  "spawn_n 0 mco s = Some s"
| "spawn_n (Suc n) mco s = Option.bind (lib_spawn n (mco n) s) (\<lambda>(pid, s). spawn_n n mco s)"

definition stress_main :: "nat \<Rightarrow> (nat \<Rightarrow> handle option) \<Rightarrow> sys \<Rightarrow> sys option" where
  "stress_main n mco s = map_option block_on_all (spawn_n n mco s)"

section \<open>Laws of \<^verbatim>\<open>fork_sim.rs\<close>\<close>

text \<open>
  What any coroutine of the program does to \<^verbatim>\<open>VP\<close>: fork, as long as ids are left, and end.
\<close>

inductive sim_step :: "VirtualProc \<Rightarrow> VirtualProc \<Rightarrow> bool" where
  forks: "vp_next_pid v \<noteq> - 1 \<Longrightarrow> sim_step v (snd (add_child v))"
| ends: "sim_step v (child_end pid v)"

definition sim_ok :: "VirtualProc \<Rightarrow> bool" where
  "sim_ok v \<longleftrightarrow> (\<forall>pid info. hm_get (vp_children v) pid = Some info \<longrightarrow>
     10000 \<le> pid \<and> pid < vp_next_pid v \<and> ci_exit_code info = 0) \<and> 10000 \<le> vp_next_pid v"

lemma sim_ok_fork: "sim_ok v \<Longrightarrow> vp_next_pid v \<noteq> - 1 \<Longrightarrow> sim_ok (snd (add_child v))"
  using word_less_succ [of "vp_next_pid v"]
  by (auto simp: sim_ok_def add_child_def split: if_splits dest: order_less_trans)

interpretation fork_sim: transition_system "\<lambda>v. v = VP_init" sim_step sim_ok
proof
  fix v v' :: VirtualProc
  assume ok: "sim_ok v" and st: "sim_step v v'"
  from st show "sim_ok v'"
  proof (cases rule: sim_step.cases)
    case (ends pid)
    then show ?thesis using ok by (auto simp: sim_ok_def child_end_def split: if_splits)
  qed (simp add: sim_ok_fork ok)
qed (simp add: sim_ok_def VP_init_def)

text \<open>A child stays known, and done once it is done, whatever the others do.\<close>

definition child_at :: "VPid \<Rightarrow> bool \<Rightarrow> VirtualProc \<Rightarrow> bool" where
  "child_at pid fin v \<longleftrightarrow>
     (\<exists>info. hm_get (vp_children v) pid = Some info \<and> ci_exit_code info = 0 \<and> (fin \<longrightarrow> ci_done info))"

lemma sim_fresh: "sim_ok v \<Longrightarrow> hm_get (vp_children v) (vp_next_pid v) = None"
  by (cases "hm_get (vp_children v) (vp_next_pid v)") (auto simp: sim_ok_def)

lemma child_at_step: "sim_ok v \<Longrightarrow> sim_step v v' \<Longrightarrow> child_at pid fin v \<Longrightarrow> child_at pid fin v'"
  by (auto simp: child_at_def sim_fresh add_child_def child_end_def elim!: sim_step.cases)

lemma child_at_run: "sim_step\<^sup>*\<^sup>* v v' \<Longrightarrow> sim_ok v \<Longrightarrow> child_at pid fin v \<Longrightarrow> child_at pid fin v'"
proof (induction rule: rtranclp_induct)
  case (step v1 v2)
  then show ?case using child_at_step fork_sim.run_inv by blast
qed simp

text \<open>
  The other coroutines of the program: they change \<^verbatim>\<open>VP\<close> by forking and ending only, and the
  waiting coroutine is the running one again afterwards.
\<close>

definition sim_others_ok :: "(nat \<Rightarrow> fsim \<Rightarrow> fsim) \<Rightarrow> bool" where
  "sim_others_ok others \<longleftrightarrow> (\<forall>i st. sim_step\<^sup>*\<^sup>* (fvp st) (fvp (others i st)) \<and> mco_running (fsys (others i st)) \<noteq> None)"

lemma lib_yield_inside: "mco_running s \<noteq> None \<Longrightarrow> \<exists>s'. lib_yield run s = Some s'"
  by (auto simp: lib_yield_def do_yield_def)

lemma sim_yield_inside:
  assumes "sim_others_ok others" and "mco_running (fsys st) \<noteq> None"
  shows "\<exists>st'. sim_yield run others i st = Some st' \<and> sim_step\<^sup>*\<^sup>* (fvp st) (fvp st') \<and> mco_running (fsys st') \<noteq> None"
proof -
  obtain s where s: "lib_yield run (fsys st) = Some s" using lib_yield_inside assms(2) by blast
  let ?st = "others i (st\<lparr>fsys := s\<rparr>)"
  have "sim_step\<^sup>*\<^sup>* (fvp (st\<lparr>fsys := s\<rparr>)) (fvp ?st) \<and> mco_running (fsys ?st) \<noteq> None"
    using assms(1) unfolding sim_others_ok_def by blast
  then show ?thesis using s by (auto simp: sim_yield_def)
qed

text \<open>The state in which the \<open>i\<close>-th round of the wait starts, if the earlier ones switched.\<close>

fun round_state ::
  "(handle \<Rightarrow> sys \<Rightarrow> sys \<times> bool) \<Rightarrow> (nat \<Rightarrow> fsim \<Rightarrow> fsim) \<Rightarrow> nat \<Rightarrow> nat \<Rightarrow> fsim \<Rightarrow> fsim option" where
  "round_state run others 0 i st = Some st"
| "round_state run others (Suc k) i st = Option.bind (sim_yield run others i st) (round_state run others k (Suc i))"

lemma wait_exact:
  assumes "sim_others_ok others" and "mco_running (fsys st) \<noteq> None" and "sim_ok (fvp st)"
    and "child_at pid False (fvp st)"
    and "round_state run others k i st = Some st'" and "child_at pid True (fvp st')"
    and "\<forall>j < k. \<forall>s. round_state run others j i st = Some s \<longrightarrow> \<not> child_at pid True (fvp s)"
  shows "virtual_waitpid run others (Suc k) i pid st = Some (0, st') \<and>
    (\<forall>n \<le> k. virtual_waitpid run others n i pid st = None)"
  using assms
proof (induction k arbitrary: i st)
  case 0
  then show ?case by (auto simp: wait_look_def child_at_def)
next
  case (Suc k)
  have "\<not> child_at pid True (fvp st)" using Suc.prems(7) by (auto dest: spec [of _ 0])
  then obtain info where info: "hm_get (vp_children (fvp st)) pid = Some info" "\<not> ci_done info"
    using Suc.prems(4) by (auto simp: child_at_def)
  obtain st1 where st1: "sim_yield run others i st = Some st1" "sim_step\<^sup>*\<^sup>* (fvp st) (fvp st1)"
      "mco_running (fsys st1) \<noteq> None"
    using sim_yield_inside [OF Suc.prems(1,2)] by blast
  have look: "virtual_waitpid run others (Suc n) i pid st = virtual_waitpid run others n (Suc i) pid st1" for n
    using info st1(1) by (simp add: wait_look_def)
  have "sim_ok (fvp st1)" using fork_sim.run_inv [OF st1(2) Suc.prems(3)] .
  moreover have "child_at pid False (fvp st1)" using child_at_run [OF st1(2) Suc.prems(3,4)] .
  moreover have "round_state run others k (Suc i) st1 = Some st'" using Suc.prems(5) st1(1) by simp
  moreover have "\<not> child_at pid True (fvp s)" if "j < k" "round_state run others j (Suc i) st1 = Some s" for j s
    using Suc.prems(7) st1(1) that by (auto dest: spec [of _ "Suc j"])
  ultimately have IH: "virtual_waitpid run others (Suc k) (Suc i) pid st1 = Some (0, st') \<and>
      (\<forall>n \<le> k. virtual_waitpid run others n (Suc i) pid st1 = None)"
    using Suc.IH [OF Suc.prems(1) st1(3) _ _ _ Suc.prems(6)] by (simp del: virtual_waitpid.simps)
  have "virtual_waitpid run others n i pid st = None" if "n \<le> Suc k" for n
    using that IH look [of "n - 1"] by (cases n) (simp_all del: virtual_waitpid.simps(2))
  moreover have "virtual_waitpid run others (Suc (Suc k)) i pid st = Some (0, st')"
    using IH look [of "Suc k"] by (simp only:)
  ultimately show ?case by (simp only:) simp
qed

text \<open>
  C35. In \<^verbatim>\<open>fork_sim\<close>, a fork returns an id no child had before. If the child is found done for the
  first time in round \<open>k\<close> of a wait for it, whatever the other coroutines fork and end meanwhile, the
  wait returns 0 in exactly that round: it has not returned after \<open>k\<close> or fewer rounds, and it
  returns then with nothing changed since. Waiting again returns 0 at once, and waiting for an id
  that was never given out returns -1 at once.
\<close>

theorem fork_sim_wait:
  assumes "sim_step\<^sup>*\<^sup>* VP_init (fvp st)" and "vp_next_pid (fvp st) \<noteq> - 1"
    and "virtual_fork f mco st = Some (pid, st1)" and "mco_running (fsys st1) \<noteq> None" and "sim_others_ok others"
    and "round_state run others k 0 st1 = Some st'" and "child_at pid True (fvp st')"
    and "\<forall>j < k. \<forall>s. round_state run others j 0 st1 = Some s \<longrightarrow> \<not> child_at pid True (fvp s)"
  shows "hm_get (vp_children (fvp st)) pid = None
    \<and> virtual_waitpid run others (Suc k) 0 pid st1 = Some (0, st')
    \<and> (\<forall>n \<le> k. virtual_waitpid run others n 0 pid st1 = None)
    \<and> virtual_waitpid run others (Suc 0) 0 pid st' = Some (0, st')
    \<and> virtual_waitpid run others (Suc 0) 0 (vp_next_pid (fvp st1)) st1 = Some (- 1, st1)"
proof -
  have ok: "sim_ok (fvp st)" using fork_sim.reachable_inv [OF refl assms(1)] .
  have eqs: "pid = vp_next_pid (fvp st)" "fvp st1 = snd (add_child (fvp st))"
    using assms(3) by (auto simp: virtual_fork_def add_child_def)
  have ok1: "sim_ok (fvp st1)" using sim_ok_fork [OF ok assms(2)] eqs(2) by simp
  have "child_at pid False (fvp st1)" using eqs by (simp add: child_at_def add_child_def)
  note waited = wait_exact [OF assms(5,4) ok1 this assms(6-8)]
  have "hm_get (vp_children (fvp st)) pid = None"
    using sim_fresh [OF ok] eqs(1) by simp
  moreover have "virtual_waitpid run others (Suc 0) 0 (vp_next_pid (fvp st1)) st1 = Some (- 1, st1)"
    using sim_fresh [OF ok1] by (simp add: wait_look_def)
  moreover have "virtual_waitpid run others (Suc 0) 0 pid st' = Some (0, st')"
    using assms(7) by (auto simp: child_at_def wait_look_def)
  ultimately show ?thesis using waited by blast
qed

text \<open>One child that ends while its parent waits.\<close>

definition sim_demo :: fsim where
  "sim_demo = \<lparr>fvp = VP_init, fsys = sys_one\<lparr>mco_running := Some 0\<rparr>\<rparr>"

definition sim_demo_others :: "nat \<Rightarrow> fsim \<Rightarrow> fsim" where
  "sim_demo_others i st = st\<lparr>fvp := child_end 10000 (fvp st), fsys := (fsys st)\<lparr>mco_running := Some 0\<rparr>\<rparr>"

lemma sim_demo_others_ok: "sim_others_ok sim_demo_others"
  using sim_step.ends by (auto simp: sim_others_ok_def sim_demo_others_def)

lemma sim_demo_fork:
  "\<exists>st1. virtual_fork 5 (Some 9) sim_demo = Some (10000, st1) \<and> mco_running (fsys st1) = Some 0 \<and>
     fvp st1 = snd (add_child VP_init)"
  using sys_one_facts
  by (simp add: virtual_fork_def sim_demo_def add_child_def VP_init_def lib_spawn_def spawn_def coroutine_new_def
      bump_pid_def with_queue_def insert_vproc_def with_vprocs_def emit_def Let_def split: option.split)

theorem fork_sim_wait_witness:
  "\<exists>st1. virtual_fork 5 (Some 9) sim_demo = Some (10000, st1) \<and>
     virtual_waitpid (\<lambda>h s. (s, False)) sim_demo_others 1 0 10000 st1 = None \<and>
     (\<exists>st2. virtual_waitpid (\<lambda>h s. (s, False)) sim_demo_others 2 0 10000 st1 = Some (0, st2))"
proof -
  obtain st1 where st1: "virtual_fork 5 (Some 9) sim_demo = Some (10000, st1)" "mco_running (fsys st1) = Some 0"
      "fvp st1 = snd (add_child VP_init)"
    using sim_demo_fork by blast
  then have m: "mco_running (fsys st1) \<noteq> None" by simp
  let ?run = "\<lambda>h s. (s, False)"
  obtain s where s: "lib_yield ?run (fsys st1) = Some s" using lib_yield_inside [OF m] by blast
  define st' where "st' = sim_demo_others 0 (st1\<lparr>fsys := s\<rparr>)"
  have "round_state ?run sim_demo_others 1 0 st1 = Some st'"
    using s by (simp add: sim_yield_def st'_def)
  moreover have "child_at 10000 True (fvp st')"
    using st1(3) by (simp add: st'_def sim_demo_others_def child_end_def child_at_def add_child_def VP_init_def)
  moreover have "\<forall>j < 1. \<forall>s. round_state ?run sim_demo_others j 0 st1 = Some s \<longrightarrow> \<not> child_at 10000 True (fvp s)"
    using st1(3) by (simp add: child_at_def add_child_def VP_init_def)
  moreover have "sim_step\<^sup>*\<^sup>* VP_init (fvp sim_demo)" "vp_next_pid (fvp sim_demo) \<noteq> - 1"
    by (simp_all add: sim_demo_def) (simp add: VP_init_def)
  ultimately have "virtual_waitpid ?run sim_demo_others (Suc 1) 0 10000 st1 = Some (0, st')"
    "\<forall>n \<le> 1. virtual_waitpid ?run sim_demo_others n 0 10000 st1 = None"
    using fork_sim_wait [OF _ _ st1(1) m sim_demo_others_ok] by blast+
  then show ?thesis using st1(1) by (intro exI [of _ st1]) (simp add: numeral_2_eq_2 del: virtual_waitpid.simps)
qed

section \<open>Laws of \<^verbatim>\<open>fork_exec_demo.rs\<close>\<close>

text \<open>Up to the saved return address the first phase is that of \<^verbatim>\<open>vproc_ffi_fork\<close>.\<close>

lemma demo_fork_begin_is_ffi:
  "map_option fst (fork_begin lr f mco s) = map_option fst (demo_fork_begin f mco s)"
proof -
  have "map_option (\<lambda>(h, s). Yield) (lib_spawn_front f mco (s\<lparr>ex := (ex s)\<lparr>saved_fork_lr := Some lr\<rparr>\<rparr>)) =
      map_option (\<lambda>(h, s). (Yield :: u32 round)) (lib_spawn_front f mco s)"
    by (cases mco) (simp_all add: lib_spawn_front_def spawn_front_def bump_pid_def coroutine_new_def)
  then show ?thesis
    by (auto simp: fork_begin_def demo_fork_begin_def option.map_comp comp_def case_prod_unfold split: option.splits bind_split)
qed

text \<open>
  The fork of the demonstration leaves its mark on the child: after the parent got the id of
  the child and the child 0, the first fork the child calls itself returns 0 to it at once
  although no process was created. \<^verbatim>\<open>vproc_ffi_fork\<close> clears the mark when it returns.
\<close>

theorem demo_fork_marks_child:
  assumes "exec_ok (ex s)" and "ex_set s" and "hm_get (vprocs (ex s)) p = Some c" and "child = next_pid (ex s)"
    and "spawn_fork_child p (Some h) s = Some (child, s1)"
  shows "demo_fork_resume (set_current (Some p) s1) = Some child
    \<and> demo_fork_resume (set_current (Some child) s1) = Some 0
    \<and> (\<exists>s2. demo_fork_begin f mco (set_current (Some child) s1) = Some (Return 0, s2)
        \<and> next_pid (ex s2) = next_pid (ex s1) \<and> ready_queue (ex s2) = ready_queue (ex s1)
        \<and> hm_keys (vprocs (ex s2)) = hm_keys (vprocs (ex s1)))"
proof -
  have ne: "p \<noteq> child" using exec_okD(3) [OF assms(1,3)] assms(4) by auto
  obtain k where k: "hm_get (vprocs (ex s1)) child = Some k" "is_fork_child k" "fork_child_pid k = 0"
      "hm_get (vprocs (ex s1)) p = Some (c\<lparr>fork_child_pid := child\<rparr>)" "ex_set s1"
    using assms(2,5) spawn_fork_child_eq [OF assms(1,3), of "Some h"] assms(3,4) ne by auto
  have keys: "hm_keys (hm_modify child g m) = hm_keys m" if "hm_get m child \<noteq> None"
    for g :: "Coroutine \<Rightarrow> Coroutine" and m
    using that by (auto simp: hm_modify_def hm_keys_def hm_insert_def hm_get_def update_keys map_of_eq_None_iff
        split: option.split)
  show ?thesis using k keys by (simp add: demo_fork_resume_def demo_fork_begin_def set_current_def with_vprocs_def)
qed

section \<open>Laws of \<^verbatim>\<open>pipe_demo.rs\<close>\<close>

text \<open>Before, between and after the writer's and the reader's success.\<close>

definition pd_inv :: "pipe_demo \<Rightarrow> bool" where
  "pd_inv d \<longleftrightarrow> pipe_ok (pd_buf d) \<and> \<not> closed (pd_buf d) \<and>
     pipe_contents (pd_buf d) = (if pd_written d \<and> pd_got d = None then pd_msg else []) \<and>
     (pd_got d \<noteq> None \<longrightarrow> pd_written d \<and> pd_got d = Some pd_msg)"

lemma pd_msg_length: "length pd_msg = 12"
  by (simp add: pd_msg_def bytes_of_def)

lemma writer_round_inv:
  assumes "pd_inv d"
  shows "\<exists>d'. writer_round d = Some d' \<and> pd_inv d' \<and> pd_written d' \<and> pd_got d' = pd_got d"
proof (cases "pd_written d")
  case True
  then show ?thesis using assms by (simp add: writer_round_def)
next
  case False
  then have e: "pipe_contents (pd_buf d) = []" "pd_got d = None" using assms by (auto simp: pd_inv_def)
  obtain q n where w: "write_to (pd_buf d) pd_msg = Some (n, q)"
    using write_to_no_panic assms by (fastforce simp: pd_inv_def)
  have "pipe_ok q" and "fifo_write_spec PIPE_CAPACITY (pipe_abs (pd_buf d)) pd_msg = (n, pipe_abs q)"
    using write_to_result [OF _ w] assms by (simp_all add: pd_inv_def)
  then have "pipe_ok q" "n = 12" "pipe_contents q = pd_msg" "\<not> closed q"
    using assms e pd_msg_length by (auto simp: pipe_abs_def pd_inv_def Let_def PIPE_CAPACITY_def)
  then show ?thesis using w e(2) False by (simp add: writer_round_def pd_inv_def)
qed

lemma reader_round_inv:
  assumes "pd_inv d"
  shows "\<exists>d'. reader_round d = Some d' \<and> pd_inv d' \<and> pd_written d' = pd_written d \<and> (pd_written d \<longrightarrow> pd_got d' = Some pd_msg)"
proof (cases "pd_got d")
  case (Some g)
  then show ?thesis using assms by (simp add: reader_round_def pd_inv_def)
next
  case None
  obtain q n data where r: "read_from (pd_buf d) (replicate 64 0) = Some (n, data, q)"
    using read_from_no_panic assms by (fastforce simp: pd_inv_def)
  have q: "pipe_ok q" and spec: "fifo_read_spec (pipe_abs (pd_buf d)) (replicate 64 0) = (n, data, pipe_abs q)"
    using read_from_result [OF _ r] assms by (simp_all add: pd_inv_def)
  show ?thesis
  proof (cases "pd_written d")
    case True
    then have c: "pipe_contents (pd_buf d) = pd_msg" using assms None by (simp add: pd_inv_def)
    have ne: "pd_msg \<noteq> []" using pd_msg_length by auto
    have "n = 12" "take 12 data = pd_msg" "pipe_contents q = []" "\<not> closed q"
      using spec c ne assms by (auto simp: pipe_abs_def pd_inv_def pd_msg_length)
    then show ?thesis using r q True None by (simp add: reader_round_def pd_inv_def)
  next
    case False
    then have c: "pipe_contents (pd_buf d) = []" using assms None by (simp add: pd_inv_def)
    have "n = - 1" "pipe_contents q = []" "\<not> closed q"
      using spec c assms by (auto simp: pipe_abs_def pd_inv_def)
    then show ?thesis using r q False None by (simp add: reader_round_def pd_inv_def)
  qed
qed

lemma pipe_demo_round_inv:
  assumes "pd_inv d"
  shows "\<exists>d'. (if wr then writer_round d else reader_round d) = Some d' \<and> pd_inv d' \<and>
    (pd_written d \<longrightarrow> pd_written d') \<and> (pd_got d \<noteq> None \<longrightarrow> pd_got d' \<noteq> None)"
proof (cases wr)
  case True
  then show ?thesis using writer_round_inv [OF assms] by auto
next
  case False
  moreover have "pd_got d \<noteq> None \<longrightarrow> pd_written d" using assms by (simp add: pd_inv_def)
  ultimately show ?thesis using reader_round_inv [OF assms] by auto
qed

lemma pipe_demo_run_inv:
  "pd_inv d \<Longrightarrow> \<exists>d'. pipe_demo_run sched d = Some d' \<and> pd_inv d' \<and>
     (pd_written d \<longrightarrow> pd_written d') \<and> (pd_got d \<noteq> None \<longrightarrow> pd_got d' \<noteq> None)"
proof (induction sched arbitrary: d)
  case (Cons wr sched)
  obtain d1 where d1: "(if wr then writer_round d else reader_round d) = Some d1" "pd_inv d1"
      "pd_written d \<longrightarrow> pd_written d1" "pd_got d \<noteq> None \<longrightarrow> pd_got d1 \<noteq> None"
    using pipe_demo_round_inv [OF Cons.prems] by blast
  have "pipe_demo_run (wr # sched) d = pipe_demo_run sched d1" using d1(1) by simp
  then show ?case using Cons.IH [OF d1(2)] d1(3,4) by auto
qed simp

lemma pipe_demo_run_append:
  "pipe_demo_run (xs @ ys) d = Option.bind (pipe_demo_run xs d) (pipe_demo_run ys)"
  by (induction xs arbitrary: d) (auto split: bind_split)

text \<open>
  Under every schedule in which the writer of \<^verbatim>\<open>pipe_demo\<close> has a turn and the reader a later
  one, both loops end without a panic and the reader has exactly the bytes of the writer.
\<close>

theorem pipe_demo_delivers:
  "\<exists>d. pipe_demo_run (as @ True # bs @ False # cs) pipe_demo_init = Some d \<and> pd_written d \<and> pd_got d = Some pd_msg"
proof -
  have "pd_inv pipe_demo_init" by (simp add: pd_inv_def pipe_demo_init_def pipe_ok_new)
  then obtain d1 where d1: "pipe_demo_run as pipe_demo_init = Some d1" "pd_inv d1" using pipe_demo_run_inv by blast
  obtain d2 where d2: "writer_round d1 = Some d2" "pd_inv d2" "pd_written d2" using writer_round_inv [OF d1(2)] by blast
  obtain d3 where d3: "pipe_demo_run bs d2 = Some d3" "pd_inv d3" "pd_written d3"
    using pipe_demo_run_inv [OF d2(2)] d2(3) by blast
  obtain d4 where d4: "reader_round d3 = Some d4" "pd_inv d4" "pd_got d4 = Some pd_msg"
    using reader_round_inv [OF d3(2)] d3(3) by blast
  obtain d5 where d5: "pipe_demo_run cs d4 = Some d5" "pd_inv d5" "pd_got d5 \<noteq> None"
    using pipe_demo_run_inv [OF d4(2)] d4(3) by blast
  have "pipe_demo_run (as @ True # bs @ False # cs) pipe_demo_init = Some d5"
    using d1(1) d2(1) d3(1) d4(1) d5(1) by (simp add: pipe_demo_run_append)
  then show ?thesis using d5(2,3) by (auto simp: pd_inv_def)
qed

section \<open>Laws of \<^verbatim>\<open>stress.rs\<close>\<close>

text \<open>
  The examples never run their coroutines. On a thread without an executor, which is how
  \<^verbatim>\<open>main\<close> starts, the first \<^verbatim>\<open>spawn\<close> follows a null pointer; with one, \<^verbatim>\<open>block_on_all\<close> returns with
  every new coroutine still in the queue and no switch made.
\<close>

lemma lib_spawn_eq:
  assumes "lib_spawn f mco s = Some (pid, s1)"
  shows "ready_queue (ex s1) = ready_queue (ex s) @ [pid]" "switch_count (ex s1) = switch_count (ex s)" "ex_set s1 = ex_set s"
  using assms by (auto simp: lib_spawn_def spawn_def bump_pid_def with_queue_def insert_vproc_def with_vprocs_def
      emit_def split: if_splits option.splits)

lemma spawn_n_queues:
  "spawn_n n mco s = Some s1 \<Longrightarrow>
     length (ready_queue (ex s1)) = length (ready_queue (ex s)) + n \<and> switch_count (ex s1) = switch_count (ex s) \<and>
     ex_set s1 = ex_set s"
proof (induction n arbitrary: s)
  case (Suc n)
  then obtain pid s2 where "lib_spawn n (mco n) s = Some (pid, s2)" "spawn_n n mco s2 = Some s1"
    by (auto split: bind_splits)
  then show ?case using Suc.IH [of s2] lib_spawn_eq [of n "mco n" s pid s2] by simp
qed simp

lemma spawn_n_total: "ex_set s \<Longrightarrow> \<forall>i. mco i \<noteq> None \<Longrightarrow> \<exists>s1. spawn_n n mco s = Some s1"
proof (induction n arbitrary: s)
  case (Suc n)
  have "lib_spawn n (mco n) s \<noteq> None"
    using Suc.prems by (simp add: lib_spawn_def spawn_def bump_pid_def coroutine_new_def)
  then obtain pid s2 where s2: "lib_spawn n (mco n) s = Some (pid, s2)" by (metis not_Some_eq surj_pair)
  then show ?case using Suc.IH [of s2] Suc.prems lib_spawn_eq(3) [OF s2] by simp
qed simp

theorem examples_run_nothing:
  assumes "0 < n" and "\<forall>i. mco i \<noteq> None"
  shows "if ex_set s
    then \<exists>s1. stress_main n mco s = Some s1 \<and> length (ready_queue (ex s1)) = length (ready_queue (ex s)) + n \<and>
           lib_switch_count s1 = lib_switch_count s
    else stress_main n mco s = None"
proof (cases "ex_set s")
  case True
  then obtain s1 where s1: "spawn_n n mco s = Some s1" using spawn_n_total assms(2) by blast
  then show ?thesis using True spawn_n_queues [OF s1] by (simp add: stress_main_def block_on_all_def lib_switch_count_def)
next
  case False
  then show ?thesis using assms(1) by (cases n) (simp_all add: stress_main_def lib_spawn_def)
qed

end
