(* ===== verification/Spec2Isabelle.thy ===== *)
theory Spec2Isabelle
  imports Session_World Preload_Wait Startup_Laws Examples
begin

text \<open>
  Verification of vproc, a library that runs many virtual processes inside one real process
  on Android: every virtual process is a coroutine with its own process id, descriptor table
  and working directory, programs are started inside it by loading their ELF image, and
  the libc calls of these programs are intercepted.

  \<^bold>\<open>Parts of the program, and the theories that model them.\<close> All sources are under
  \<^verbatim>\<open>src/src/\<close>.

  \<^item> \<^verbatim>\<open>vfd.rs\<close>, descriptors. \<open>Pipe\<close>: the ring buffer of a virtual pipe. \<open>Vfd\<close>: one table per
    process (\<open>vfd_table\<close>, the operations of \<^verbatim>\<open>VfdTable\<close>) and the process-wide map of tables
    (\<open>fd_world\<close>); what an \<^verbatim>\<open>Arc\<close> points to lives in an explicit store, so that sharing
    after \<^verbatim>\<open>dup\<close> and \<^verbatim>\<open>fork\<close> is visible. Laws: \<open>Vfd_Laws\<close> (one table), \<open>Vfd_World\<close> (all tables as
    a transition system), \<open>Vfd_Posix\<close> (edge cases against POSIX).
  \<^item> \<^verbatim>\<open>coroutine.rs\<close> and \<^verbatim>\<open>executor.rs\<close>, processes. \<open>Coroutine\<close>: the \<^verbatim>\<open>Coroutine\<close> structure, its
    creation, resumption and destruction. \<open>Executor\<close>: the cooperative scheduler (spawn, fork,
    pick, step, signals, exit codes, reaping, waiting for I/O). Laws: \<open>Executor_Laws\<close> (each
    operation keeps the process table, the queue and the process tree in order), \<open>Scheduler\<close>
    (the scheduler as a transition system, fairness), \<open>Lifecycle\<close> (exit, kill, reap, wake,
    descriptor swap).
  \<^item> \<^verbatim>\<open>elf.rs\<close> and \<^verbatim>\<open>loader.rs\<close>, programs. \<open>Elf\<close>: the parser over a byte list. \<open>Loader\<close>: slots,
    segments, relocation and the auxiliary vector over an explicit address space. Laws:
    \<open>Elf_Laws\<close>, \<open>Loader_Laws\<close>, \<open>Elf_Stack\<close> (the initial stack).
  \<^item> \<^verbatim>\<open>vexec.rs\<close>, starting programs. \<open>Vexec_Mem\<close>: guarded stacks, snapshots of writable
    segments, patching of the global offset table, decoding of instructions. \<open>Vexec\<close>: the cache
    of binaries, the three loaders and \<^verbatim>\<open>virtual_execve\<close>. Laws: \<open>Vexec_Mem_Laws\<close>,
    \<open>Vexec_Laws\<close> (arguments), \<open>Exec_Laws\<close> (descriptors and exit status).
  \<^item> \<^verbatim>\<open>preload.rs\<close>, intercepted libc calls. \<open>Preload\<close>: paths, processes, signals. \<open>Preload_Fd\<close>:
    files, descriptors, \<^verbatim>\<open>read\<close>, \<^verbatim>\<open>write\<close>, \<^verbatim>\<open>poll\<close>, \<^verbatim>\<open>select\<close>. Laws: \<open>Preload_Paths\<close>, \<open>Preload_Laws\<close>,
    \<open>Preload_Wait\<close>.
  \<^item> \<^verbatim>\<open>preload.rs\<close>, first part: what is set up before any call. \<open>Startup\<close>: the library constructor
    and the switch \<^verbatim>\<open>VPROC\<close>, the crash handler, the cache of real libc functions, ownership
    tags of descriptors. Laws: \<open>Startup_Laws\<close>.
  \<^item> \<^verbatim>\<open>log.rs\<close>, logging. \<open>Log\<close>: finding the log library, writing a message, the diagnostics
    switch of \<^verbatim>\<open>vexec.rs\<close>, and their laws.
  \<^item> \<^verbatim>\<open>ffi.rs\<close> and \<^verbatim>\<open>lib.rs\<close>, the C interface. \<open>Ffi\<close>: the calls of a virtual process, among them
    \<^verbatim>\<open>vproc_ffi_fork\<close>, and the descriptor calls. \<open>Session\<close>: sessions, their driver threads and
    the calls of other threads, as programs of small steps. Laws: \<open>Ffi_Laws\<close>, \<open>Session_Laws\<close>
    (one session), \<open>Session_World\<close> (all threads together).
  \<^item> \<^verbatim>\<open>src/examples/\<close>, programs on top of the crate. \<open>Examples\<close>: fork and wait of \<^verbatim>\<open>fork_sim.rs\<close>, the
    fork of \<^verbatim>\<open>fork_exec_demo.rs\<close>, writer and reader of \<^verbatim>\<open>pipe_demo.rs\<close>, the main of \<^verbatim>\<open>stress.rs\<close>.

  \<open>Prelude\<close> holds the types, the hash map, generic lemmas and three interfaces that the others
  interpret: \<open>transition_system\<close> (an invariant kept by every step), \<open>bounded_call\<close> (a call
  whose steps count down unless it waits for a mutex) and \<open>once_cell\<close> (a value computed at its first use and then kept). \<open>Pipe\<close> states the contract of a bounded byte channel and \<open>Vfd_Laws\<close> that of
  a namespace of descriptors as locales, interpreted on the code's operations.

  \<^bold>\<open>How the parts interact.\<close> An executor runs one coroutine at a time. The state \<open>sys\<close> of a
  thread is its executor, the descriptor world and the trace of effects that leave the
  runtime (descriptors closed or installed, memory unmapped, contexts destroyed). The
  interposition layer works on \<open>pst\<close>, which adds \<^verbatim>\<open>errno\<close> and flags; starting a program works
  on \<open>vst\<close>, which adds memory, C strings and the cache; a process with sessions is \<open>host\<close>, in
  which every session has an executor of its own and all share the rest.

  \<^bold>\<open>What is shown.\<close> The pipe refines a bounded first-in first-out channel, and no byte is
  lost, duplicated or reordered by any sequence of operations. In every reachable state the
  descriptor tables are sound (distinct descriptors, references to live objects), and on runs
  that are careful with \<^verbatim>\<open>dup2\<close> and the counter also below the counter; the scheduler has lost no
  process, and a ready process runs within as many steps as its place in the queue. The
  interposed descriptor calls change no other process's table; the C interface refines an
  abstract state of descriptors and channels with its return values, and agrees with the
  interposed calls on virtual pipes and on closing. Forking, path resolution, opening and closing, waiting, polling and
  selecting do what their contracts say. The parser accepts exactly well-formed headers, the
  loader maps segments and applies relocations exactly, a started program finds its arguments
  and descriptors. Creating a process with an idle driver and waiting for its end work end to end,
  the calls return when mutexes are released in time (and what happens when one is not is
  stated), and no driver sleeps through a request or a waiter. The cache of real functions is transparent, a crash report is bounded, every log
  message arrives once and in order when there is a log library, and the wait of an example
  returns in the round in which the child is done. Where the code departs from its comments or from POSIX, a theorem states what it
  does instead; these stand last in each theory.

  \<^bold>\<open>Parameters and hypotheses.\<close> Code outside the crate is an argument: \<open>libc\<close> (the real libc),
  \<open>kernel\<close> (\<^verbatim>\<open>mmap\<close>, \<^verbatim>\<open>mprotect\<close>), \<open>vworld\<close> (file system, dynamic linker, allocator, random bytes),
  handles for minicoro contexts, \<open>run\<close> for what the code of a coroutine does until it switches,
  \<open>schedule\<close> for what other coroutines do while a call waits, the dynamic linker for the log
  library and for real functions, \<open>pfmt\<close> for how the C library prints a pointer. The hypotheses on them are
  documented behaviour: \<open>run_ok\<close> (a coroutine changes the runtime only through its operations),
  \<open>polite\<close> (it does not steal the turn of others), \<open>alloc_fresh\<close> (memory handed out is unused),
  \<open>env_ok\<close> (\<^verbatim>\<open>poll\<close> answers in place), \<open>pfmt_ok\<close> (a pointer prints in 18 bytes),
  \<open>sim_others_ok\<close> (the coroutines of \<^verbatim>\<open>fork_sim\<close> fork and end only). Process ids and descriptors are 32-bit words; theorems that
  need a fresh one say that there is room below the limit.

  \<^bold>\<open>Rounds and bounds.\<close> A call that waits is a loop of rounds (\<open>until_return\<close>); a theorem that it
  returns names the round. The calls on sessions take a number of steps \<open>n\<close> and an oracle
  \<open>free\<close> that says at which steps the mutex asked for is free; a blocking lock repeats its step
  until it is. The loops have the bounds of the code: 100 attempts to lock and 1001 looks at the
  result, that is 1104 steps, and 30000 looks, that is 30004 steps; \<open>session_calls_return\<close> shows
  that they suffice when no mutex is refused, that \<open>B + 1\<close> times as many do when none is refused
  more than \<open>B\<close> times in a row, and that no number suffices for a wait when the session's mutex is
  never released. The search of the descriptor allocator may not end when all descriptors are in use, which is
  \<^const>\<open>None\<close>.

  \<^bold>\<open>Not modelled.\<close> The context switch of minicoro (vendored C and assembly), the C shim
  \<^verbatim>\<open>preload/preload.c\<close>, the points inside other operations at which a message is logged, a
  counter of \<^verbatim>\<open>execve\<close> calls, the freeing of a session object after its last reference, the
  tests, and those examples that only call the crate in sequence and print. A turn of a
  session driver is one step: the code takes no lock on the descriptor tables, so turns of two
  drivers can in fact overlap on them.
\<close>

end
